theory Spec2Isabelle
  imports
    Main
    "HOL-Library.AList"
    "HOL-Library.List_Lexorder"
    "HOL-Library.Product_Lexorder"
    "HOL-Library.Multiset"
begin

section \<open>Python strings\<close>

text \<open>
  A Python \<open>str\<close> is a sequence of Unicode code points; comparison, \<open>len\<close>, the
  regular expressions and the case mappings all work on code points. A code point is
  a natural number here and a \<open>str\<close> a list of them, ordered lexicographically as
  Python orders strings. \<open>ustr\<close> reads an ASCII literal.
\<close>

type_synonym ustring = "nat list"

definition ustr :: "string \<Rightarrow> ustring" where
  "ustr s = map of_char s"

text \<open>
  \<open>str.isspace\<close> for one code point, which is also what \<open>str.strip()\<close> removes and
  what \<open>\s\<close> matches in a \<open>str\<close> pattern: the characters U+0009..U+000D,
  U+001C..U+0020, U+0085, U+00A0, U+1680, U+2000..U+200A, U+2028, U+2029, U+202F,
  U+205F and U+3000.
\<close>

definition py_isspace :: "nat \<Rightarrow> bool" where
  "py_isspace c \<longleftrightarrow>
     (9 \<le> c \<and> c \<le> 13) \<or> (28 \<le> c \<and> c \<le> 32) \<or> c = 133 \<or> c = 160 \<or> c = 5760 \<or>
     (8192 \<le> c \<and> c \<le> 8202) \<or> c = 8232 \<or> c = 8233 \<or> c = 8239 \<or> c = 8287 \<or> c = 12288"

definition py_strip :: "ustring \<Rightarrow> ustring" where
  "py_strip s = rev (dropWhile py_isspace (rev (dropWhile py_isspace s)))"

text \<open>
  \<open>str.lower()\<close> and \<open>str.upper()\<close> follow the Unicode character database of the
  interpreter (Unicode 14.0.0 in CPython 3.11). The tables below are that database's
  case mappings for the code points from U+0080 on. A segment \<open>(lo, hi, step, d)\<close>
  says that every code point \<open>lo\<close>, \<open>lo + step\<close>, ... up to \<open>hi\<close> maps to itself plus
  \<open>d\<close>; the segments are in increasing order and do not overlap, so a look-up can
  stop at the first segment that starts after the code point.
\<close>

fun seg_lookup :: "(nat \<times> nat \<times> nat \<times> int) list \<Rightarrow> nat \<Rightarrow> nat option" where
  "seg_lookup [] c = None"
| "seg_lookup ((lo, hi, step, d) # segs) c =
     (if c < lo then None
      else if c \<le> hi \<and> (c - lo) mod step = 0 then Some (nat (int c + d))
      else seg_lookup segs c)"

text \<open>Membership in a list of ranges \<open>(lo, hi)\<close>, in increasing order.\<close>

fun in_ranges :: "(nat \<times> nat) list \<Rightarrow> nat \<Rightarrow> bool" where
  "in_ranges [] c = False"
| "in_ranges ((lo, hi) # rs) c =
     (if c < lo then False else if c \<le> hi then True else in_ranges rs c)"

text \<open>
  The code points whose upper case is more than one code point, each with the first
  code point of its upper case and the rest, in increasing order.
\<close>

fun special_lookup :: "(nat \<times> nat \<times> nat list) list \<Rightarrow> nat \<Rightarrow> (nat \<times> nat list) option" where
  "special_lookup [] c = None"
| "special_lookup ((k, u, us) # sp) c =
     (if c < k then None else if c = k then Some (u, us) else special_lookup sp c)"

text \<open>Simple lower-case mappings (one code point to one other code point).\<close>

definition lower_segments :: "(nat \<times> nat \<times> nat \<times> int) list" where
  "lower_segments =
     [
      (192, 214, 1, 32), (216, 222, 1, 32), (256, 302, 2, 1), (306, 310, 2, 1),
      (313, 327, 2, 1), (330, 374, 2, 1), (376, 376, 1, - 121), (377, 381, 2, 1),
      (385, 385, 1, 210), (386, 388, 2, 1), (390, 390, 1, 206), (391, 391, 1, 1),
      (393, 394, 1, 205), (395, 395, 1, 1), (398, 398, 1, 79), (399, 399, 1, 202),
      (400, 400, 1, 203), (401, 401, 1, 1), (403, 403, 1, 205), (404, 404, 1, 207),
      (406, 406, 1, 211), (407, 407, 1, 209), (408, 408, 1, 1), (412, 412, 1, 211),
      (413, 413, 1, 213), (415, 415, 1, 214), (416, 420, 2, 1), (422, 422, 1, 218),
      (423, 423, 1, 1), (425, 425, 1, 218), (428, 428, 1, 1), (430, 430, 1, 218),
      (431, 431, 1, 1), (433, 434, 1, 217), (435, 437, 2, 1), (439, 439, 1, 219),
      (440, 440, 1, 1), (444, 444, 1, 1), (452, 452, 1, 2), (453, 453, 1, 1),
      (455, 455, 1, 2), (456, 456, 1, 1), (458, 458, 1, 2), (459, 475, 2, 1),
      (478, 494, 2, 1), (497, 497, 1, 2), (498, 500, 2, 1), (502, 502, 1, - 97),
      (503, 503, 1, - 56), (504, 542, 2, 1), (544, 544, 1, - 130), (546, 562, 2, 1),
      (570, 570, 1, 10795), (571, 571, 1, 1), (573, 573, 1, - 163), (574, 574, 1, 10792),
      (577, 577, 1, 1), (579, 579, 1, - 195), (580, 580, 1, 69), (581, 581, 1, 71),
      (582, 590, 2, 1), (880, 882, 2, 1), (886, 886, 1, 1), (895, 895, 1, 116),
      (902, 902, 1, 38), (904, 906, 1, 37), (908, 908, 1, 64), (910, 911, 1, 63),
      (913, 929, 1, 32), (931, 939, 1, 32), (975, 975, 1, 8), (984, 1006, 2, 1),
      (1012, 1012, 1, - 60), (1015, 1015, 1, 1), (1017, 1017, 1, - 7), (1018, 1018, 1, 1),
      (1021, 1023, 1, - 130), (1024, 1039, 1, 80), (1040, 1071, 1, 32), (1120, 1152, 2, 1),
      (1162, 1214, 2, 1), (1216, 1216, 1, 15), (1217, 1229, 2, 1), (1232, 1326, 2, 1),
      (1329, 1366, 1, 48), (4256, 4293, 1, 7264), (4295, 4295, 1, 7264), (4301, 4301, 1, 7264),
      (5024, 5103, 1, 38864), (5104, 5109, 1, 8), (7312, 7354, 1, - 3008), (7357, 7359, 1, - 3008),
      (7680, 7828, 2, 1), (7838, 7838, 1, - 7615), (7840, 7934, 2, 1), (7944, 7951, 1, - 8),
      (7960, 7965, 1, - 8), (7976, 7983, 1, - 8), (7992, 7999, 1, - 8), (8008, 8013, 1, - 8),
      (8025, 8031, 2, - 8), (8040, 8047, 1, - 8), (8072, 8079, 1, - 8), (8088, 8095, 1, - 8),
      (8104, 8111, 1, - 8), (8120, 8121, 1, - 8), (8122, 8123, 1, - 74), (8124, 8124, 1, - 9),
      (8136, 8139, 1, - 86), (8140, 8140, 1, - 9), (8152, 8153, 1, - 8), (8154, 8155, 1, - 100),
      (8168, 8169, 1, - 8), (8170, 8171, 1, - 112), (8172, 8172, 1, - 7), (8184, 8185, 1, - 128),
      (8186, 8187, 1, - 126), (8188, 8188, 1, - 9), (8486, 8486, 1, - 7517), (8490, 8490, 1, - 8383),
      (8491, 8491, 1, - 8262), (8498, 8498, 1, 28), (8544, 8559, 1, 16), (8579, 8579, 1, 1),
      (9398, 9423, 1, 26), (11264, 11311, 1, 48), (11360, 11360, 1, 1), (11362, 11362, 1, - 10743),
      (11363, 11363, 1, - 3814), (11364, 11364, 1, - 10727), (11367, 11371, 2, 1), (11373, 11373, 1, - 10780),
      (11374, 11374, 1, - 10749), (11375, 11375, 1, - 10783), (11376, 11376, 1, - 10782), (11378, 11378, 1, 1),
      (11381, 11381, 1, 1), (11390, 11391, 1, - 10815), (11392, 11490, 2, 1), (11499, 11501, 2, 1),
      (11506, 11506, 1, 1), (42560, 42604, 2, 1), (42624, 42650, 2, 1), (42786, 42798, 2, 1),
      (42802, 42862, 2, 1), (42873, 42875, 2, 1), (42877, 42877, 1, - 35332), (42878, 42886, 2, 1),
      (42891, 42891, 1, 1), (42893, 42893, 1, - 42280), (42896, 42898, 2, 1), (42902, 42920, 2, 1),
      (42922, 42922, 1, - 42308), (42923, 42923, 1, - 42319), (42924, 42924, 1, - 42315), (42925, 42925, 1, - 42305),
      (42926, 42926, 1, - 42308), (42928, 42928, 1, - 42258), (42929, 42929, 1, - 42282), (42930, 42930, 1, - 42261),
      (42931, 42931, 1, 928), (42932, 42946, 2, 1), (42948, 42948, 1, - 48), (42949, 42949, 1, - 42307),
      (42950, 42950, 1, - 35384), (42951, 42953, 2, 1), (42960, 42960, 1, 1), (42966, 42968, 2, 1),
      (42997, 42997, 1, 1), (65313, 65338, 1, 32), (66560, 66599, 1, 40), (66736, 66771, 1, 40),
      (66928, 66938, 1, 39), (66940, 66954, 1, 39), (66956, 66962, 1, 39), (66964, 66965, 1, 39),
      (68736, 68786, 1, 64), (71840, 71871, 1, 32), (93760, 93791, 1, 32), (125184, 125217, 1, 34)]"

text \<open>Simple upper-case mappings.\<close>

definition upper_segments :: "(nat \<times> nat \<times> nat \<times> int) list" where
  "upper_segments =
     [
      (181, 181, 1, 743), (224, 246, 1, - 32), (248, 254, 1, - 32), (255, 255, 1, 121),
      (257, 303, 2, - 1), (305, 305, 1, - 232), (307, 311, 2, - 1), (314, 328, 2, - 1),
      (331, 375, 2, - 1), (378, 382, 2, - 1), (383, 383, 1, - 300), (384, 384, 1, 195),
      (387, 389, 2, - 1), (392, 392, 1, - 1), (396, 396, 1, - 1), (402, 402, 1, - 1),
      (405, 405, 1, 97), (409, 409, 1, - 1), (410, 410, 1, 163), (414, 414, 1, 130),
      (417, 421, 2, - 1), (424, 424, 1, - 1), (429, 429, 1, - 1), (432, 432, 1, - 1),
      (436, 438, 2, - 1), (441, 441, 1, - 1), (445, 445, 1, - 1), (447, 447, 1, 56),
      (453, 453, 1, - 1), (454, 454, 1, - 2), (456, 456, 1, - 1), (457, 457, 1, - 2),
      (459, 459, 1, - 1), (460, 460, 1, - 2), (462, 476, 2, - 1), (477, 477, 1, - 79),
      (479, 495, 2, - 1), (498, 498, 1, - 1), (499, 499, 1, - 2), (501, 501, 1, - 1),
      (505, 543, 2, - 1), (547, 563, 2, - 1), (572, 572, 1, - 1), (575, 576, 1, 10815),
      (578, 578, 1, - 1), (583, 591, 2, - 1), (592, 592, 1, 10783), (593, 593, 1, 10780),
      (594, 594, 1, 10782), (595, 595, 1, - 210), (596, 596, 1, - 206), (598, 599, 1, - 205),
      (601, 601, 1, - 202), (603, 603, 1, - 203), (604, 604, 1, 42319), (608, 608, 1, - 205),
      (609, 609, 1, 42315), (611, 611, 1, - 207), (613, 613, 1, 42280), (614, 614, 1, 42308),
      (616, 616, 1, - 209), (617, 617, 1, - 211), (618, 618, 1, 42308), (619, 619, 1, 10743),
      (620, 620, 1, 42305), (623, 623, 1, - 211), (625, 625, 1, 10749), (626, 626, 1, - 213),
      (629, 629, 1, - 214), (637, 637, 1, 10727), (640, 640, 1, - 218), (642, 642, 1, 42307),
      (643, 643, 1, - 218), (647, 647, 1, 42282), (648, 648, 1, - 218), (649, 649, 1, - 69),
      (650, 651, 1, - 217), (652, 652, 1, - 71), (658, 658, 1, - 219), (669, 669, 1, 42261),
      (670, 670, 1, 42258), (837, 837, 1, 84), (881, 883, 2, - 1), (887, 887, 1, - 1),
      (891, 893, 1, 130), (940, 940, 1, - 38), (941, 943, 1, - 37), (945, 961, 1, - 32),
      (962, 962, 1, - 31), (963, 971, 1, - 32), (972, 972, 1, - 64), (973, 974, 1, - 63),
      (976, 976, 1, - 62), (977, 977, 1, - 57), (981, 981, 1, - 47), (982, 982, 1, - 54),
      (983, 983, 1, - 8), (985, 1007, 2, - 1), (1008, 1008, 1, - 86), (1009, 1009, 1, - 80),
      (1010, 1010, 1, 7), (1011, 1011, 1, - 116), (1013, 1013, 1, - 96), (1016, 1016, 1, - 1),
      (1019, 1019, 1, - 1), (1072, 1103, 1, - 32), (1104, 1119, 1, - 80), (1121, 1153, 2, - 1),
      (1163, 1215, 2, - 1), (1218, 1230, 2, - 1), (1231, 1231, 1, - 15), (1233, 1327, 2, - 1),
      (1377, 1414, 1, - 48), (4304, 4346, 1, 3008), (4349, 4351, 1, 3008), (5112, 5117, 1, - 8),
      (7296, 7296, 1, - 6254), (7297, 7297, 1, - 6253), (7298, 7298, 1, - 6244), (7299, 7300, 1, - 6242),
      (7301, 7301, 1, - 6243), (7302, 7302, 1, - 6236), (7303, 7303, 1, - 6181), (7304, 7304, 1, 35266),
      (7545, 7545, 1, 35332), (7549, 7549, 1, 3814), (7566, 7566, 1, 35384), (7681, 7829, 2, - 1),
      (7835, 7835, 1, - 59), (7841, 7935, 2, - 1), (7936, 7943, 1, 8), (7952, 7957, 1, 8),
      (7968, 7975, 1, 8), (7984, 7991, 1, 8), (8000, 8005, 1, 8), (8017, 8023, 2, 8),
      (8032, 8039, 1, 8), (8048, 8049, 1, 74), (8050, 8053, 1, 86), (8054, 8055, 1, 100),
      (8056, 8057, 1, 128), (8058, 8059, 1, 112), (8060, 8061, 1, 126), (8112, 8113, 1, 8),
      (8126, 8126, 1, - 7205), (8144, 8145, 1, 8), (8160, 8161, 1, 8), (8165, 8165, 1, 7),
      (8526, 8526, 1, - 28), (8560, 8575, 1, - 16), (8580, 8580, 1, - 1), (9424, 9449, 1, - 26),
      (11312, 11359, 1, - 48), (11361, 11361, 1, - 1), (11365, 11365, 1, - 10795), (11366, 11366, 1, - 10792),
      (11368, 11372, 2, - 1), (11379, 11379, 1, - 1), (11382, 11382, 1, - 1), (11393, 11491, 2, - 1),
      (11500, 11502, 2, - 1), (11507, 11507, 1, - 1), (11520, 11557, 1, - 7264), (11559, 11559, 1, - 7264),
      (11565, 11565, 1, - 7264), (42561, 42605, 2, - 1), (42625, 42651, 2, - 1), (42787, 42799, 2, - 1),
      (42803, 42863, 2, - 1), (42874, 42876, 2, - 1), (42879, 42887, 2, - 1), (42892, 42892, 1, - 1),
      (42897, 42899, 2, - 1), (42900, 42900, 1, 48), (42903, 42921, 2, - 1), (42933, 42947, 2, - 1),
      (42952, 42954, 2, - 1), (42961, 42961, 1, - 1), (42967, 42969, 2, - 1), (42998, 42998, 1, - 1),
      (43859, 43859, 1, - 928), (43888, 43967, 1, - 38864), (65345, 65370, 1, - 32), (66600, 66639, 1, - 40),
      (66776, 66811, 1, - 40), (66967, 66977, 1, - 39), (66979, 66993, 1, - 39), (66995, 67001, 1, - 39),
      (67003, 67004, 1, - 39), (68800, 68850, 1, - 64), (71872, 71903, 1, - 32), (93792, 93823, 1, - 32),
      (125218, 125251, 1, - 34)]"

text \<open>Upper-case mappings to several code points, such as U+00DF to \<open>SS\<close>.\<close>

definition upper_special :: "(nat \<times> nat \<times> nat list) list" where
  "upper_special =
     [
      (223, 83, [83]), (329, 700, [78]), (496, 74, [780]), (912, 921, [776, 769]),
      (944, 933, [776, 769]), (1415, 1333, [1362]), (7830, 72, [817]), (7831, 84, [776]),
      (7832, 87, [778]), (7833, 89, [778]), (7834, 65, [702]), (8016, 933, [787]),
      (8018, 933, [787, 768]), (8020, 933, [787, 769]), (8022, 933, [787, 834]), (8064, 7944, [921]),
      (8065, 7945, [921]), (8066, 7946, [921]), (8067, 7947, [921]), (8068, 7948, [921]),
      (8069, 7949, [921]), (8070, 7950, [921]), (8071, 7951, [921]), (8072, 7944, [921]),
      (8073, 7945, [921]), (8074, 7946, [921]), (8075, 7947, [921]), (8076, 7948, [921]),
      (8077, 7949, [921]), (8078, 7950, [921]), (8079, 7951, [921]), (8080, 7976, [921]),
      (8081, 7977, [921]), (8082, 7978, [921]), (8083, 7979, [921]), (8084, 7980, [921]),
      (8085, 7981, [921]), (8086, 7982, [921]), (8087, 7983, [921]), (8088, 7976, [921]),
      (8089, 7977, [921]), (8090, 7978, [921]), (8091, 7979, [921]), (8092, 7980, [921]),
      (8093, 7981, [921]), (8094, 7982, [921]), (8095, 7983, [921]), (8096, 8040, [921]),
      (8097, 8041, [921]), (8098, 8042, [921]), (8099, 8043, [921]), (8100, 8044, [921]),
      (8101, 8045, [921]), (8102, 8046, [921]), (8103, 8047, [921]), (8104, 8040, [921]),
      (8105, 8041, [921]), (8106, 8042, [921]), (8107, 8043, [921]), (8108, 8044, [921]),
      (8109, 8045, [921]), (8110, 8046, [921]), (8111, 8047, [921]), (8114, 8122, [921]),
      (8115, 913, [921]), (8116, 902, [921]), (8118, 913, [834]), (8119, 913, [834, 921]),
      (8124, 913, [921]), (8130, 8138, [921]), (8131, 919, [921]), (8132, 905, [921]),
      (8134, 919, [834]), (8135, 919, [834, 921]), (8140, 919, [921]), (8146, 921, [776, 768]),
      (8147, 921, [776, 769]), (8150, 921, [834]), (8151, 921, [776, 834]), (8162, 933, [776, 768]),
      (8163, 933, [776, 769]), (8164, 929, [787]), (8166, 933, [834]), (8167, 933, [776, 834]),
      (8178, 8186, [921]), (8179, 937, [921]), (8180, 911, [921]), (8182, 937, [834]),
      (8183, 937, [834, 921]), (8188, 937, [921]), (64256, 70, [70]), (64257, 70, [73]),
      (64258, 70, [76]), (64259, 70, [70, 73]), (64260, 70, [70, 76]), (64261, 83, [84]),
      (64262, 83, [84]), (64275, 1348, [1350]), (64276, 1348, [1333]), (64277, 1348, [1339]),
      (64278, 1358, [1350]), (64279, 1348, [1341])]"

text \<open>
  The lower case of one code point other than U+03A3. U+0130 is the only code point
  whose lower case is more than one code point.
\<close>

definition py_lower_cp :: "nat \<Rightarrow> ustring" where
  "py_lower_cp c =
     (if c < 128 then (if 65 \<le> c \<and> c \<le> 90 then [c + 32] else [c])
      else if c = 304 then [105, 775]
      else (case seg_lookup lower_segments c of Some l \<Rightarrow> [l] | None \<Rightarrow> [c]))"

definition py_upper_cp :: "nat \<Rightarrow> ustring" where
  "py_upper_cp c =
     (if c < 128 then (if 97 \<le> c \<and> c \<le> 122 then [c - 32] else [c])
      else (case special_lookup upper_special c of
              Some (u, us) \<Rightarrow> u # us
            | None \<Rightarrow> (case seg_lookup upper_segments c of Some u \<Rightarrow> [u] | None \<Rightarrow> [c])))"

text \<open>\<open>str.upper()\<close> maps each code point on its own.\<close>

definition py_upper :: "ustring \<Rightarrow> ustring" where
  "py_upper s = concat (map py_upper_cp s)"

text \<open>
  \<open>str.lower()\<close> does so too, except for the capital sigma U+03A3: it becomes the
  final sigma U+03C2 when a cased letter comes before it and none after it, code
  points that are case-ignorable being skipped on both sides, and U+03C3 otherwise.
  The two tables are the case-ignorable code points and the cased code points that
  are not case-ignorable.
\<close>

definition case_ignorable_ranges :: "(nat \<times> nat) list" where
  "case_ignorable_ranges =
     [
      (39, 39), (46, 46), (58, 58), (94, 94), (96, 96), (168, 168),
      (173, 173), (175, 175), (180, 180), (183, 184), (688, 879), (884, 885),
      (890, 890), (900, 901), (903, 903), (1155, 1161), (1369, 1369), (1375, 1375),
      (1425, 1469), (1471, 1471), (1473, 1474), (1476, 1477), (1479, 1479), (1524, 1524),
      (1536, 1541), (1552, 1562), (1564, 1564), (1600, 1600), (1611, 1631), (1648, 1648),
      (1750, 1757), (1759, 1768), (1770, 1773), (1807, 1807), (1809, 1809), (1840, 1866),
      (1958, 1968), (2027, 2037), (2042, 2042), (2045, 2045), (2070, 2093), (2137, 2139),
      (2184, 2184), (2192, 2193), (2200, 2207), (2249, 2306), (2362, 2362), (2364, 2364),
      (2369, 2376), (2381, 2381), (2385, 2391), (2402, 2403), (2417, 2417), (2433, 2433),
      (2492, 2492), (2497, 2500), (2509, 2509), (2530, 2531), (2558, 2558), (2561, 2562),
      (2620, 2620), (2625, 2626), (2631, 2632), (2635, 2637), (2641, 2641), (2672, 2673),
      (2677, 2677), (2689, 2690), (2748, 2748), (2753, 2757), (2759, 2760), (2765, 2765),
      (2786, 2787), (2810, 2815), (2817, 2817), (2876, 2876), (2879, 2879), (2881, 2884),
      (2893, 2893), (2901, 2902), (2914, 2915), (2946, 2946), (3008, 3008), (3021, 3021),
      (3072, 3072), (3076, 3076), (3132, 3132), (3134, 3136), (3142, 3144), (3146, 3149),
      (3157, 3158), (3170, 3171), (3201, 3201), (3260, 3260), (3263, 3263), (3270, 3270),
      (3276, 3277), (3298, 3299), (3328, 3329), (3387, 3388), (3393, 3396), (3405, 3405),
      (3426, 3427), (3457, 3457), (3530, 3530), (3538, 3540), (3542, 3542), (3633, 3633),
      (3636, 3642), (3654, 3662), (3761, 3761), (3764, 3772), (3782, 3782), (3784, 3789),
      (3864, 3865), (3893, 3893), (3895, 3895), (3897, 3897), (3953, 3966), (3968, 3972),
      (3974, 3975), (3981, 3991), (3993, 4028), (4038, 4038), (4141, 4144), (4146, 4151),
      (4153, 4154), (4157, 4158), (4184, 4185), (4190, 4192), (4209, 4212), (4226, 4226),
      (4229, 4230), (4237, 4237), (4253, 4253), (4348, 4348), (4957, 4959), (5906, 5908),
      (5938, 5939), (5970, 5971), (6002, 6003), (6068, 6069), (6071, 6077), (6086, 6086),
      (6089, 6099), (6103, 6103), (6109, 6109), (6155, 6159), (6211, 6211), (6277, 6278),
      (6313, 6313), (6432, 6434), (6439, 6440), (6450, 6450), (6457, 6459), (6679, 6680),
      (6683, 6683), (6742, 6742), (6744, 6750), (6752, 6752), (6754, 6754), (6757, 6764),
      (6771, 6780), (6783, 6783), (6823, 6823), (6832, 6862), (6912, 6915), (6964, 6964),
      (6966, 6970), (6972, 6972), (6978, 6978), (7019, 7027), (7040, 7041), (7074, 7077),
      (7080, 7081), (7083, 7085), (7142, 7142), (7144, 7145), (7149, 7149), (7151, 7153),
      (7212, 7219), (7222, 7223), (7288, 7293), (7376, 7378), (7380, 7392), (7394, 7400),
      (7405, 7405), (7412, 7412), (7416, 7417), (7468, 7530), (7544, 7544), (7579, 7679),
      (8125, 8125), (8127, 8129), (8141, 8143), (8157, 8159), (8173, 8175), (8189, 8190),
      (8203, 8207), (8216, 8217), (8228, 8228), (8231, 8231), (8234, 8238), (8288, 8292),
      (8294, 8303), (8305, 8305), (8319, 8319), (8336, 8348), (8400, 8432), (11388, 11389),
      (11503, 11505), (11631, 11631), (11647, 11647), (11744, 11775), (11823, 11823), (12293, 12293),
      (12330, 12333), (12337, 12341), (12347, 12347), (12441, 12446), (12540, 12542), (40981, 40981),
      (42232, 42237), (42508, 42508), (42607, 42610), (42612, 42621), (42623, 42623), (42652, 42655),
      (42736, 42737), (42752, 42785), (42864, 42864), (42888, 42890), (42994, 42996), (43000, 43001),
      (43010, 43010), (43014, 43014), (43019, 43019), (43045, 43046), (43052, 43052), (43204, 43205),
      (43232, 43249), (43263, 43263), (43302, 43309), (43335, 43345), (43392, 43394), (43443, 43443),
      (43446, 43449), (43452, 43453), (43471, 43471), (43493, 43494), (43561, 43566), (43569, 43570),
      (43573, 43574), (43587, 43587), (43596, 43596), (43632, 43632), (43644, 43644), (43696, 43696),
      (43698, 43700), (43703, 43704), (43710, 43711), (43713, 43713), (43741, 43741), (43756, 43757),
      (43763, 43764), (43766, 43766), (43867, 43871), (43881, 43883), (44005, 44005), (44008, 44008),
      (44013, 44013), (64286, 64286), (64434, 64450), (65024, 65039), (65043, 65043), (65056, 65071),
      (65106, 65106), (65109, 65109), (65279, 65279), (65287, 65287), (65294, 65294), (65306, 65306),
      (65342, 65342), (65344, 65344), (65392, 65392), (65438, 65439), (65507, 65507), (65529, 65531),
      (66045, 66045), (66272, 66272), (66422, 66426), (67456, 67461), (67463, 67504), (67506, 67514),
      (68097, 68099), (68101, 68102), (68108, 68111), (68152, 68154), (68159, 68159), (68325, 68326),
      (68900, 68903), (69291, 69292), (69446, 69456), (69506, 69509), (69633, 69633), (69688, 69702),
      (69744, 69744), (69747, 69748), (69759, 69761), (69811, 69814), (69817, 69818), (69821, 69821),
      (69826, 69826), (69837, 69837), (69888, 69890), (69927, 69931), (69933, 69940), (70003, 70003),
      (70016, 70017), (70070, 70078), (70089, 70092), (70095, 70095), (70191, 70193), (70196, 70196),
      (70198, 70199), (70206, 70206), (70367, 70367), (70371, 70378), (70400, 70401), (70459, 70460),
      (70464, 70464), (70502, 70508), (70512, 70516), (70712, 70719), (70722, 70724), (70726, 70726),
      (70750, 70750), (70835, 70840), (70842, 70842), (70847, 70848), (70850, 70851), (71090, 71093),
      (71100, 71101), (71103, 71104), (71132, 71133), (71219, 71226), (71229, 71229), (71231, 71232),
      (71339, 71339), (71341, 71341), (71344, 71349), (71351, 71351), (71453, 71455), (71458, 71461),
      (71463, 71467), (71727, 71735), (71737, 71738), (71995, 71996), (71998, 71998), (72003, 72003),
      (72148, 72151), (72154, 72155), (72160, 72160), (72193, 72202), (72243, 72248), (72251, 72254),
      (72263, 72263), (72273, 72278), (72281, 72283), (72330, 72342), (72344, 72345), (72752, 72758),
      (72760, 72765), (72767, 72767), (72850, 72871), (72874, 72880), (72882, 72883), (72885, 72886),
      (73009, 73014), (73018, 73018), (73020, 73021), (73023, 73029), (73031, 73031), (73104, 73105),
      (73109, 73109), (73111, 73111), (73459, 73460), (78896, 78904), (92912, 92916), (92976, 92982),
      (92992, 92995), (94031, 94031), (94095, 94111), (94176, 94177), (94179, 94180), (110576, 110579),
      (110581, 110587), (110589, 110590), (113821, 113822), (113824, 113827), (118528, 118573), (118576, 118598),
      (119143, 119145), (119155, 119170), (119173, 119179), (119210, 119213), (119362, 119364), (121344, 121398),
      (121403, 121452), (121461, 121461), (121476, 121476), (121499, 121503), (121505, 121519), (122880, 122886),
      (122888, 122904), (122907, 122913), (122915, 122916), (122918, 122922), (123184, 123197), (123566, 123566),
      (123628, 123631), (125136, 125142), (125252, 125259), (127995, 127999), (917505, 917505), (917536, 917631),
      (917760, 917999)]"

definition cased_ranges :: "(nat \<times> nat) list" where
  "cased_ranges =
     [
      (65, 90), (97, 122), (170, 170), (181, 181), (186, 186), (192, 214),
      (216, 246), (248, 442), (444, 447), (452, 659), (661, 687), (880, 883),
      (886, 887), (891, 893), (895, 895), (902, 902), (904, 906), (908, 908),
      (910, 929), (931, 1013), (1015, 1153), (1162, 1327), (1329, 1366), (1376, 1416),
      (4256, 4293), (4295, 4295), (4301, 4301), (4304, 4346), (4349, 4351), (5024, 5109),
      (5112, 5117), (7296, 7304), (7312, 7354), (7357, 7359), (7424, 7467), (7531, 7543),
      (7545, 7578), (7680, 7957), (7960, 7965), (7968, 8005), (8008, 8013), (8016, 8023),
      (8025, 8025), (8027, 8027), (8029, 8029), (8031, 8061), (8064, 8116), (8118, 8124),
      (8126, 8126), (8130, 8132), (8134, 8140), (8144, 8147), (8150, 8155), (8160, 8172),
      (8178, 8180), (8182, 8188), (8450, 8450), (8455, 8455), (8458, 8467), (8469, 8469),
      (8473, 8477), (8484, 8484), (8486, 8486), (8488, 8488), (8490, 8493), (8495, 8500),
      (8505, 8505), (8508, 8511), (8517, 8521), (8526, 8526), (8544, 8575), (8579, 8580),
      (9398, 9449), (11264, 11387), (11390, 11492), (11499, 11502), (11506, 11507), (11520, 11557),
      (11559, 11559), (11565, 11565), (42560, 42605), (42624, 42651), (42786, 42863), (42865, 42887),
      (42891, 42894), (42896, 42954), (42960, 42961), (42963, 42963), (42965, 42969), (42997, 42998),
      (43002, 43002), (43824, 43866), (43872, 43880), (43888, 43967), (64256, 64262), (64275, 64279),
      (65313, 65338), (65345, 65370), (66560, 66639), (66736, 66771), (66776, 66811), (66928, 66938),
      (66940, 66954), (66956, 66962), (66964, 66965), (66967, 66977), (66979, 66993), (66995, 67001),
      (67003, 67004), (68736, 68786), (68800, 68850), (71840, 71903), (93760, 93823), (119808, 119892),
      (119894, 119964), (119966, 119967), (119970, 119970), (119973, 119974), (119977, 119980), (119982, 119993),
      (119995, 119995), (119997, 120003), (120005, 120069), (120071, 120074), (120077, 120084), (120086, 120092),
      (120094, 120121), (120123, 120126), (120128, 120132), (120134, 120134), (120138, 120144), (120146, 120485),
      (120488, 120512), (120514, 120538), (120540, 120570), (120572, 120596), (120598, 120628), (120630, 120654),
      (120656, 120686), (120688, 120712), (120714, 120744), (120746, 120770), (120772, 120779), (122624, 122633),
      (122635, 122654), (125184, 125251), (127280, 127305), (127312, 127337), (127344, 127369)]"

definition final_sigma :: "ustring \<Rightarrow> ustring \<Rightarrow> bool" where
  "final_sigma pre post \<longleftrightarrow>
     (case dropWhile (in_ranges case_ignorable_ranges) pre of
        [] \<Rightarrow> False
      | p # _ \<Rightarrow> in_ranges cased_ranges p) \<and>
     (case dropWhile (in_ranges case_ignorable_ranges) post of
        [] \<Rightarrow> True
      | n # _ \<Rightarrow> \<not> in_ranges cased_ranges n)"

text \<open>
  \<open>lower_from pre s\<close>: the lower case of \<open>s\<close> where \<open>pre\<close> holds, last first, the code
  points before \<open>s\<close>.
\<close>

fun lower_from :: "ustring \<Rightarrow> ustring \<Rightarrow> ustring" where
  "lower_from pre [] = []"
| "lower_from pre (c # cs) =
     (if c = 931 then [if final_sigma pre cs then 962 else 963] else py_lower_cp c)
     @ lower_from (c # pre) cs"

definition py_lower :: "ustring \<Rightarrow> ustring" where
  "py_lower s = lower_from [] s"

text \<open>\<open>sep.join(ws)\<close>.\<close>

fun py_join :: "ustring \<Rightarrow> ustring list \<Rightarrow> ustring" where
  "py_join sep [] = []"
| "py_join sep [w] = w"
| "py_join sep (w # v # ws) = w @ sep @ py_join sep (v # ws)"

text \<open>
  \<open>s.split(sep)\<close> for a separator of one character: the pieces between the
  separators, empty pieces included, so that \<open>"".split(" ")\<close> is \<open>[""]\<close>.
\<close>

fun py_split :: "nat \<Rightarrow> ustring \<Rightarrow> ustring list" where
  "py_split sep [] = [[]]"
| "py_split sep (c # cs) =
     (if c = sep then [] # py_split sep cs
      else (case py_split sep cs of w # ws \<Rightarrow> (c # w) # ws | [] \<Rightarrow> [[c]]))"

text \<open>
  \<open>re.sub(r"[...]+", " ", s)\<close> for a character class: every maximal non-empty run of
  characters of the class becomes one space.
\<close>

function re_sub_runs :: "(nat \<Rightarrow> bool) \<Rightarrow> ustring \<Rightarrow> ustring" where
  "re_sub_runs cls [] = []"
| "re_sub_runs cls (c # cs) =
     (if cls c then 32 # re_sub_runs cls (dropWhile cls cs)
      else c # re_sub_runs cls cs)"
  by pat_completeness auto
termination
  by (relation "measure (\<lambda>(cls, s). length s)")
     (auto simp: length_dropWhile_le less_Suc_eq_le)

section \<open>The name canonicalizer (sharks.py)\<close>

text \<open>
  The exceptions that end a call. \<open>WriteError\<close> stands for whatever \<open>write_text\<close>
  raises: an \<open>OSError\<close> such as \<open>FileNotFoundError\<close>, or a \<open>ValueError\<close> for a
  path with a null character or a text that cannot be encoded.
\<close>

datatype error = AttributeError | IndexError | WriteError

definition SUFFIX_STOPWORDS :: "ustring list" where
  "SUFFIX_STOPWORDS = map ustr
     [''inc'', ''incorporated'', ''corp'', ''corporation'', ''co'', ''company'',
      ''ltd'', ''ltda'', ''plc'', ''llc'', ''lp'', ''l.p'', ''sa'', ''s/a'',
      ''holding'', ''holdings'']"

text \<open>The class \<open>[a-z0-9]\<close>.\<close>

definition is_az09 :: "nat \<Rightarrow> bool" where
  "is_az09 c \<longleftrightarrow> (97 \<le> c \<and> c \<le> 122) \<or> (48 \<le> c \<and> c \<le> 57)"

text \<open>
  The class of the first substitution: the double quote, the apostrophe, the
  backtick and the two code points U+00C2 and U+00B4 that the source file has after
  them.
\<close>

definition is_quote_like :: "nat \<Rightarrow> bool" where
  "is_quote_like c \<longleftrightarrow> c = 34 \<or> c = 39 \<or> c = 96 \<or> c = 194 \<or> c = 180"

text \<open>
  \<open>_normalize_shark_name\<close>. \<open>tokens[0]\<close> raises \<open>IndexError\<close> on an empty list, which
  is a branch of the model (\<open>normalize_shark_name_total\<close> shows it is never taken).
\<close>

definition normalize_shark_name :: "ustring \<Rightarrow> error + ustring" where
  "normalize_shark_name name =
     (let s = py_lower (py_strip name) in
      if s = [] then Inr []
      else
        let s = filter (\<lambda>c. \<not> is_quote_like c) s;
            s = re_sub_runs (\<lambda>c. \<not> is_az09 c) s;
            s = py_strip (re_sub_runs py_isspace s)
        in
        if s = [] then Inr []
        else
          let tokens = filter (\<lambda>t. t \<noteq> []) (py_split 32 s);
              filtered = filter (\<lambda>t. t \<notin> set SUFFIX_STOPWORDS) tokens
          in
          if filtered = [] then
            (case tokens of [] \<Rightarrow> Inl IndexError | t # _ \<Rightarrow> Inr t)
          else Inr (py_join [32] filtered))"

text \<open>A token of a canonical key: a non-empty word over \<open>[a-z0-9]\<close>.\<close>

definition az_word :: "ustring \<Rightarrow> bool" where
  "az_word w \<longleftrightarrow> w \<noteq> [] \<and> (\<forall>c\<in>set w. is_az09 c)"


section \<open>JSON values and dictionaries\<close>

text \<open>
  What \<open>json.loads\<close> returns, and the records the scrapers build: \<open>None\<close>, a
  Boolean, a number, a \<open>str\<close>, a list or a \<open>dict\<close> with \<open>str\<close> keys. A \<open>dict\<close> is an
  association list in insertion order whose first binding of a key is the one that
  counts; \<open>AList.update\<close> is Python's assignment \<open>d[k] = v\<close> (an old key keeps its
  place, a new key goes to the end). Numbers are integers; a number that is not an
  integer would be treated in the same way by every function below, which only test
  a value for truth and apply \<open>str\<close> to it.
\<close>

datatype json =
  JNull | JBool bool | JNum int | JStr ustring | JList "json list"
| JDict "(ustring \<times> json) list"

text \<open>Truth value testing, as \<open>or\<close> and \<open>if\<close> apply it.\<close>

fun py_truthy :: "json \<Rightarrow> bool" where
  "py_truthy JNull = False"
| "py_truthy (JBool b) = b"
| "py_truthy (JNum n) = (n \<noteq> 0)"
| "py_truthy (JStr s) = (s \<noteq> [])"
| "py_truthy (JList xs) = (xs \<noteq> [])"
| "py_truthy (JDict d) = (d \<noteq> [])"

definition py_or :: "json \<Rightarrow> json \<Rightarrow> json" where
  "py_or a b = (if py_truthy a then a else b)"

text \<open>\<open>d.get(k)\<close>: \<open>None\<close> for a missing key.\<close>

definition dict_get :: "(ustring \<times> json) list \<Rightarrow> ustring \<Rightarrow> json" where
  "dict_get d k = (case map_of d k of None \<Rightarrow> JNull | Some v \<Rightarrow> v)"

text \<open>
  \<open>str(v)\<close>. A \<open>str\<close> is returned as it is. For every other value \<open>str\<close> is Python's
  \<open>repr\<close>, which is not part of this program: it is the parameter \<open>repr\<close> of every
  function that calls \<open>str\<close>.
\<close>

definition py_str :: "(json \<Rightarrow> ustring) \<Rightarrow> json \<Rightarrow> ustring" where
  "py_str repr v = (case v of JStr s \<Rightarrow> s | _ \<Rightarrow> repr v)"

text \<open>\<open>s.endswith(suf)\<close>.\<close>

definition py_endswith :: "ustring \<Rightarrow> ustring \<Rightarrow> bool" where
  "py_endswith s suf \<longleftrightarrow>
     length suf \<le> length s \<and> drop (length s - length suf) s = suf"

section \<open>The shark resolver (sharks.py)\<close>

text \<open>
  The output directory is the list of its entries: the name of each file and what
  \<open>json.loads(p.read_text(encoding="utf-8"))\<close> gives for it, \<open>None\<close> when reading or
  parsing raises.
\<close>

type_synonym dir_entry = "ustring \<times> json option"

text \<open>
  \<open>sorted(out_dir.glob("*.acionistas.json"))\<close>: the entries whose name ends with
  \<open>.acionistas.json\<close> (\<open>*\<close> also matches the empty string and a leading dot), in the
  order of their names.
\<close>

definition glob_acionistas :: "dir_entry list \<Rightarrow> dir_entry list" where
  "glob_acionistas dir =
     sort_key fst (filter (\<lambda>e. py_endswith (fst e) (ustr ''.acionistas.json'')) dir)"

text \<open>
  The regular expression engine under \<open>re.IGNORECASE\<close> on a \<open>str\<close> pattern lowers the
  subject's character with Unicode's simple lower-case mapping (\<open>sre_lower\<close>) and
  looks it up in the pattern's character set, which was extended at compile time by
  the lower-case letters that share an upper-case letter with a member: U+0131 with
  \<open>i\<close> and U+017F with \<open>s\<close>. So \<open>[a-z0-9]\<close> also matches U+0130, U+0131, U+017F and
  U+212A, as the documentation of \<open>re.IGNORECASE\<close> says.
\<close>

definition sre_lower :: "nat \<Rightarrow> nat" where
  "sre_lower c =
     (if 65 \<le> c \<and> c \<le> 90 then c + 32
      else if 192 \<le> c \<and> c \<le> 222 \<and> c \<noteq> 215 then c + 32
      else if c = 304 then 105
      else if c = 8490 then 107
      else c)"

definition ic_az09 :: "nat \<Rightarrow> bool" where
  "ic_az09 c \<longleftrightarrow> is_az09 (sre_lower c) \<or> sre_lower c = 305 \<or> sre_lower c = 383"

definition ic_literal :: "nat \<Rightarrow> nat \<Rightarrow> bool" where
  "ic_literal p c \<longleftrightarrow>
     sre_lower c = p \<or> (p = 105 \<and> sre_lower c = 305) \<or> (p = 115 \<and> sre_lower c = 383)"

text \<open>
  \<open>re.match(r"^([a-z0-9]+)\.acionistas\.json$", name, re.IGNORECASE)\<close>, returning
  \<open>m.group(1)\<close>. The group is the longest prefix in the class (no shorter one can
  be followed by the dot); \<open>$\<close> matches at the end and before a final newline.
\<close>

definition re_match_acionistas :: "ustring \<Rightarrow> ustring option" where
  "re_match_acionistas fname =
     (let stem = takeWhile ic_az09 fname;
          rest = dropWhile ic_az09 fname;
          pat = ustr ''.acionistas.json''
      in if stem \<noteq> [] \<and>
            (list_all2 ic_literal pat rest \<or>
             rest \<noteq> [] \<and> last rest = 10 \<and> list_all2 ic_literal pat (butlast rest))
         then Some stem else None)"

text \<open>
  The two dictionaries of \<open>build_sharks\<close>: \<open>accionistas_map\<close>, from a canonical key
  to its set of tickers (a list without duplicates, sorted when it is read), and
  \<open>display_name_counts\<close>, from a canonical key to the counts of its raw spellings.
\<close>

type_synonym accionistas_map = "(ustring \<times> ustring list) list"
type_synonym display_name_counts = "(ustring \<times> (ustring \<times> nat) list) list"

text \<open>\<open>accionistas_map.setdefault(key, set()).add(ticker)\<close>.\<close>

definition add_ticker :: "ustring \<Rightarrow> ustring \<Rightarrow> accionistas_map \<Rightarrow> accionistas_map" where
  "add_ticker key ticker am =
     AList.update key
       (List.insert ticker (case map_of am key of None \<Rightarrow> [] | Some ts \<Rightarrow> ts)) am"

text \<open>
  \<open>display_name_counts.setdefault(key, {})\<close> and
  \<open>display_name_counts[key][name_raw] = display_name_counts[key].get(name_raw, 0) + 1\<close>.
\<close>

definition count_name :: "ustring \<Rightarrow> ustring \<Rightarrow> display_name_counts \<Rightarrow> display_name_counts" where
  "count_name key name_raw dc =
     (let counts = (case map_of dc key of None \<Rightarrow> [] | Some cs \<Rightarrow> cs);
          n = (case map_of counts name_raw of None \<Rightarrow> 0 | Some n \<Rightarrow> n)
      in AList.update key (AList.update name_raw (n + 1) counts) dc)"

text \<open>The body of \<open>for item in items\<close>.\<close>

definition add_row ::
  "(json \<Rightarrow> ustring) \<Rightarrow> ustring \<Rightarrow> json \<Rightarrow> accionistas_map \<times> display_name_counts
     \<Rightarrow> error + accionistas_map \<times> display_name_counts" where
  "add_row repr ticker item st =
     (case item of
        JDict d \<Rightarrow>
          (let name_raw = py_strip (py_str repr (py_or (dict_get d (ustr ''acionista'')) (JStr [])))
           in if name_raw = [] then Inr st
              else (case normalize_shark_name name_raw of
                      Inl e \<Rightarrow> Inl e
                    | Inr key \<Rightarrow>
                        if key = [] then Inr st
                        else Inr (add_ticker key ticker (fst st),
                                  count_name key name_raw (snd st))))
      | _ \<Rightarrow> Inr st)"

fun add_rows ::
  "(json \<Rightarrow> ustring) \<Rightarrow> ustring \<Rightarrow> json list \<Rightarrow> accionistas_map \<times> display_name_counts
     \<Rightarrow> error + accionistas_map \<times> display_name_counts" where
  "add_rows repr ticker [] st = Inr st"
| "add_rows repr ticker (item # rest) st =
     (case add_row repr ticker item st of
        Inl e \<Rightarrow> Inl e
      | Inr st' \<Rightarrow> add_rows repr ticker rest st')"

text \<open>
  The ticker of an artifact: the \<open>ticker\<close> field, stripped and upper-cased, and when
  that is empty the group of the file name's match.
\<close>

definition artifact_ticker :: "(json \<Rightarrow> ustring) \<Rightarrow> ustring \<Rightarrow> (ustring \<times> json) list \<Rightarrow> ustring" where
  "artifact_ticker repr fname d =
     (let ticker = py_upper (py_strip (py_str repr (py_or (dict_get d (ustr ''ticker'')) (JStr []))))
      in if ticker = [] then
           (case re_match_acionistas fname of
              Some g \<Rightarrow> py_upper (py_strip g)
            | None \<Rightarrow> ticker)
         else ticker)"

text \<open>
  The body of \<open>for p in sorted(...)\<close>. \<open>payload.get\<close> is outside the \<open>try\<close>: on a
  payload that is not a \<open>dict\<close> it raises \<open>AttributeError\<close>.
\<close>

definition scan_artifact ::
  "(json \<Rightarrow> ustring) \<Rightarrow> dir_entry \<Rightarrow> accionistas_map \<times> display_name_counts
     \<Rightarrow> error + accionistas_map \<times> display_name_counts" where
  "scan_artifact repr p st =
     (case snd p of
        None \<Rightarrow> Inr st
      | Some payload \<Rightarrow>
          (case payload of
             JDict d \<Rightarrow>
               (let ticker = artifact_ticker repr (fst p) d
                in case dict_get d (ustr ''items'') of
                     JList rows \<Rightarrow>
                       if ticker = [] then Inr st else add_rows repr ticker rows st
                   | _ \<Rightarrow> Inr st)
           | _ \<Rightarrow> Inl AttributeError))"

fun scan_artifacts ::
  "(json \<Rightarrow> ustring) \<Rightarrow> dir_entry list \<Rightarrow> accionistas_map \<times> display_name_counts
     \<Rightarrow> error + accionistas_map \<times> display_name_counts" where
  "scan_artifacts repr [] st = Inr st"
| "scan_artifacts repr (p # ps) st =
     (case scan_artifact repr p st of
        Inl e \<Rightarrow> Inl e
      | Inr st' \<Rightarrow> scan_artifacts repr ps st')"

record shark =
  shark_name :: ustring
  quantity :: nat
  items :: "ustring list"

text \<open>
  \<open>sorted(name_counts.items(), key=lambda x: (-x[1], x[0]))[0][0]\<close> when
  \<open>name_counts\<close> is not empty, \<open>shark_key\<close> otherwise (the sorted list is empty
  exactly then).
\<close>

definition display_name :: "ustring \<Rightarrow> (ustring \<times> nat) list \<Rightarrow> ustring" where
  "display_name shark_key name_counts =
     (case sort_key (\<lambda>x. (- int (snd x), fst x)) name_counts of
        [] \<Rightarrow> shark_key
      | x # _ \<Rightarrow> fst x)"

definition make_shark :: "display_name_counts \<Rightarrow> ustring \<times> ustring list \<Rightarrow> shark" where
  "make_shark dc e =
     (let tickers = sort (snd e);
          name_counts = (case map_of dc (fst e) of None \<Rightarrow> [] | Some cs \<Rightarrow> cs)
      in \<lparr>shark_name = display_name (fst e) name_counts,
          quantity = length tickers,
          items = tickers\<rparr>)"

text \<open>
  The key of the final sort, \<open>(-int(x.get("quantity") or 0), str(x.get("shark_name") or ""))\<close>:
  both fields are always there, \<open>q or 0\<close> is \<open>q\<close> for a number and \<open>s or ""\<close> is \<open>s\<close>
  for a \<open>str\<close>.
\<close>

definition shark_sort_key :: "shark \<Rightarrow> int \<times> ustring" where
  "shark_sort_key x = (- int (quantity x), shark_name x)"

definition build_sharks :: "(json \<Rightarrow> ustring) \<Rightarrow> dir_entry list \<Rightarrow> error + shark list" where
  "build_sharks repr out_dir =
     (case scan_artifacts repr (glob_acionistas out_dir) ([], []) of
        Inl e \<Rightarrow> Inl e
      | Inr st \<Rightarrow> Inr (sort_key shark_sort_key (map (make_shark (snd st)) (fst st))))"


section \<open>The rows the resolver counts\<close>

text \<open>
  The rows that reach the two updates of the loop body, each as its canonical key,
  the ticker of its artifact and its raw name: what \<open>build_sharks\<close> has seen when
  the loop over the artifacts ends.
\<close>

definition row_of :: "(json \<Rightarrow> ustring) \<Rightarrow> ustring \<Rightarrow> json \<Rightarrow> (ustring \<times> ustring \<times> ustring) option" where
  "row_of repr ticker item =
     (case item of
        JDict d \<Rightarrow>
          (let name_raw = py_strip (py_str repr (py_or (dict_get d (ustr ''acionista'')) (JStr [])))
           in if name_raw = [] then None
              else (case normalize_shark_name name_raw of
                      Inl e \<Rightarrow> None
                    | Inr key \<Rightarrow> if key = [] then None else Some (key, ticker, name_raw)))
      | _ \<Rightarrow> None)"

definition artifact_rows :: "(json \<Rightarrow> ustring) \<Rightarrow> dir_entry \<Rightarrow> (ustring \<times> ustring \<times> ustring) list" where
  "artifact_rows repr p =
     (case snd p of
        Some (JDict d) \<Rightarrow>
          (case dict_get d (ustr ''items'') of
             JList rows \<Rightarrow>
               if artifact_ticker repr (fst p) d = [] then []
               else List.map_filter (row_of repr (artifact_ticker repr (fst p) d)) rows
           | _ \<Rightarrow> [])
      | _ \<Rightarrow> [])"

definition seen_rows :: "(json \<Rightarrow> ustring) \<Rightarrow> dir_entry list \<Rightarrow> (ustring \<times> ustring \<times> ustring) list" where
  "seen_rows repr out_dir = concat (map (artifact_rows repr) (glob_acionistas out_dir))"

text \<open>The two updates, for one such row.\<close>

definition add_triple ::
  "ustring \<times> ustring \<times> ustring \<Rightarrow> accionistas_map \<times> display_name_counts
     \<Rightarrow> accionistas_map \<times> display_name_counts" where
  "add_triple r st =
     (add_ticker (fst r) (fst (snd r)) (fst st), count_name (fst r) (snd (snd r)) (snd st))"

text \<open>An artifact that could not be read or parsed, or whose payload is a \<open>dict\<close>.\<close>

definition is_dict_payload :: "dir_entry \<Rightarrow> bool" where
  "is_dict_payload p = (case snd p of None \<Rightarrow> True | Some (JDict d) \<Rightarrow> True | Some _ \<Rightarrow> False)"







section \<open>The grouper (main.py, scrap.py)\<close>

text \<open>
  The part of \<open>main\<close> after \<open>items = run(config)\<close>. It is the same in both files,
  except that \<open>scrap.py\<close> can write Markdown instead of JSON and ends with the shark
  resolver. A record is a \<open>dict\<close> built by a scraper.
\<close>

type_synonym pyrecord = "(ustring \<times> json) list"

text \<open>
  The key of a record: \<open>str(item.get("ticker") or "").strip().upper() or "UNKNOWN"\<close>
  and \<open>str(item.get("source") or "data").strip().lower() or "data"\<close>.
\<close>

definition record_key :: "(json \<Rightarrow> ustring) \<Rightarrow> pyrecord \<Rightarrow> ustring \<times> ustring" where
  "record_key repr item =
     (let ticker = py_upper (py_strip (py_str repr (py_or (dict_get item (ustr ''ticker'')) (JStr []))));
          ticker = (if ticker = [] then ustr ''UNKNOWN'' else ticker);
          source = py_lower (py_strip (py_str repr
                     (py_or (dict_get item (ustr ''source'')) (JStr (ustr ''data'')))));
          source = (if source = [] then ustr ''data'' else source)
      in (ticker, source))"

text \<open>\<open>by_key.setdefault((ticker, source), []).append(item)\<close>, and the first loop.\<close>

definition add_item ::
  "(json \<Rightarrow> ustring) \<Rightarrow> pyrecord \<Rightarrow> ((ustring \<times> ustring) \<times> pyrecord list) list
     \<Rightarrow> ((ustring \<times> ustring) \<times> pyrecord list) list" where
  "add_item repr item by_key =
     AList.update (record_key repr item)
       ((case map_of by_key (record_key repr item) of None \<Rightarrow> [] | Some xs \<Rightarrow> xs) @ [item])
       by_key"

definition by_key :: "(json \<Rightarrow> ustring) \<Rightarrow> pyrecord list \<Rightarrow> ((ustring \<times> ustring) \<times> pyrecord list) list" where
  "by_key repr recs = fold (add_item repr) recs []"

text \<open>
  The payload of a bucket in the two wide maps: the record itself when
  \<open>len(ticker_items) == 1\<close>, otherwise \<open>{"items": ticker_items}\<close>.
\<close>

definition wide_payload :: "pyrecord list \<Rightarrow> json" where
  "wide_payload ticker_items =
     (case ticker_items of
        [x] \<Rightarrow> JDict x
      | _ \<Rightarrow> JDict [(ustr ''items'', JList (map JDict ticker_items))])"

text \<open>The payload of any other bucket.\<close>

definition ticker_payload :: "ustring \<Rightarrow> ustring \<Rightarrow> ustring \<Rightarrow> pyrecord list \<Rightarrow> json" where
  "ticker_payload generated_at ticker source ticker_items =
     JDict [(ustr ''generated_at'', JStr generated_at),
            (ustr ''ticker'', JStr ticker),
            (ustr ''source'', JStr source),
            (ustr ''items'', JList (map JDict ticker_items))]"

text \<open>
  \<open>output_format\<close>. \<open>scrap.py\<close> reads it from the configuration, as
  \<open>str(config.get("output_format") or "json").strip().lower()\<close>, and takes everything
  but \<open>md\<close> for \<open>json\<close>; \<open>main.py\<close> has no such setting and writes JSON.
\<close>

datatype output_format = Json | Md

definition output_format_of :: "(json \<Rightarrow> ustring) \<Rightarrow> json \<Rightarrow> output_format" where
  "output_format_of repr v =
     (if py_lower (py_strip (py_str repr (py_or v (JStr (ustr ''json''))))) = ustr ''md''
      then Md else Json)"

text \<open>
  The text of a file. The two serialisers are not unfolded: a text is kept as the
  payload it was made from together with the function that made it,
  \<open>json.dumps(payload, ensure_ascii=False, indent=2)\<close> or \<open>_to_markdown(payload)\<close>. A
  file that was in the output directory before the run has some other text, kept as
  what \<open>json.loads\<close> makes of it, \<open>None\<close> when it raises.
\<close>

datatype file_text = Json_text json | Markdown_text json | Other_text "json option"

definition render :: "output_format \<Rightarrow> json \<Rightarrow> file_text" where
  "render output_format payload =
     (case output_format of Md \<Rightarrow> Markdown_text payload | Json \<Rightarrow> Json_text payload)"

text \<open>
  The path of a bucket's file below the output directory,
  \<open>f"{ticker.lower()}.{source}.md"\<close> or \<open>f"{ticker.lower()}.{source}.json"\<close>, and the
  path of a wide file, such as \<open>volume.md\<close> or \<open>volume.json\<close>.
\<close>

definition ticker_path :: "output_format \<Rightarrow> ustring \<Rightarrow> ustring \<Rightarrow> ustring" where
  "ticker_path output_format ticker source =
     py_lower ticker @ ustr ''.'' @ source @
       (case output_format of Md \<Rightarrow> ustr ''.md'' | Json \<Rightarrow> ustr ''.json'')"

definition wide_path :: "output_format \<Rightarrow> ustring \<Rightarrow> ustring" where
  "wide_path output_format name =
     name @ (case output_format of Md \<Rightarrow> ustr ''.md'' | Json \<Rightarrow> ustr ''.json'')"

text \<open>
  The file system is not part of the program; it is a parameter with three parts.
  \<open>locate\<close> gives the file that \<open>out_dir / path\<close> denotes: a path is any string made
  from a scraped ticker, so it may hold slashes or dots, and two paths may denote one
  file. \<open>accepts\<close> says whether \<open>write_text\<close> returns, given the files of the directory
  at that moment, the path and the text: it raises for a path into a directory that
  does not exist, a name the system refuses, a text that cannot be encoded as UTF-8, a
  full disk. \<open>file_name\<close> gives the name of a file that lies in the output directory
  itself, which is what \<open>out_dir.glob\<close> lists.
\<close>

record 'f file_system =
  locate :: "ustring \<Rightarrow> 'f"
  accepts :: "('f \<times> file_text) list \<Rightarrow> ustring \<Rightarrow> file_text \<Rightarrow> bool"
  file_name :: "'f \<Rightarrow> ustring option"

text \<open>
  \<open>(out_dir / path).write_text(data, encoding="utf-8")\<close>: the file has the new text
  afterwards, whatever it held before, or the call raises. No call of \<open>write_text\<close> in
  \<open>main\<close> is inside a \<open>try\<close>, so an exception ends the run; what the directory holds
  then is not modelled.
\<close>

definition write_text ::
  "'f file_system \<Rightarrow> ustring \<Rightarrow> file_text \<Rightarrow> ('f \<times> file_text) list
     \<Rightarrow> error + ('f \<times> file_text) list" where
  "write_text fs path data dir =
     (if accepts fs dir path data then Inr (AList.update (locate fs path) data dir)
      else Inl WriteError)"

text \<open>
  The state of the second loop: the two wide maps and the files of the output
  directory.
\<close>

record 'f grouped =
  volume_map :: "(ustring \<times> json) list"
  magic_formula_map :: "(ustring \<times> json) list"
  files :: "('f \<times> file_text) list"

text \<open>The body of \<open>for (ticker, source), ticker_items in sorted(by_key.items())\<close>.\<close>

definition group_step ::
  "'f file_system \<Rightarrow> output_format \<Rightarrow> ustring \<Rightarrow> (ustring \<times> ustring) \<times> pyrecord list
     \<Rightarrow> 'f grouped \<Rightarrow> error + 'f grouped" where
  "group_step fs output_format generated_at b st =
     (let ticker = fst (fst b); source = snd (fst b); ticker_items = snd b in
      if source = ustr ''volume'' then
        Inr (st\<lparr>volume_map := AList.update ticker (wide_payload ticker_items) (volume_map st)\<rparr>)
      else if source = ustr ''magic_formula'' then
        Inr (st\<lparr>magic_formula_map :=
               AList.update ticker (wide_payload ticker_items) (magic_formula_map st)\<rparr>)
      else
        (case write_text fs (ticker_path output_format ticker source)
                (render output_format (ticker_payload generated_at ticker source ticker_items))
                (files st) of
           Inl e \<Rightarrow> Inl e
         | Inr dir \<Rightarrow> Inr (st\<lparr>files := dir\<rparr>)))"

text \<open>The loop: the first call that raises ends it.\<close>

fun group_loop ::
  "'f file_system \<Rightarrow> output_format \<Rightarrow> ustring \<Rightarrow> ((ustring \<times> ustring) \<times> pyrecord list) list
     \<Rightarrow> 'f grouped \<Rightarrow> error + 'f grouped" where
  "group_loop fs output_format generated_at [] st = Inr st"
| "group_loop fs output_format generated_at (b # bs) st =
     (case group_step fs output_format generated_at b st of
        Inl e \<Rightarrow> Inl e
      | Inr st' \<Rightarrow> group_loop fs output_format generated_at bs st')"

text \<open>
  \<open>if volume_map: ...\<close> and \<open>if magic_formula_map: ...\<close>: a wide map that is not
  empty is written to one file, under \<open>items\<close>; \<open>name\<close> is \<open>volume\<close> or
  \<open>magic_formula\<close>.
\<close>

definition wide_file_payload :: "ustring \<Rightarrow> ustring \<Rightarrow> (ustring \<times> json) list \<Rightarrow> json" where
  "wide_file_payload generated_at name wide_map =
     JDict [(ustr ''generated_at'', JStr generated_at),
            (ustr ''source'', JStr name),
            (ustr ''items'', JDict wide_map)]"

definition write_wide ::
  "'f file_system \<Rightarrow> output_format \<Rightarrow> ustring \<Rightarrow> ustring \<Rightarrow> (ustring \<times> json) list
     \<Rightarrow> ('f \<times> file_text) list \<Rightarrow> error + ('f \<times> file_text) list" where
  "write_wide fs output_format generated_at name wide_map dir =
     (if wide_map \<noteq> [] then
        write_text fs (wide_path output_format name)
          (render output_format (wide_file_payload generated_at name wide_map)) dir
      else Inr dir)"

text \<open>
  What both files do with the records \<open>recs\<close> that \<open>run(config)\<close> returned, in an
  output directory that holds the files \<open>dir\<close>: the first loop, the second loop over
  the sorted buckets, then the two wide files. The result is the directory afterwards,
  or the exception.
\<close>

definition grouper ::
  "'f file_system \<Rightarrow> output_format \<Rightarrow> (json \<Rightarrow> ustring) \<Rightarrow> ustring \<Rightarrow> pyrecord list
     \<Rightarrow> ('f \<times> file_text) list \<Rightarrow> error + ('f \<times> file_text) list" where
  "grouper fs output_format repr generated_at recs dir =
     (case group_loop fs output_format generated_at (sort_key fst (by_key repr recs))
             \<lparr>volume_map = [], magic_formula_map = [], files = dir\<rparr> of
        Inl e \<Rightarrow> Inl e
      | Inr st \<Rightarrow>
          (case write_wide fs output_format generated_at (ustr ''volume'')
                  (volume_map st) (files st) of
             Inl e \<Rightarrow> Inl e
           | Inr dir' \<Rightarrow>
               write_wide fs output_format generated_at (ustr ''magic_formula'')
                 (magic_formula_map st) dir'))"


text \<open>
  \<open>main\<close> of \<open>scrap.py\<close> goes on with \<open>build_sharks(out_dir)\<close>, which lists the
  directory and parses the files it finds: a text made by \<open>json.dumps\<close> parses to its
  payload, a text made by \<open>_to_markdown\<close> starts with \<open>#\<close> and does not parse. The
  sharks, if any, are written to \<open>sharks.json\<close>, as JSON whatever the output format.
\<close>

definition read_json :: "file_text \<Rightarrow> json option" where
  "read_json data =
     (case data of Json_text payload \<Rightarrow> Some payload | Markdown_text payload \<Rightarrow> None
      | Other_text r \<Rightarrow> r)"

definition dir_entries :: "'f file_system \<Rightarrow> ('f \<times> file_text) list \<Rightarrow> dir_entry list" where
  "dir_entries fs dir =
     List.map_filter
       (\<lambda>e. case file_name fs (fst e) of None \<Rightarrow> None | Some name \<Rightarrow> Some (name, read_json (snd e)))
       dir"

definition shark_json :: "shark \<Rightarrow> json" where
  "shark_json x =
     JDict [(ustr ''shark_name'', JStr (shark_name x)),
            (ustr ''quantity'', JNum (int (quantity x))),
            (ustr ''items'', JList (map JStr (items x)))]"

definition scrap_main ::
  "'f file_system \<Rightarrow> output_format \<Rightarrow> (json \<Rightarrow> ustring) \<Rightarrow> ustring \<Rightarrow> pyrecord list
     \<Rightarrow> ('f \<times> file_text) list \<Rightarrow> error + ('f \<times> file_text) list" where
  "scrap_main fs output_format repr generated_at recs dir =
     (case grouper fs output_format repr generated_at recs dir of
        Inl e \<Rightarrow> Inl e
      | Inr dir' \<Rightarrow>
          (case build_sharks repr (dir_entries fs dir') of
             Inl e \<Rightarrow> Inl e
           | Inr sharks \<Rightarrow>
               if sharks \<noteq> [] then
                 write_text fs (ustr ''sharks.json'') (Json_text (JList (map shark_json sharks))) dir'
               else Inr dir'))"

text \<open>What \<open>by_key\<close> holds after the records \<open>recs\<close>.\<close>

definition by_key_ok ::
  "(json \<Rightarrow> ustring) \<Rightarrow> pyrecord list \<Rightarrow> ((ustring \<times> ustring) \<times> pyrecord list) list \<Rightarrow> bool" where
  "by_key_ok repr recs g \<longleftrightarrow>
     distinct (map fst g) \<and> fst ` set g = record_key repr ` set recs \<and>
     (\<forall>k xs. map_of g k = Some xs \<longrightarrow> xs = filter (\<lambda>r. record_key repr r = k) recs)"

text \<open>
  The buckets that go to a file of their own, those of the two wide maps, and the
  paths that a run writes, in the order of the calls.
\<close>

definition is_wide :: "ustring \<Rightarrow> bool" where
  "is_wide source \<longleftrightarrow> source = ustr ''volume'' \<or> source = ustr ''magic_formula''"

definition ticker_buckets ::
  "(json \<Rightarrow> ustring) \<Rightarrow> pyrecord list \<Rightarrow> ((ustring \<times> ustring) \<times> pyrecord list) list" where
  "ticker_buckets repr recs =
     filter (\<lambda>b. \<not> is_wide (snd (fst b))) (sort_key fst (by_key repr recs))"

definition wide_buckets ::
  "(json \<Rightarrow> ustring) \<Rightarrow> ustring \<Rightarrow> pyrecord list \<Rightarrow> ((ustring \<times> ustring) \<times> pyrecord list) list" where
  "wide_buckets repr name recs =
     filter (\<lambda>b. snd (fst b) = name) (sort_key fst (by_key repr recs))"

definition output_paths :: "output_format \<Rightarrow> (json \<Rightarrow> ustring) \<Rightarrow> pyrecord list \<Rightarrow> ustring list" where
  "output_paths output_format repr recs =
     map (\<lambda>b. ticker_path output_format (fst (fst b)) (snd (fst b))) (ticker_buckets repr recs) @
     (if wide_buckets repr (ustr ''volume'') recs \<noteq> [] then [wide_path output_format (ustr ''volume'')]
      else []) @
     (if wide_buckets repr (ustr ''magic_formula'') recs \<noteq> []
      then [wide_path output_format (ustr ''magic_formula'')] else [])"

text \<open>
  What a run that returns has written: the file of a bucket, the wide map of the
  source \<open>name\<close> at the end of the second loop, and the file of a wide map.
\<close>

definition bucket_file ::
  "'f file_system \<Rightarrow> output_format \<Rightarrow> ustring \<Rightarrow> (ustring \<times> ustring) \<times> pyrecord list
     \<Rightarrow> 'f \<times> file_text" where
  "bucket_file fs output_format generated_at b =
     (locate fs (ticker_path output_format (fst (fst b)) (snd (fst b))),
      render output_format (ticker_payload generated_at (fst (fst b)) (snd (fst b)) (snd b)))"

definition wide_map_after :: "(json \<Rightarrow> ustring) \<Rightarrow> ustring \<Rightarrow> pyrecord list \<Rightarrow> (ustring \<times> json) list" where
  "wide_map_after repr name recs =
     map (\<lambda>b. (fst (fst b), wide_payload (snd b))) (wide_buckets repr name recs)"

definition wide_file ::
  "'f file_system \<Rightarrow> output_format \<Rightarrow> ustring \<Rightarrow> ustring \<Rightarrow> (ustring \<times> json) list
     \<Rightarrow> ('f \<times> file_text) list" where
  "wide_file fs output_format generated_at name wide_map =
     (if wide_map \<noteq> [] then
        [(locate fs (wide_path output_format name),
          render output_format (wide_file_payload generated_at name wide_map))]
      else [])"

text \<open>The path of the output that the bucket of the key \<open>k\<close> goes to.\<close>

definition output_path :: "output_format \<Rightarrow> ustring \<times> ustring \<Rightarrow> ustring" where
  "output_path output_format k =
     (if is_wide (snd k) then wide_path output_format (snd k)
      else ticker_path output_format (fst k) (snd k))"

text \<open>
  Reading the records back from what was written. The payload of a text; the
  records in a list of values; the records of an entry of a wide map, which is the
  wrapper \<open>{"items": [...]}\<close> or one record; the records of a file, which has under
  \<open>items\<close> either the list of a bucket or a wide map; and the records of the file
  \<open>f\<close> of a directory.
\<close>

definition payload_of :: "file_text \<Rightarrow> json" where
  "payload_of data =
     (case data of Json_text payload \<Rightarrow> payload | Markdown_text payload \<Rightarrow> payload
      | Other_text r \<Rightarrow> (case r of None \<Rightarrow> JNull | Some payload \<Rightarrow> payload))"

definition dicts :: "json list \<Rightarrow> pyrecord list" where
  "dicts ys = List.map_filter (\<lambda>y. case y of JDict d \<Rightarrow> Some d | _ \<Rightarrow> None) ys"

definition entry_records :: "json \<Rightarrow> pyrecord list" where
  "entry_records e =
     (case e of
        JDict d \<Rightarrow>
          (if map fst d = [ustr ''items''] then
             (case snd (hd d) of JList ys \<Rightarrow> dicts ys | _ \<Rightarrow> [d])
           else [d])
      | _ \<Rightarrow> [])"

definition file_records :: "file_text \<Rightarrow> pyrecord list" where
  "file_records data =
     (case payload_of data of
        JDict d \<Rightarrow>
          (case dict_get d (ustr ''items'') of
             JList ys \<Rightarrow> dicts ys
           | JDict m \<Rightarrow> concat (map (\<lambda>e. entry_records (snd e)) m)
           | _ \<Rightarrow> [])
      | _ \<Rightarrow> [])"

definition records_at :: "('f \<times> file_text) list \<Rightarrow> 'f \<Rightarrow> pyrecord list" where
  "records_at dir f = (case map_of dir f of None \<Rightarrow> [] | Some data \<Rightarrow> file_records data)"


section \<open>What the specification says of the resolver's output\<close>




text \<open>
  The order of the final list: more tickers first, and the smaller name first among
  sharks with as many tickers.
\<close>

definition ranked_before :: "shark \<Rightarrow> shark \<Rightarrow> bool" where
  "ranked_before a b \<longleftrightarrow>
     quantity a > quantity b \<or> (quantity a = quantity b \<and> shark_name a \<le> shark_name b)"

text \<open>
  The ASCII letters and digits, and the four letters beyond them that \<open>[a-z0-9]\<close>
  matches under \<open>re.IGNORECASE\<close>.
\<close>

definition is_ascii_alnum :: "nat \<Rightarrow> bool" where
  "is_ascii_alnum c \<longleftrightarrow> (48 \<le> c \<and> c \<le> 57) \<or> (65 \<le> c \<and> c \<le> 90) \<or> (97 \<le> c \<and> c \<le> 122)"

definition is_ic_extra :: "nat \<Rightarrow> bool" where
  "is_ic_extra c \<longleftrightarrow> c = 304 \<or> c = 305 \<or> c = 383 \<or> c = 8490"

section \<open>Examples\<close>

text \<open>
  A stand-in for \<open>repr\<close> in the examples below: all their fields are \<open>str\<close> or
  missing, so \<open>repr\<close> is never applied there.
\<close>

definition no_repr :: "json \<Rightarrow> ustring" where
  "no_repr v = []"

text \<open>
  The shareholder rows \<open>ACME Corp\<close> and \<open>ACME\<close> of ticker \<open>A\<close>, \<open>ACME CORP\<close> of
  ticker \<open>B\<close> and \<open>Beta Ltd\<close> of ticker \<open>C\<close>, as the three artifacts that hold them.
\<close>

definition acme_dir :: "dir_entry list" where
  "acme_dir =
    [(ustr ''a.acionistas.json'', Some (JDict [(ustr ''ticker'', JStr (ustr ''A'')),
        (ustr ''items'', JList [JDict [(ustr ''acionista'', JStr (ustr ''ACME Corp''))],
                                JDict [(ustr ''acionista'', JStr (ustr ''ACME''))]])])),
     (ustr ''b.acionistas.json'', Some (JDict [(ustr ''ticker'', JStr (ustr ''B'')),
        (ustr ''items'', JList [JDict [(ustr ''acionista'', JStr (ustr ''ACME CORP''))]])])),
     (ustr ''c.acionistas.json'', Some (JDict [(ustr ''ticker'', JStr (ustr ''C'')),
        (ustr ''items'', JList [JDict [(ustr ''acionista'', JStr (ustr ''Beta Ltd''))]])]))]"


text \<open>One artifact with two shareholders, each of one ticker.\<close>

definition pair_dir :: "dir_entry list" where
  "pair_dir =
    [(ustr ''x.acionistas.json'', Some (JDict [(ustr ''ticker'', JStr (ustr ''X'')),
        (ustr ''items'', JList [JDict [(ustr ''acionista'', JStr (ustr ''Zeta''))],
                                JDict [(ustr ''acionista'', JStr (ustr ''Alpha''))]])]))]"

text \<open>
  An artifact with no \<open>ticker\<close> field whose file name is the letter U+017F before
  \<open>.acionistas.json\<close>.
\<close>

definition long_s_dir :: "dir_entry list" where
  "long_s_dir =
    [([383] @ ustr ''.acionistas.json'', Some (JDict
        [(ustr ''items'', JList [JDict [(ustr ''acionista'', JStr (ustr ''Beta Ltd''))]])]))]"

text \<open>
  The three artifacts above and a fourth one that \<open>json.loads\<close> reads as the empty
  list \<open>[]\<close>.
\<close>

definition bad_payload_dir :: "dir_entry list" where
  "bad_payload_dir = acme_dir @ [(ustr ''x.acionistas.json'', Some (JList []))]"


text \<open>
  Two file systems for the examples. In both every path is a file of its own, and a
  file lies in the output directory itself when its path has no slash. \<open>plain_fs\<close>
  accepts every write. \<open>flat_fs\<close> is an output directory without subdirectories:
  \<open>write_text\<close> raises for a path with a slash, which leads to a directory that does
  not exist, and for a path with a null character.
\<close>

definition plain_fs :: "ustring file_system" where
  "plain_fs =
     \<lparr>locate = (\<lambda>path. path), accepts = (\<lambda>dir path data. True),
      file_name = (\<lambda>f. if 47 \<in> set f then None else Some f)\<rparr>"

definition flat_fs :: "ustring file_system" where
  "flat_fs =
     \<lparr>locate = (\<lambda>path. path), accepts = (\<lambda>dir path data. 47 \<notin> set path \<and> 0 \<notin> set path),
      file_name = (\<lambda>f. if 47 \<in> set f then None else Some f)\<rparr>"

text \<open>
  Records for the grouper, each with the fields \<open>source\<close> and \<open>ticker\<close> and one more
  for the two wide sources.
\<close>

definition source_rec :: "string \<Rightarrow> string \<Rightarrow> pyrecord" where
  "source_rec s t = [(ustr ''source'', JStr (ustr s)), (ustr ''ticker'', JStr (ustr t))]"

definition insider_rec :: pyrecord where
  "insider_rec = source_rec ''insiders'' ''PETR4''"

definition volume_rec :: "string \<Rightarrow> int \<Rightarrow> pyrecord" where
  "volume_rec t n = source_rec ''volume'' t @ [(ustr ''volume'', JNum n)]"

definition magic_rec :: "string \<Rightarrow> int \<Rightarrow> pyrecord" where
  "magic_rec t n = source_rec ''magic_formula'' t @ [(ustr ''rank'', JNum n)]"

text \<open>
  Three \<open>volume\<close> records of one ticker and a single one of another, an \<open>insiders\<close>
  record, a \<open>magic_formula\<close> record and a record with no fields.
\<close>

definition shapes_recs :: "pyrecord list" where
  "shapes_recs =
     [volume_rec ''VALE3'' 1, insider_rec, volume_rec ''PETR4'' 7, volume_rec ''VALE3'' 2,
      [], magic_rec ''VALE3'' 4, volume_rec ''VALE3'' 3]"

text \<open>
  Two records whose buckets differ and have one file name, \<open>a.b.c.json\<close>; and a
  record whose ticker has a slash, followed by a \<open>volume\<close> record.
\<close>

definition clash_recs :: "pyrecord list" where
  "clash_recs = [source_rec ''c'' ''A.B'', source_rec ''b.c'' ''A'']"



text \<open>
  The output directory after a run on \<open>shapes_recs\<close> at the time \<open>T0\<close>, with JSON
  as the format, in an empty directory of \<open>plain_fs\<close>.
\<close>

definition shapes_dir :: "(ustring \<times> file_text) list" where
  "shapes_dir =
     [(ustr ''petr4.insiders.json'',
       Json_text (JDict [(ustr ''generated_at'', JStr (ustr ''T0'')),
                         (ustr ''ticker'', JStr (ustr ''PETR4'')),
                         (ustr ''source'', JStr (ustr ''insiders'')),
                         (ustr ''items'', JList [JDict insider_rec])])),
      (ustr ''unknown.data.json'',
       Json_text (JDict [(ustr ''generated_at'', JStr (ustr ''T0'')),
                         (ustr ''ticker'', JStr (ustr ''UNKNOWN'')),
                         (ustr ''source'', JStr (ustr ''data'')),
                         (ustr ''items'', JList [JDict []])])),
      (ustr ''volume.json'',
       Json_text (JDict [(ustr ''generated_at'', JStr (ustr ''T0'')),
                         (ustr ''source'', JStr (ustr ''volume'')),
                         (ustr ''items'', JDict
                            [(ustr ''PETR4'', JDict (volume_rec ''PETR4'' 7)),
                             (ustr ''VALE3'', JDict [(ustr ''items'',
                                JList [JDict (volume_rec ''VALE3'' 1), JDict (volume_rec ''VALE3'' 2),
                                       JDict (volume_rec ''VALE3'' 3)])])])])),
      (ustr ''magic_formula.json'',
       Json_text (JDict [(ustr ''generated_at'', JStr (ustr ''T0'')),
                         (ustr ''source'', JStr (ustr ''magic_formula'')),
                         (ustr ''items'', JDict
                            [(ustr ''VALE3'', JDict (magic_rec ''VALE3'' 4))])]))]"


section \<open>Properties of the canonicalizer\<close>

lemma az09_not_space: "is_az09 c \<Longrightarrow> \<not> py_isspace c"
  by (auto simp: is_az09_def py_isspace_def)

lemma az09_not_32: "is_az09 c \<Longrightarrow> c \<noteq> 32"
  by (auto simp: is_az09_def)

lemma space_32: "py_isspace 32"
  by (simp add: py_isspace_def)

lemma py_lower_cp_fix: "is_az09 c \<or> c = 32 \<Longrightarrow> py_lower_cp c = [c]"
  by (auto simp: is_az09_def py_lower_cp_def)

lemma lower_from_fix: "\<forall>c\<in>set s. is_az09 c \<or> c = 32 \<Longrightarrow> lower_from pre s = s"
proof (induction s arbitrary: pre)
  case Nil
  show ?case by simp
next
  case (Cons c s)
  then have c: "is_az09 c \<or> c = 32" by simp
  then have "c \<noteq> 931" by (auto simp: is_az09_def)
  then show ?case using c Cons by (simp add: py_lower_cp_fix)
qed

lemma py_lower_fix: "\<forall>c\<in>set s. is_az09 c \<or> c = 32 \<Longrightarrow> py_lower s = s"
  by (simp add: py_lower_def lower_from_fix)

lemma py_split_not_Nil: "py_split sep s \<noteq> []"
  by (induction s) (auto split: list.splits)

lemma py_split_word: "sep \<notin> set w \<Longrightarrow> py_split sep w = [w]"
  by (induction w) auto

lemma py_split_append:
  "sep \<notin> set w \<Longrightarrow> py_split sep (w @ sep # rest) = w # py_split sep rest"
  by (induction w) auto

lemma py_split_pieces: "t \<in> set (py_split sep s) \<Longrightarrow> set t \<subseteq> set s - {sep}"
proof (induction s arbitrary: t)
  case Nil
  then show ?case by simp
next
  case (Cons c cs)
  show ?case
  proof (cases "c = sep")
    case True
    with Cons show ?thesis by auto
  next
    case False
    obtain w ws where sp: "py_split sep cs = w # ws"
      using py_split_not_Nil [of sep cs] by (cases "py_split sep cs") auto
    from Cons.prems False sp have "t = c # w \<or> t \<in> set ws" by auto
    then show ?thesis
    proof
      assume "t = c # w"
      moreover have "set w \<subseteq> set cs - {sep}" using Cons.IH [of w] sp by simp
      ultimately show ?thesis using False by auto
    next
      assume "t \<in> set ws"
      then have "set t \<subseteq> set cs - {sep}" using Cons.IH [of t] sp by simp
      then show ?thesis by auto
    qed
  qed
qed

lemma py_split_hd: "s \<noteq> [] \<Longrightarrow> hd s \<noteq> sep \<Longrightarrow> hd (py_split sep s) \<noteq> []"
  by (cases s) (auto split: list.splits)

lemma re_sub_runs_set: "set (re_sub_runs cls s) \<subseteq> {c \<in> set s. \<not> cls c} \<union> {32}"
proof (induction cls s rule: re_sub_runs.induct)
  case (1 cls)
  then show ?case by simp
next
  case (2 cls c cs)
  show ?case
  proof (cases "cls c")
    case True
    have "set (dropWhile cls cs) \<subseteq> set cs" by (rule set_dropWhileD [THEN subsetI])
    with 2 True show ?thesis by auto
  next
    case False
    with 2 show ?thesis by auto
  qed
qed

lemma re_sub_runs_append:
  "\<forall>c\<in>set w. \<not> cls c \<Longrightarrow> re_sub_runs cls (w @ s) = w @ re_sub_runs cls s"
  by (induction w) auto

lemma re_sub_runs_word: "\<forall>c\<in>set w. \<not> cls c \<Longrightarrow> re_sub_runs cls w = w"
  using re_sub_runs_append [of w cls "[]"] by simp

lemma py_join_hd: "ws \<noteq> [] \<Longrightarrow> \<forall>w\<in>set ws. w \<noteq> [] \<Longrightarrow> py_join sep ws \<noteq> [] \<and> hd (py_join sep ws) = hd (hd ws)"
  by (induction sep ws rule: py_join.induct) auto

lemma py_join_last: "ws \<noteq> [] \<Longrightarrow> \<forall>w\<in>set ws. w \<noteq> [] \<Longrightarrow> last (py_join [s] ws) = last (last ws)"
proof (induction "[s]" ws rule: py_join.induct)
  case 1 then show ?case by simp
next
  case (2 w) then show ?case by simp
next
  case (3 w v ws)
  then have "py_join [s] (v # ws) \<noteq> []" using py_join_hd [of "v # ws" "[s]"] by simp
  with 3 show ?case by simp
qed

lemma py_join_set: "set (py_join [s] ws) \<subseteq> \<Union> (set ` set ws) \<union> {s}"
  by (induction "[s]" ws rule: py_join.induct) auto

lemma re_sub_runs_join:
  assumes "cls 32" "\<forall>w\<in>set ws. w \<noteq> [] \<and> (\<forall>c\<in>set w. \<not> cls c)"
  shows "re_sub_runs cls (py_join [32] ws) = py_join [32] ws"
  using assms(2)
proof (induction "[32::nat]" ws rule: py_join.induct)
  case 1 then show ?case by simp
next
  case (2 w) then show ?case by (simp add: re_sub_runs_word)
next
  case (3 w v ws)
  let ?r = "py_join [32] (v # ws)"
  have ne: "?r \<noteq> []" and h: "hd ?r = hd (hd (v # ws))"
    using py_join_hd [of "v # ws" "[32]"] 3 by auto
  have "\<not> cls (hd ?r)" using h 3 by (cases v) auto
  then have dw: "dropWhile cls ?r = ?r" using ne by (cases ?r) auto
  have "re_sub_runs cls (w @ 32 # ?r) = w @ re_sub_runs cls (32 # ?r)"
    using 3 by (simp add: re_sub_runs_append)
  also have "\<dots> = w @ 32 # re_sub_runs cls ?r" using assms(1) dw by simp
  also have "\<dots> = w @ 32 # ?r" using 3 by simp
  finally show ?case by simp
qed

lemma py_split_join:
  "ws \<noteq> [] \<Longrightarrow> \<forall>w\<in>set ws. s \<notin> set w \<Longrightarrow> py_split s (py_join [s] ws) = ws"
proof (induction "[s]" ws rule: py_join.induct)
  case 1 then show ?case by simp
next
  case (2 w) then show ?case by (simp add: py_split_word)
next
  case (3 w v ws)
  then show ?case by (simp add: py_split_append)
qed

lemma strip_keep:
  assumes "s \<noteq> []" "\<not> P (hd s)" "\<not> P (last s)"
  shows "rev (dropWhile P (rev (dropWhile P s))) = s"
proof -
  have a: "dropWhile P s = s" using assms by (cases s) auto
  have r: "rev s = last s # rev (butlast s)"
    using assms(1) by (induction s rule: rev_induct) auto
  have "dropWhile P (last s # rev (butlast s)) = last s # rev (butlast s)"
    using assms(3) by simp
  then have "dropWhile P (rev s) = rev s" by (simp only: r)
  with a show ?thesis by simp
qed

lemma strip_hd:
  assumes "rev (dropWhile P (rev (dropWhile P s))) \<noteq> []"
  shows "\<not> P (hd (rev (dropWhile P (rev (dropWhile P s)))))"
proof -
  let ?y = "dropWhile P s"
  have "?y = [] \<Longrightarrow> rev (dropWhile P (rev ?y)) = []"
    by (simp only: rev.simps dropWhile.simps)
  with assms have yne: "?y \<noteq> []" by blast
  then have nP: "\<not> P (hd ?y)" by (rule hd_dropWhile)
  obtain a z where y: "?y = a # z" using yne by (cases ?y) auto
  have "dropWhile P (rev z @ [a]) = dropWhile P (rev z) @ [a]"
    using nP y by (auto simp: dropWhile_append)
  then have "rev (dropWhile P (rev ?y)) = a # rev (dropWhile P (rev z))"
    using y by simp
  then show ?thesis using nP y by simp
qed

lemma strip_set: "set (py_strip s) \<subseteq> set s"
proof -
  have "set (dropWhile py_isspace (rev (dropWhile py_isspace s))) \<subseteq> set (rev (dropWhile py_isspace s))"
    by (rule set_dropWhileD [THEN subsetI])
  moreover have "set (dropWhile py_isspace s) \<subseteq> set s"
    by (rule set_dropWhileD [THEN subsetI])
  ultimately show ?thesis by (auto simp: py_strip_def)
qed


lemma normalize_join:
  assumes ne: "ws \<noteq> []" and words: "\<forall>w\<in>set ws. az_word w"
  shows "normalize_shark_name (py_join [32] ws) =
           (if filter (\<lambda>t. t \<notin> set SUFFIX_STOPWORDS) ws = [] then Inr (hd ws)
            else Inr (py_join [32] (filter (\<lambda>t. t \<notin> set SUFFIX_STOPWORDS) ws)))"
proof -
  let ?k = "py_join [32] ws"
  have wne: "\<forall>w\<in>set ws. w \<noteq> []" using words by (simp add: az_word_def)
  have kne: "?k \<noteq> []" and khd: "hd ?k = hd (hd ws)"
    using py_join_hd [OF ne wne, of "[32]"] by simp_all
  have klast: "last ?k = last (last ws)" using py_join_last [OF ne wne] .
  have "hd ws \<in> set ws" "last ws \<in> set ws" using ne by simp_all
  then have "az_word (hd ws)" "az_word (last ws)" using words by blast+
  then have "is_az09 (hd (hd ws))" "is_az09 (last (last ws))"
    by (simp_all add: az_word_def)
  then have ends: "\<not> py_isspace (hd ?k)" "\<not> py_isspace (last ?k)"
    using khd klast by (simp_all add: az09_not_space)
  have chars: "\<forall>c\<in>set ?k. is_az09 c \<or> c = 32"
    using py_join_set [of 32 ws] words by (auto simp: az_word_def)
  have strip: "py_strip ?k = ?k"
    unfolding py_strip_def using strip_keep [OF kne ends] .
  have lower: "py_lower ?k = ?k" using chars by (rule py_lower_fix)
  have quotes: "filter (\<lambda>c. \<not> is_quote_like c) ?k = ?k"
    using chars by (auto simp: filter_id_conv is_quote_like_def is_az09_def)
  have runs1: "re_sub_runs (\<lambda>c. \<not> is_az09 c) ?k = ?k"
    using words by (intro re_sub_runs_join) (auto simp: az_word_def is_az09_def)
  have runs2: "re_sub_runs py_isspace ?k = ?k"
    using words by (intro re_sub_runs_join) (auto simp: az_word_def space_32 az09_not_space)
  have "\<forall>w\<in>set ws. 32 \<notin> set w"
    using words az09_not_32 unfolding az_word_def by blast
  then have split: "py_split 32 ?k = ws" using ne by (simp add: py_split_join)
  have toks: "filter (\<lambda>t. t \<noteq> []) ws = ws" using wne by (simp add: filter_id_conv)
  obtain t ts where ws: "ws = t # ts" using ne by (cases ws) auto
  show ?thesis
    unfolding normalize_shark_name_def Let_def strip lower quotes runs1 runs2 split toks
    using kne ws by simp
qed

lemma normalize_shape:
  "normalize_shark_name x = Inr [] \<or>
   (\<exists>ws. ws \<noteq> [] \<and> (\<forall>w\<in>set ws. az_word w) \<and>
      (if filter (\<lambda>t. t \<notin> set SUFFIX_STOPWORDS) ws = []
       then normalize_shark_name x = Inr (hd ws)
       else normalize_shark_name x =
              Inr (py_join [32] (filter (\<lambda>t. t \<notin> set SUFFIX_STOPWORDS) ws))))"
proof -
  define s0 where "s0 = py_lower (py_strip x)"
  define s3 where "s3 = py_strip (re_sub_runs py_isspace
      (re_sub_runs (\<lambda>c. \<not> is_az09 c) (filter (\<lambda>c. \<not> is_quote_like c) s0)))"
  define tokens where "tokens = filter (\<lambda>t. t \<noteq> []) (py_split 32 s3)"
  have unf: "normalize_shark_name x =
      (if s0 = [] then Inr [] else if s3 = [] then Inr []
       else if filter (\<lambda>t. t \<notin> set SUFFIX_STOPWORDS) tokens = []
            then (case tokens of [] \<Rightarrow> Inl IndexError | t # _ \<Rightarrow> Inr t)
            else Inr (py_join [32] (filter (\<lambda>t. t \<notin> set SUFFIX_STOPWORDS) tokens)))"
    by (simp add: normalize_shark_name_def Let_def s0_def s3_def tokens_def)
  show ?thesis
  proof (cases "s0 = [] \<or> s3 = []")
    case True
    then show ?thesis using unf by auto
  next
    case False
    then have s3ne: "s3 \<noteq> []" by simp
    have chars: "\<forall>c\<in>set s3. is_az09 c \<or> c = 32"
      unfolding s3_def
      using strip_set re_sub_runs_set [of py_isspace]
        re_sub_runs_set [of "\<lambda>c. \<not> is_az09 c"]
      by fastforce
    have "\<not> py_isspace (hd s3)"
      using s3ne strip_hd [of py_isspace] unfolding s3_def py_strip_def by blast
    then have "hd s3 \<noteq> 32" using space_32 by auto
    then have "hd (py_split 32 s3) \<noteq> []" using s3ne by (rule py_split_hd [rotated])
    moreover have "hd (py_split 32 s3) \<in> set (py_split 32 s3)"
      using py_split_not_Nil by simp
    ultimately have tne: "tokens \<noteq> []"
      unfolding tokens_def by (auto simp: filter_empty_conv)
    have twords: "\<forall>w\<in>set tokens. az_word w"
    proof
      fix w assume "w \<in> set tokens"
      then have "w \<noteq> []" "w \<in> set (py_split 32 s3)" by (simp_all add: tokens_def)
      then have "set w \<subseteq> set s3 - {32}" using py_split_pieces by blast
      with chars \<open>w \<noteq> []\<close> show "az_word w" by (auto simp: az_word_def)
    qed
    obtain t ts where tk: "tokens = t # ts" using tne by (cases tokens) auto
    have "normalize_shark_name x =
      (if filter (\<lambda>t. t \<notin> set SUFFIX_STOPWORDS) tokens = [] then Inr (hd tokens)
       else Inr (py_join [32] (filter (\<lambda>t. t \<notin> set SUFFIX_STOPWORDS) tokens)))"
      using unf False tk by simp
    then show ?thesis using tne twords by (intro disjI2 exI [of _ tokens]) auto
  qed
qed

lemma normalize_shark_name_total: "\<exists>k. normalize_shark_name x = Inr k"
  using normalize_shape [of x] by (auto split: if_splits)

lemmas normalize_eval =
  normalize_shark_name_def ustr_def py_lower_def py_lower_cp_def lower_segments_def py_strip_def
  py_isspace_def is_quote_like_def is_az09_def SUFFIX_STOPWORDS_def Let_def

text \<open>
  C8. Canonicalization is idempotent: for every input string the canonicalizer
  returns a key, and canonicalizing that key returns it unchanged; this covers the
  key that is a stopword, returned when every token of the name was one.
\<close>

theorem canonicalize_idempotent:
  "\<exists>k. normalize_shark_name x = Inr k \<and> normalize_shark_name k = Inr k"
proof -
  have empty: "normalize_shark_name [] = Inr []"
    by (simp add: normalize_shark_name_def py_strip_def py_lower_def)
  from normalize_shape [of x] show ?thesis
  proof
    assume "normalize_shark_name x = Inr []"
    then show ?thesis using empty by simp
  next
    assume "\<exists>ws. ws \<noteq> [] \<and> (\<forall>w\<in>set ws. az_word w) \<and>
      (if filter (\<lambda>t. t \<notin> set SUFFIX_STOPWORDS) ws = []
       then normalize_shark_name x = Inr (hd ws)
       else normalize_shark_name x =
              Inr (py_join [32] (filter (\<lambda>t. t \<notin> set SUFFIX_STOPWORDS) ws)))"
    then obtain ws where ne: "ws \<noteq> []" and words: "\<forall>w\<in>set ws. az_word w"
      and res: "if filter (\<lambda>t. t \<notin> set SUFFIX_STOPWORDS) ws = []
       then normalize_shark_name x = Inr (hd ws)
       else normalize_shark_name x =
              Inr (py_join [32] (filter (\<lambda>t. t \<notin> set SUFFIX_STOPWORDS) ws))"
      by blast
    let ?f = "filter (\<lambda>t. t \<notin> set SUFFIX_STOPWORDS) ws"
    show ?thesis
    proof (cases "?f = []")
      case True
      then have r: "normalize_shark_name x = Inr (hd ws)" using res by simp
      have w: "az_word (hd ws)" and stop: "hd ws \<in> set SUFFIX_STOPWORDS"
        using ne words True by (auto simp: filter_empty_conv)
      have "normalize_shark_name (py_join [32] [hd ws]) = Inr (hd ws)"
        using normalize_join [of "[hd ws]"] w stop by simp
      then show ?thesis using r by simp
    next
      case False
      then have r: "normalize_shark_name x = Inr (py_join [32] ?f)" using res by simp
      have "\<forall>w\<in>set ?f. az_word w" using words by simp
      moreover have "filter (\<lambda>t. t \<notin> set SUFFIX_STOPWORDS) ?f = ?f" by simp
      ultimately have "normalize_shark_name (py_join [32] ?f) = Inr (py_join [32] ?f)"
        using normalize_join [of ?f] False by simp
      then show ?thesis using r by simp
    qed
  qed
qed

theorem canonicalize_idempotent_witness:
  "normalize_shark_name (ustr ''Ltda'') = Inr (ustr ''ltda'') \<and>
   normalize_shark_name (ustr ''ltda'') = Inr (ustr ''ltda'')"
proof -
  have first: "normalize_shark_name (ustr ''Ltda'') = Inr (ustr ''ltda'')"
    by (simp add: normalize_eval)
  obtain k where "normalize_shark_name (ustr ''Ltda'') = Inr k"
    and "normalize_shark_name k = Inr k"
    using canonicalize_idempotent [of "ustr ''Ltda''"] by blast
  with first show ?thesis by simp
qed

text \<open>
  C2, as stated. The three names \<open>Banco Itau S/A\<close> (its \<open>u\<close> the accented letter U+00FA), \<open>BANCO ITAU SA\<close> and
  \<open>banco   itau, s.a.\<close> get three different keys: the accented letter and the
  punctuation inside \<open>S/A\<close> and \<open>s.a.\<close> separate tokens, and neither \<open>s\<close> nor \<open>a\<close> is
  a stopword.
\<close>

theorem canonicalize_fixtures_differ:
  "normalize_shark_name (ustr ''Banco Ita'' @ [250] @ ustr '' S/A'') = Inr (ustr ''banco ita s a'') \<and>
   normalize_shark_name (ustr ''BANCO ITAU SA'') = Inr (ustr ''banco itau'') \<and>
   normalize_shark_name (ustr ''banco   itau, s.a.'') = Inr (ustr ''banco itau s a'') \<and>
   normalize_shark_name (ustr ''BANCO ITAU SA'') \<noteq> normalize_shark_name (ustr ''banco   itau, s.a.'')"
  by (simp add: normalize_eval)

text \<open>
  C2, amended. Canonicalization ignores ASCII case, repeated white space and
  punctuation around the tokens: \<open>Banco Itau SA\<close>, \<open>BANCO ITAU SA\<close> and
  \<open>banco   itau, sa.\<close> all get the key \<open>banco itau\<close>.
\<close>

theorem canonicalize_ascii_fixtures_agree:
  "normalize_shark_name (ustr ''Banco Itau SA'') = Inr (ustr ''banco itau'') \<and>
   normalize_shark_name (ustr ''BANCO ITAU SA'') = Inr (ustr ''banco itau'') \<and>
   normalize_shark_name (ustr ''banco   itau, sa.'') = Inr (ustr ''banco itau'')"
  by (simp add: normalize_eval)

section \<open>Properties of the shark resolver\<close>

lemmas resolver_eval =
  build_sharks_def glob_acionistas_def py_endswith_def scan_artifact_def artifact_ticker_def
  add_row_def add_ticker_def count_name_def dict_get_def py_or_def py_str_def
  py_upper_def py_upper_cp_def upper_special_def upper_segments_def
  re_match_acionistas_def ic_az09_def ic_literal_def sre_lower_def
  make_shark_def display_name_def shark_sort_key_def

lemma add_row_eq:
  "add_row repr ticker item st =
     Inr (case row_of repr ticker item of None \<Rightarrow> st | Some r \<Rightarrow> add_triple r st)"
proof (cases item)
  case (JDict d)
  let ?n = "py_strip (py_str repr (py_or (dict_get d (ustr ''acionista'')) (JStr [])))"
  obtain k where k: "normalize_shark_name ?n = Inr k"
    using normalize_shark_name_total by blast
  show ?thesis
    using JDict k by (simp add: add_row_def row_of_def add_triple_def Let_def)
qed (simp_all add: add_row_def row_of_def)

lemma add_rows_eq:
  "add_rows repr ticker rows st =
     Inr (fold add_triple (List.map_filter (row_of repr ticker) rows) st)"
proof (induction rows arbitrary: st)
  case Nil
  then show ?case by (simp add: List.map_filter_simps)
next
  case (Cons item rest)
  then show ?case
    by (cases "row_of repr ticker item") (simp_all add: add_row_eq List.map_filter_simps)
qed

lemma scan_artifact_eq:
  "scan_artifact repr p st =
     (if is_dict_payload p then Inr (fold add_triple (artifact_rows repr p) st)
      else Inl AttributeError)"
proof (cases "snd p")
  case None
  then show ?thesis by (simp add: scan_artifact_def is_dict_payload_def artifact_rows_def)
next
  case (Some payload)
  show ?thesis
  proof (cases payload)
    case (JDict d)
    show ?thesis
      using Some JDict
      by (cases "dict_get d (ustr ''items'')")
         (simp_all add: scan_artifact_def is_dict_payload_def artifact_rows_def add_rows_eq Let_def)
  qed (use Some in \<open>simp_all add: scan_artifact_def is_dict_payload_def\<close>)
qed

lemma scan_artifacts_eq:
  "scan_artifacts repr ps st =
     (if list_all is_dict_payload ps
      then Inr (fold add_triple (concat (map (artifact_rows repr) ps)) st)
      else Inl AttributeError)"
  by (induction ps arbitrary: st) (simp_all add: scan_artifact_eq)

lemma build_sharks_eq:
  "build_sharks repr out_dir =
     (if list_all is_dict_payload (glob_acionistas out_dir)
      then Inr (sort_key shark_sort_key
             (map (make_shark (snd (fold add_triple (seen_rows repr out_dir) ([], []))))
                  (fst (fold add_triple (seen_rows repr out_dir) ([], [])))))
      else Inl AttributeError)"
  by (simp add: build_sharks_def scan_artifacts_eq seen_rows_def)

















text \<open>
  C1, as stated. On the four rows the resolver does not return the two sharks of the
  claim, named \<open>ACME Corp\<close> and \<open>Beta\<close>.
\<close>

theorem acme_sharks_not_as_claimed:
  "build_sharks no_repr acme_dir \<noteq>
     Inr [\<lparr>shark_name = ustr ''ACME Corp'', quantity = 2, items = [ustr ''A'', ustr ''B'']\<rparr>,
          \<lparr>shark_name = ustr ''Beta'', quantity = 1, items = [ustr ''C'']\<rparr>]"
  by (simp add: acme_dir_def resolver_eval normalize_eval)

text \<open>
  C1, amended. The resolver returns exactly two sharks, first the one of the key
  \<open>acme\<close> with quantity 2 and tickers \<open>[A, B]\<close>, then one with quantity 1 and
  tickers \<open>[C]\<close>. Their names are raw spellings: \<open>ACME\<close>, the smallest of the three
  spellings \<open>ACME Corp\<close>, \<open>ACME CORP\<close> and \<open>ACME\<close> that occur once each, and
  \<open>Beta Ltd\<close>.
\<close>

theorem acme_sharks:
  "build_sharks repr acme_dir =
     Inr [\<lparr>shark_name = ustr ''ACME'', quantity = 2, items = [ustr ''A'', ustr ''B'']\<rparr>,
          \<lparr>shark_name = ustr ''Beta Ltd'', quantity = 1, items = [ustr ''C'']\<rparr>] \<and>
   normalize_shark_name (ustr ''ACME Corp'') = Inr (ustr ''acme'') \<and>
   normalize_shark_name (ustr ''ACME CORP'') = Inr (ustr ''acme'') \<and>
   normalize_shark_name (ustr ''ACME'') = Inr (ustr ''acme'') \<and>
   normalize_shark_name (ustr ''Beta Ltd'') = Inr (ustr ''beta'')"
  by (simp add: acme_dir_def resolver_eval normalize_eval)

theorem acme_sharks_witness:
  "build_sharks no_repr acme_dir =
     Inr [\<lparr>shark_name = ustr ''ACME'', quantity = 2, items = [ustr ''A'', ustr ''B'']\<rparr>,
          \<lparr>shark_name = ustr ''Beta Ltd'', quantity = 1, items = [ustr ''C'']\<rparr>]"
  using acme_sharks [of no_repr] by simp

lemma acme_build:
  "build_sharks repr acme_dir =
     Inr [\<lparr>shark_name = ustr ''ACME'', quantity = 2, items = [ustr ''A'', ustr ''B'']\<rparr>,
          \<lparr>shark_name = ustr ''Beta Ltd'', quantity = 1, items = [ustr ''C'']\<rparr>]"
  by (simp add: acme_dir_def resolver_eval normalize_eval)


lemma pair_build:
  "build_sharks repr pair_dir =
     Inr [\<lparr>shark_name = ustr ''Alpha'', quantity = 1, items = [ustr ''X'']\<rparr>,
          \<lparr>shark_name = ustr ''Zeta'', quantity = 1, items = [ustr ''X'']\<rparr>]"
  by (simp add: pair_dir_def resolver_eval normalize_eval)

lemma long_s_eval:
  "build_sharks repr long_s_dir =
     Inr [\<lparr>shark_name = ustr ''Beta Ltd'', quantity = 1, items = [ustr ''S'']\<rparr>]"
  by (simp add: long_s_dir_def resolver_eval normalize_eval)

lemma bad_payload_eval: "build_sharks repr bad_payload_dir = Inl AttributeError"
  by (simp add: bad_payload_dir_def acme_dir_def resolver_eval normalize_eval)

lemma shark_sort_key_le:
  "shark_sort_key a \<le> shark_sort_key b \<Longrightarrow> ranked_before a b"
  by (auto simp: shark_sort_key_def ranked_before_def less_eq_prod_def)

lemma sort_key_ranked: "sorted_wrt ranked_before (sort_key shark_sort_key xs)"
proof -
  have "sorted (map shark_sort_key (sort_key shark_sort_key xs))" by (rule sorted_sort_key)
  then have "sorted_wrt (\<lambda>a b. shark_sort_key a \<le> shark_sort_key b) (sort_key shark_sort_key xs)"
    by (simp add: sorted_map)
  then show ?thesis
    by (rule sorted_wrt_mono_rel [rotated]) (simp add: shark_sort_key_le)
qed

text \<open>The resolver returns a list unless some artifact parses to something that is not a \<open>dict\<close>.\<close>

lemma build_sharks_returns:
  "(\<exists>out. build_sharks repr out_dir = Inr out) \<longleftrightarrow>
     list_all is_dict_payload (glob_acionistas out_dir)"
  by (simp add: build_sharks_eq)

lemma build_sharks_Inr:
  "build_sharks repr out_dir = Inr out \<Longrightarrow>
   out = sort_key shark_sort_key
           (map (make_shark (snd (fold add_triple (seen_rows repr out_dir) ([], []))))
                (fst (fold add_triple (seen_rows repr out_dir) ([], []))))"
  by (simp add: build_sharks_eq split: if_splits)

text \<open>
  C5. The list the resolver returns is sorted by quantity, larger first, and then by
  name: each shark is ranked before every later one, in particular before the next
  one.
\<close>

theorem sharks_ranked:
  assumes "build_sharks repr out_dir = Inr out"
  shows "sorted_wrt ranked_before out \<and>
         (\<forall>i. Suc i < length out \<longrightarrow> ranked_before (out ! i) (out ! Suc i))"
proof -
  have s: "sorted_wrt ranked_before out"
    using build_sharks_Inr [OF assms] sort_key_ranked by simp
  then show ?thesis by (auto simp: sorted_wrt_iff_nth_less)
qed

theorem sharks_ranked_witness:
  "build_sharks no_repr pair_dir =
     Inr [\<lparr>shark_name = ustr ''Alpha'', quantity = 1, items = [ustr ''X'']\<rparr>,
          \<lparr>shark_name = ustr ''Zeta'', quantity = 1, items = [ustr ''X'']\<rparr>] \<and>
   ranked_before \<lparr>shark_name = ustr ''Alpha'', quantity = 1, items = [ustr ''X'']\<rparr>
                 \<lparr>shark_name = ustr ''Zeta'', quantity = 1, items = [ustr ''X'']\<rparr>"
  using sharks_ranked [OF pair_build [of no_repr]] pair_build [of no_repr] by simp










text \<open>
  An artifact that cannot be read or parsed, a \<open>dict\<close> with no usable ticker and a
  \<open>dict\<close> whose \<open>items\<close> is not a list contribute no rows, and the scan of the
  other artifacts goes on as if they were not there.
\<close>

lemma skipped_rows:
  "snd p = None \<Longrightarrow> artifact_rows repr p = []"
  "snd p = Some (JDict d) \<Longrightarrow> artifact_ticker repr (fst p) d = [] \<Longrightarrow> artifact_rows repr p = []"
  "snd p = Some (JDict d) \<Longrightarrow> \<forall>rows. dict_get d (ustr ''items'') \<noteq> JList rows \<Longrightarrow>
     artifact_rows repr p = []"
  by (simp_all add: artifact_rows_def split: json.splits)

lemma skipped_artifact_ignored:
  assumes "is_dict_payload p" and "artifact_rows repr p = []"
  shows "scan_artifacts repr (ps @ p # qs) st = scan_artifacts repr (ps @ qs) st"
  using assms by (simp add: scan_artifacts_eq)

text \<open>
  C9. An artifact whose content parses to something that is not a \<open>dict\<close> is not
  skipped: with the list \<open>[]\<close> as a fourth artifact the resolver raises
  \<open>AttributeError\<close>, while the three other artifacts alone give two sharks.
\<close>

theorem non_dict_payload_aborts:
  "build_sharks no_repr bad_payload_dir = Inl AttributeError \<and>
   bad_payload_dir = acme_dir @ [(ustr ''x.acionistas.json'', Some (JList []))] \<and>
   build_sharks no_repr acme_dir =
     Inr [\<lparr>shark_name = ustr ''ACME'', quantity = 2, items = [ustr ''A'', ustr ''B'']\<rparr>,
          \<lparr>shark_name = ustr ''Beta Ltd'', quantity = 1, items = [ustr ''C'']\<rparr>]"
  using bad_payload_eval [of no_repr] acme_build [of no_repr] by (simp add: bad_payload_dir_def)

lemma ic_az09_iff: "ic_az09 c \<longleftrightarrow> is_ascii_alnum c \<or> is_ic_extra c"
  unfolding ic_az09_def sre_lower_def is_az09_def is_ascii_alnum_def is_ic_extra_def
  by (simp split: if_splits) arith

lemma ic_az09_not_space: "ic_az09 c \<Longrightarrow> \<not> py_isspace c"
  unfolding ic_az09_iff is_ascii_alnum_def is_ic_extra_def py_isspace_def by arith

lemma suffix_unfold:
  "ustr ''.acionistas.json'' = [46,97,99,105,111,110,105,115,116,97,115,46,106,115,111,110]"
  by (simp add: ustr_def)

lemma suffix_literal: "list_all2 ic_literal (ustr ''.acionistas.json'') (ustr ''.acionistas.json'')"
  by (simp add: suffix_unfold ic_literal_def sre_lower_def)

lemma suffix_start:
  "takeWhile ic_az09 (ustr ''.acionistas.json'') = []"
  "dropWhile ic_az09 (ustr ''.acionistas.json'') = ustr ''.acionistas.json''"
  by (simp_all add: suffix_unfold ic_az09_def sre_lower_def is_az09_def)

lemma re_match_stem:
  "re_match_acionistas (stem @ ustr ''.acionistas.json'') =
     (if stem \<noteq> [] \<and> list_all ic_az09 stem then Some stem else None)"
proof (cases "list_all ic_az09 stem")
  case True
  then have all: "\<And>c. c \<in> set stem \<Longrightarrow> ic_az09 c" by (simp add: list_all_iff)
  have "takeWhile ic_az09 (stem @ ustr ''.acionistas.json'') = stem"
    using all by (simp add: takeWhile_append2 suffix_start)
  moreover have "dropWhile ic_az09 (stem @ ustr ''.acionistas.json'') = ustr ''.acionistas.json''"
    using all by (simp add: dropWhile_append2 suffix_start)
  ultimately show ?thesis
    using True suffix_literal by (simp add: re_match_acionistas_def Let_def)
next
  case False
  then have "\<exists>c\<in>set stem. \<not> ic_az09 c" by (simp add: list_all_iff)
  then obtain xs c ys where stem: "stem = xs @ c # ys" and c: "\<not> ic_az09 c"
    and xs: "\<forall>x\<in>set xs. ic_az09 x"
    using split_list_first_prop [of stem "\<lambda>c. \<not> ic_az09 c"] by auto
  let ?suf = "ustr ''.acionistas.json''"
  let ?rest = "c # ys @ ?suf"
  have tw: "takeWhile ic_az09 (stem @ ?suf) = xs" and dw: "dropWhile ic_az09 (stem @ ?suf) = ?rest"
    using stem c xs by (simp_all add: takeWhile_append2 dropWhile_append2)
  have len: "length ?suf = 16" by (simp add: suffix_unfold)
  have "length ?rest \<noteq> length ?suf" using len by simp
  then have n1: "\<not> list_all2 ic_literal ?suf ?rest" using list_all2_lengthD by metis
  have "last ?rest = 110" by (simp add: suffix_unfold)
  then have n2: "last ?rest \<noteq> 10" by simp
  show ?thesis
    using False n1 n2 unfolding re_match_acionistas_def Let_def tw dw by simp
qed

lemma py_upper_cp_not_Nil: "py_upper_cp c \<noteq> []"
  by (simp add: py_upper_cp_def split: option.splits prod.splits)

lemma py_upper_empty: "py_upper s = [] \<longleftrightarrow> s = []"
  by (cases s) (simp_all add: py_upper_def py_upper_cp_not_Nil)

lemma py_strip_ic: 
  assumes "stem \<noteq> []" "list_all ic_az09 stem"
  shows "py_strip stem = stem"
proof -
  have "hd stem \<in> set stem" "last stem \<in> set stem" using assms(1) by simp_all
  then have "\<not> py_isspace (hd stem)" "\<not> py_isspace (last stem)"
    using assms(2) ic_az09_not_space by (auto simp: list_all_iff)
  then show ?thesis unfolding py_strip_def using strip_keep [OF assms(1)] by blast
qed

lemma blank_ticker_field:
  assumes "map_of d (ustr ''ticker'') = None \<or> map_of d (ustr ''ticker'') = Some (JStr [])"
  shows "py_upper (py_strip (py_str repr (py_or (dict_get d (ustr ''ticker'')) (JStr [])))) = []"
  using assms by (auto simp: dict_get_def py_or_def py_str_def py_strip_def py_upper_def)

lemma artifact_ticker_fallback:
  assumes "map_of d (ustr ''ticker'') = None \<or> map_of d (ustr ''ticker'') = Some (JStr [])"
  shows "artifact_ticker repr (stem @ ustr ''.acionistas.json'') d =
           (if stem \<noteq> [] \<and> list_all ic_az09 stem then py_upper stem else [])"
  using blank_ticker_field [OF assms, of repr]
  by (simp add: artifact_ticker_def Let_def re_match_stem py_strip_ic)

lemma scan_artifact_no_ticker:
  "artifact_ticker repr (fst p) d = [] \<Longrightarrow> snd p = Some (JDict d) \<Longrightarrow> scan_artifact repr p st = Inr st"
  by (simp add: scan_artifact_def Let_def split: json.splits)

text \<open>
  C10, as stated. The stem U+017F is not an ASCII letter or digit, and yet the file
  name matches: the artifact gets the ticker \<open>S\<close> and its row makes a shark.
\<close>

theorem long_s_stem_recovered:
  "re_match_acionistas ([383] @ ustr ''.acionistas.json'') = Some [383] \<and>
   \<not> is_ascii_alnum 383 \<and>
   build_sharks no_repr long_s_dir =
     Inr [\<lparr>shark_name = ustr ''Beta Ltd'', quantity = 1, items = [ustr ''S'']\<rparr>]"
proof -
  have "re_match_acionistas ([383] @ ustr ''.acionistas.json'') = Some [383]"
    unfolding re_match_stem by (simp add: ic_az09_iff is_ic_extra_def)
  moreover have "\<not> is_ascii_alnum 383" by (simp add: is_ascii_alnum_def)
  ultimately show ?thesis using long_s_eval [of no_repr] by blast
qed

text \<open>
  C10, amended. When the \<open>ticker\<close> field is missing or empty, the file name gives the
  ticker exactly when the stem before \<open>.acionistas.json\<close> is not empty and consists
  of ASCII letters and digits and the letters U+0130, U+0131, U+017F and U+212A; an
  artifact whose stem has any other character is skipped: it leaves the two
  dictionaries as they are and none of its rows is counted.
\<close>

theorem fallback_ticker_class:
  assumes "map_of d (ustr ''ticker'') = None \<or> map_of d (ustr ''ticker'') = Some (JStr [])"
  shows "(artifact_ticker repr (stem @ ustr ''.acionistas.json'') d \<noteq> [] \<longleftrightarrow>
            stem \<noteq> [] \<and> list_all (\<lambda>c. is_ascii_alnum c \<or> is_ic_extra c) stem) \<and>
         (\<not> list_all (\<lambda>c. is_ascii_alnum c \<or> is_ic_extra c) stem \<longrightarrow>
            scan_artifact repr (stem @ ustr ''.acionistas.json'', Some (JDict d)) st = Inr st \<and>
            artifact_rows repr (stem @ ustr ''.acionistas.json'', Some (JDict d)) = [])"
proof -
  have cls: "list_all (\<lambda>c. is_ascii_alnum c \<or> is_ic_extra c) stem = list_all ic_az09 stem"
    by (simp add: list_all_iff ic_az09_iff)
  have t: "artifact_ticker repr (stem @ ustr ''.acionistas.json'') d =
           (if stem \<noteq> [] \<and> list_all ic_az09 stem then py_upper stem else [])"
    using artifact_ticker_fallback [OF assms] .
  have a: "artifact_ticker repr (stem @ ustr ''.acionistas.json'') d \<noteq> [] \<longleftrightarrow>
            stem \<noteq> [] \<and> list_all ic_az09 stem"
    unfolding t by (simp add: py_upper_empty)
  have b: "scan_artifact repr (stem @ ustr ''.acionistas.json'', Some (JDict d)) st = Inr st \<and>
           artifact_rows repr (stem @ ustr ''.acionistas.json'', Some (JDict d)) = []"
    if "\<not> list_all ic_az09 stem"
  proof -
    have e: "artifact_ticker repr (stem @ ustr ''.acionistas.json'') d = []"
      using that t by simp
    then show ?thesis
      by (simp add: scan_artifact_no_ticker artifact_rows_def split: json.splits)
  qed
  show ?thesis unfolding cls using a b by blast
qed

theorem fallback_ticker_class_witness:
  "artifact_ticker no_repr (ustr ''petr4'' @ ustr ''.acionistas.json'') [] \<noteq> [] \<and>
   scan_artifact no_repr (ustr ''ab-c'' @ ustr ''.acionistas.json'', Some (JDict [])) ([], []) =
     Inr ([], [])"
proof -
  have missing: "map_of [] (ustr ''ticker'') = None \<or> map_of [] (ustr ''ticker'') = Some (JStr [])"
    by simp
  have good: "ustr ''petr4'' \<noteq> [] \<and> list_all (\<lambda>c. is_ascii_alnum c \<or> is_ic_extra c) (ustr ''petr4'')"
    by (simp add: ustr_def is_ascii_alnum_def)
  have bad: "\<not> list_all (\<lambda>c. is_ascii_alnum c \<or> is_ic_extra c) (ustr ''ab-c'')"
    by (simp add: ustr_def is_ascii_alnum_def is_ic_extra_def)
  show ?thesis
    using fallback_ticker_class [OF missing, of no_repr "ustr ''petr4''"] good
      fallback_ticker_class [OF missing, of no_repr "ustr ''ab-c''" "([], [])"] bad
    by blast
qed

section \<open>Properties of the grouper\<close>

lemma update_fresh: "k \<notin> fst ` set al \<Longrightarrow> AList.update k v al = al @ [(k, v)]"
  by (induction al) auto

lemma add_item_lookup:
  "map_of (add_item repr x g) k =
     (if k = record_key repr x
      then Some ((case map_of g k of None \<Rightarrow> [] | Some xs \<Rightarrow> xs) @ [x])
      else map_of g k)"
  by (simp add: add_item_def AList.update_conv')

lemma add_item_keys: "fst ` set (add_item repr x g) = insert (record_key repr x) (fst ` set g)"
  by (simp add: add_item_def AList.dom_update)

lemma add_item_distinct: "distinct (map fst g) \<Longrightarrow> distinct (map fst (add_item repr x g))"
  by (simp add: add_item_def AList.distinct_update)

lemma by_key_ok_old:
  assumes "by_key_ok repr recs g"
  shows "(case map_of g k of None \<Rightarrow> [] | Some xs \<Rightarrow> xs) = filter (\<lambda>r. record_key repr r = k) recs"
proof (cases "map_of g k")
  case None
  then have "k \<notin> fst ` set g" by (simp add: map_of_eq_None_iff)
  then have "k \<notin> record_key repr ` set recs" using assms unfolding by_key_ok_def by blast
  then have "filter (\<lambda>r. record_key repr r = k) recs = []" by (auto simp: filter_empty_conv)
  with None show ?thesis by simp
next
  case (Some xs)
  then have "xs = filter (\<lambda>r. record_key repr r = k) recs"
    using assms unfolding by_key_ok_def by blast
  with Some show ?thesis by simp
qed

lemma by_key_ok_step:
  assumes "by_key_ok repr recs g"
  shows "by_key_ok repr (recs @ [x]) (add_item repr x g)"
  unfolding by_key_ok_def
proof (intro conjI allI impI)
  show "distinct (map fst (add_item repr x g))"
    using assms by (simp add: by_key_ok_def add_item_distinct)
  show "fst ` set (add_item repr x g) = record_key repr ` set (recs @ [x])"
    using assms by (simp add: by_key_ok_def add_item_keys)
next
  fix k xs
  assume a: "map_of (add_item repr x g) k = Some xs"
  have old: "(case map_of g k of None \<Rightarrow> [] | Some xs \<Rightarrow> xs) = filter (\<lambda>r. record_key repr r = k) recs"
    using by_key_ok_old [OF assms] .
  show "xs = filter (\<lambda>r. record_key repr r = k) (recs @ [x])"
  proof (cases "k = record_key repr x")
    case True
    then show ?thesis using a old by (simp add: add_item_lookup)
  next
    case False
    then have "map_of g k = Some xs" using a by (simp add: add_item_lookup)
    then show ?thesis using old False by auto
  qed
qed

lemma by_key_ok_fold: "by_key_ok repr recs (by_key repr recs)"
proof (induction recs rule: rev_induct)
  case Nil
  show ?case by (simp add: by_key_ok_def by_key_def)
next
  case (snoc x recs)
  have "by_key repr (recs @ [x]) = add_item repr x (by_key repr recs)"
    by (simp add: by_key_def)
  then show ?case using by_key_ok_step [OF snoc] by simp
qed

lemma bucket_contents:
  assumes "(k, xs) \<in> set (by_key repr recs)"
  shows "xs = filter (\<lambda>r. record_key repr r = k) recs" and "xs \<noteq> []"
proof -
  have ok: "by_key_ok repr recs (by_key repr recs)" by (rule by_key_ok_fold)
  then have "map_of (by_key repr recs) k = Some xs"
    using assms unfolding by_key_ok_def by simp
  then show xs: "xs = filter (\<lambda>r. record_key repr r = k) recs"
    using ok unfolding by_key_ok_def by blast
  have "k \<in> record_key repr ` set recs"
    using ok assms unfolding by_key_ok_def by force
  then show "xs \<noteq> []" unfolding xs by (auto simp: filter_empty_conv)
qed

lemma bucket_exists:
  assumes "r \<in> set recs"
  shows "(record_key repr r, filter (\<lambda>x. record_key repr x = record_key repr r) recs)
           \<in> set (by_key repr recs)"
proof -
  have ok: "by_key_ok repr recs (by_key repr recs)" by (rule by_key_ok_fold)
  then have "record_key repr r \<in> fst ` set (by_key repr recs)"
    using assms unfolding by_key_ok_def by blast
  then obtain xs where xs: "(record_key repr r, xs) \<in> set (by_key repr recs)" by force
  then show ?thesis using bucket_contents(1) [OF xs] by simp
qed

lemma add_item_mset:
  "mset (concat (map snd (add_item repr x g))) = mset (concat (map snd g)) + {#x#}"
  unfolding add_item_def
  by (induction g) auto

lemma by_key_mset: "mset (concat (map snd (by_key repr recs))) = mset recs"
proof (induction recs rule: rev_induct)
  case Nil
  show ?case by (simp add: by_key_def)
next
  case (snoc x recs)
  have "by_key repr (recs @ [x]) = add_item repr x (by_key repr recs)"
    by (simp add: by_key_def)
  then show ?case using snoc by (simp add: add_item_mset)
qed

lemma by_key_count: "sum_list (map (\<lambda>b. length (snd b)) (by_key repr recs)) = length recs"
proof -
  have "length (concat (map snd (by_key repr recs))) = length recs"
    using by_key_mset [of repr recs] by (metis size_mset)
  then show ?thesis by (simp add: length_concat comp_def)
qed

lemma sorted_buckets:
  "distinct (map fst (sort_key fst (by_key repr recs)))"
  "set (sort_key fst (by_key repr recs)) = set (by_key repr recs)"
proof -
  have "distinct (map fst (by_key repr recs))"
    using by_key_ok_fold [of repr recs] unfolding by_key_ok_def by blast
  moreover have "mset (map fst (sort_key fst (by_key repr recs))) = mset (map fst (by_key repr recs))"
    by simp
  ultimately show "distinct (map fst (sort_key fst (by_key repr recs)))"
    by (metis mset_eq_imp_distinct_iff)
  show "set (sort_key fst (by_key repr recs)) = set (by_key repr recs)" by simp
qed

lemma record_key_sentinels:
  "map_of r (ustr ''ticker'') = None \<Longrightarrow> fst (record_key repr r) = ustr ''UNKNOWN''"
  "map_of r (ustr ''source'') = None \<Longrightarrow> snd (record_key repr r) = ustr ''data''"
  by (simp_all add: record_key_def dict_get_def py_or_def py_str_def py_upper_def py_lower_def
      py_lower_cp_def py_strip_def py_isspace_def ustr_def Let_def)


lemma fold_update_fresh:
  "distinct (map k bs) \<Longrightarrow> k ` set bs \<inter> fst ` set d = {} \<Longrightarrow>
   fold (\<lambda>b. AList.update (k b) (v b)) bs d = d @ map (\<lambda>b. (k b, v b)) bs"
proof (induction bs arbitrary: d)
  case Nil
  show ?case by simp
next
  case (Cons b bs)
  have fresh: "k b \<notin> fst ` set d" using Cons.prems(2) by auto
  have d1: "distinct (map k bs)" and nb: "k b \<notin> k ` set bs" using Cons.prems(1) by auto
  have "k ` set bs \<inter> fst ` set (d @ [(k b, v b)]) = {}"
    using Cons.prems(2) nb by auto
  from Cons.IH [OF d1 this] show ?case by (simp add: update_fresh [OF fresh])
qed

lemma map_of_fold_update:
  "map_of (fold (\<lambda>b. AList.update (k b) (v b)) bs d) =
     map_of d ++ map_of (rev (map (\<lambda>b. (k b, v b)) bs))"
proof (induction bs arbitrary: d)
  case Nil
  show ?case by simp
next
  case (Cons b bs)
  have "map_of (AList.update (k b) (v b) d) = map_of d ++ map_of [(k b, v b)]"
    by (simp add: AList.update_conv' fun_eq_iff map_add_def)
  then show ?case by (simp add: Cons.IH map_add_assoc del: map_of.simps fun_upd_apply)
qed

lemma group_step_Inr:
  assumes "group_step fs fmt g b st = Inr st'"
  shows "volume_map st' =
           (if snd (fst b) = ustr ''volume''
            then AList.update (fst (fst b)) (wide_payload (snd b)) (volume_map st)
            else volume_map st)"
    and "magic_formula_map st' =
           (if snd (fst b) = ustr ''magic_formula''
            then AList.update (fst (fst b)) (wide_payload (snd b)) (magic_formula_map st)
            else magic_formula_map st)"
    and "files st' =
           (if \<not> is_wide (snd (fst b))
            then AList.update (locate fs (ticker_path fmt (fst (fst b)) (snd (fst b))))
                   (render fmt (ticker_payload g (fst (fst b)) (snd (fst b)) (snd b))) (files st)
            else files st)"
proof -
  have ne: "ustr ''magic_formula'' \<noteq> ustr ''volume''" by (simp add: ustr_def)
  show "volume_map st' =
           (if snd (fst b) = ustr ''volume''
            then AList.update (fst (fst b)) (wide_payload (snd b)) (volume_map st)
            else volume_map st)"
    using assms ne
    by (auto simp: group_step_def Let_def write_text_def split: if_splits sum.splits)
  show "magic_formula_map st' =
           (if snd (fst b) = ustr ''magic_formula''
            then AList.update (fst (fst b)) (wide_payload (snd b)) (magic_formula_map st)
            else magic_formula_map st)"
    using assms ne
    by (auto simp: group_step_def Let_def write_text_def split: if_splits sum.splits)
  show "files st' =
           (if \<not> is_wide (snd (fst b))
            then AList.update (locate fs (ticker_path fmt (fst (fst b)) (snd (fst b))))
                   (render fmt (ticker_payload g (fst (fst b)) (snd (fst b)) (snd b))) (files st)
            else files st)"
    using assms ne
    by (auto simp: group_step_def Let_def write_text_def is_wide_def split: if_splits sum.splits)
qed

lemma group_loop_Inr:
  assumes "group_loop fs fmt g bs st = Inr st'"
  shows "volume_map st' =
           fold (\<lambda>b. AList.update (fst (fst b)) (wide_payload (snd b)))
             (filter (\<lambda>b. snd (fst b) = ustr ''volume'') bs) (volume_map st)"
    and "magic_formula_map st' =
           fold (\<lambda>b. AList.update (fst (fst b)) (wide_payload (snd b)))
             (filter (\<lambda>b. snd (fst b) = ustr ''magic_formula'') bs) (magic_formula_map st)"
    and "files st' =
           fold (\<lambda>b. AList.update (locate fs (ticker_path fmt (fst (fst b)) (snd (fst b))))
                        (render fmt (ticker_payload g (fst (fst b)) (snd (fst b)) (snd b))))
             (filter (\<lambda>b. \<not> is_wide (snd (fst b))) bs) (files st)"
  using assms
proof (induction bs arbitrary: st)
  case Nil
  { case 1 then show ?case by simp }
  { case 2 then show ?case by simp }
  { case 3 then show ?case by simp }
next
  case (Cons b bs)
  { case 1
    then obtain st1 where s: "group_step fs fmt g b st = Inr st1"
      and l: "group_loop fs fmt g bs st1 = Inr st'"
      by (auto split: sum.splits)
    show ?case using Cons.IH(1) [OF l] group_step_Inr(1) [OF s] by simp }
  { case 2
    then obtain st1 where s: "group_step fs fmt g b st = Inr st1"
      and l: "group_loop fs fmt g bs st1 = Inr st'"
      by (auto split: sum.splits)
    show ?case using Cons.IH(2) [OF l] group_step_Inr(2) [OF s] by simp }
  { case 3
    then obtain st1 where s: "group_step fs fmt g b st = Inr st1"
      and l: "group_loop fs fmt g bs st1 = Inr st'"
      by (auto split: sum.splits)
    show ?case using Cons.IH(3) [OF l] group_step_Inr(3) [OF s] by simp }
qed

lemma wide_tickers_distinct:
  "distinct (map (\<lambda>b. fst (fst b)) (wide_buckets repr name recs))"
proof -
  let ?bs = "wide_buckets repr name recs"
  have d1: "distinct (map fst ?bs)"
    unfolding wide_buckets_def using sorted_buckets(1) by (rule distinct_map_filter)
  have inj: "inj_on (\<lambda>k. fst k) (set (map fst ?bs))"
  proof (rule inj_onI)
    fix k k' assume "k \<in> set (map fst ?bs)" "k' \<in> set (map fst ?bs)" "fst k = fst k'"
    then have "snd k = name" "snd k' = name" and fs: "fst k = fst k'"
      by (auto simp: wide_buckets_def)
    then show "k = k'" by (simp add: prod_eq_iff)
  qed
  have "distinct (map (\<lambda>k. fst k) (map fst ?bs))"
    unfolding distinct_map [of "\<lambda>k. fst k" "map fst ?bs"] using d1 inj by blast
  then show ?thesis by (simp add: comp_def)
qed

lemma wide_map_after_empty: "wide_map_after repr name recs = [] \<longleftrightarrow> wide_buckets repr name recs = []"
  by (simp add: wide_map_after_def)

lemma write_wide_Inr:
  assumes "write_wide fs fmt g name m d = Inr d'"
  shows "map_of d' = map_of d ++ map_of (wide_file fs fmt g name m)"
proof (cases "m = []")
  case True
  then show ?thesis using assms by (simp add: write_wide_def wide_file_def)
next
  case False
  then have "d' = AList.update (locate fs (wide_path fmt name))
                    (render fmt (wide_file_payload g name m)) d"
    using assms by (auto simp: write_wide_def write_text_def split: if_splits)
  then show ?thesis using False
    by (simp add: wide_file_def AList.update_conv' fun_eq_iff map_add_def)
qed

lemma grouper_files:
  assumes "grouper fs fmt repr g recs dir0 = Inr dir"
  shows "map_of dir =
           map_of dir0 ++ map_of (rev (map (bucket_file fs fmt g) (ticker_buckets repr recs)))
             ++ map_of (wide_file fs fmt g (ustr ''volume'') (wide_map_after repr (ustr ''volume'') recs))
             ++ map_of (wide_file fs fmt g (ustr ''magic_formula'')
                          (wide_map_after repr (ustr ''magic_formula'') recs))"
proof -
  let ?bs = "sort_key fst (by_key repr recs)"
  from assms obtain st d1 where
    loop: "group_loop fs fmt g ?bs \<lparr>volume_map = [], magic_formula_map = [], files = dir0\<rparr> = Inr st"
    and w1: "write_wide fs fmt g (ustr ''volume'') (volume_map st) (files st) = Inr d1"
    and w2: "write_wide fs fmt g (ustr ''magic_formula'') (magic_formula_map st) d1 = Inr dir"
    unfolding grouper_def by (auto split: sum.splits)
  have wide: "fold (\<lambda>b. AList.update (fst (fst b)) (wide_payload (snd b)))
                (filter (\<lambda>b. snd (fst b) = name) ?bs) [] = wide_map_after repr name recs" for name
    using fold_update_fresh [of "\<lambda>b. fst (fst b)" "wide_buckets repr name recs" "[]"
        "\<lambda>b. wide_payload (snd b)"] wide_tickers_distinct [of repr name recs]
    by (simp add: wide_buckets_def wide_map_after_def)
  have v: "volume_map st = wide_map_after repr (ustr ''volume'') recs"
    using group_loop_Inr(1) [OF loop] wide by simp
  have m: "magic_formula_map st = wide_map_after repr (ustr ''magic_formula'') recs"
    using group_loop_Inr(2) [OF loop] wide by simp
  have f0: "files st =
             fold (\<lambda>b. AList.update (locate fs (ticker_path fmt (fst (fst b)) (snd (fst b))))
                          (render fmt (ticker_payload g (fst (fst b)) (snd (fst b)) (snd b))))
               (ticker_buckets repr recs) dir0"
    using group_loop_Inr(3) [OF loop] unfolding ticker_buckets_def by simp
  have bf: "(\<lambda>b. (locate fs (ticker_path fmt (fst (fst b)) (snd (fst b))),
                    render fmt (ticker_payload g (fst (fst b)) (snd (fst b)) (snd b)))) =
            bucket_file fs fmt g"
    by (simp add: bucket_file_def fun_eq_iff)
  have f: "map_of (files st) =
             map_of dir0 ++ map_of (rev (map (bucket_file fs fmt g) (ticker_buckets repr recs)))"
    unfolding f0 map_of_fold_update bf ..
  show ?thesis
    using write_wide_Inr [OF w1] write_wide_Inr [OF w2] v m f by simp
qed

lemma ticker_bucket_mem:
  "b \<in> set (ticker_buckets repr recs) \<longleftrightarrow> b \<in> set (by_key repr recs) \<and> \<not> is_wide (snd (fst b))"
  by (auto simp: ticker_buckets_def)

lemma wide_bucket_mem:
  "b \<in> set (wide_buckets repr name recs) \<longleftrightarrow> b \<in> set (by_key repr recs) \<and> snd (fst b) = name"
  by (auto simp: wide_buckets_def)

lemma wide_lookup:
  assumes "((t, name), xs) \<in> set (by_key repr recs)"
  shows "map_of (wide_map_after repr name recs) t = Some (wide_payload xs)"
proof -
  have "distinct (map fst (wide_map_after repr name recs))"
    using wide_tickers_distinct [of repr name recs] by (simp add: wide_map_after_def comp_def)
  moreover have "(t, wide_payload xs) \<in> set (wide_map_after repr name recs)"
    using assms unfolding wide_map_after_def by (force simp: wide_bucket_mem)
  ultimately show ?thesis by simp
qed

lemma wide_entry:
  assumes "e \<in> set (wide_map_after repr name recs)"
  shows "\<exists>xs. ((fst e, name), xs) \<in> set (by_key repr recs) \<and> snd e = wide_payload xs"
  using assms unfolding wide_map_after_def by (force simp: wide_bucket_mem)

lemma map_of_rev_mem:
  assumes "f \<in> fst ` set xs"
  shows "\<exists>y. map_of (rev xs) f = Some y \<and> (f, y) \<in> set xs"
proof -
  have "f \<in> fst ` set (rev xs)" using assms by simp
  then obtain y where y: "map_of (rev xs) f = Some y"
    by (metis map_of_eq_None_iff not_Some_eq)
  then have "(f, y) \<in> set (rev xs)" by (rule map_of_SomeD)
  with y show ?thesis by auto
qed

text \<open>Where the text of a file comes from, after a run that returns.\<close>

lemma file_cases:
  assumes "grouper fs fmt repr g recs dir0 = Inr dir"
  shows "(wide_buckets repr (ustr ''magic_formula'') recs \<noteq> [] \<and>
          f = locate fs (wide_path fmt (ustr ''magic_formula'')) \<and>
          map_of dir f = Some (render fmt (wide_file_payload g (ustr ''magic_formula'')
                                 (wide_map_after repr (ustr ''magic_formula'') recs)))) \<or>
         (wide_buckets repr (ustr ''volume'') recs \<noteq> [] \<and>
          f = locate fs (wide_path fmt (ustr ''volume'')) \<and>
          map_of dir f = Some (render fmt (wide_file_payload g (ustr ''volume'')
                                 (wide_map_after repr (ustr ''volume'') recs)))) \<or>
         (\<exists>b\<in>set (ticker_buckets repr recs). map_of dir f = Some (snd (bucket_file fs fmt g b)) \<and>
            fst (bucket_file fs fmt g b) = f) \<or>
         (f \<notin> locate fs ` set (output_paths fmt repr recs) \<and> map_of dir f = map_of dir0 f)"
proof -
  let ?M = "wide_file fs fmt g (ustr ''magic_formula'') (wide_map_after repr (ustr ''magic_formula'') recs)"
  let ?V = "wide_file fs fmt g (ustr ''volume'') (wide_map_after repr (ustr ''volume'') recs)"
  let ?T = "map (bucket_file fs fmt g) (ticker_buckets repr recs)"
  note eq = grouper_files [OF assms]
  have paths: "locate fs ` set (output_paths fmt repr recs) =
                 fst ` set ?T \<union> fst ` set ?V \<union> fst ` set ?M"
  proof -
    have t: "fst ` set ?T =
               locate fs ` (\<lambda>b. ticker_path fmt (fst (fst b)) (snd (fst b))) ` set (ticker_buckets repr recs)"
      by (simp add: bucket_file_def image_image)
    have w: "fst ` set (wide_file fs fmt g name (wide_map_after repr name recs)) =
               (if wide_buckets repr name recs \<noteq> [] then {locate fs (wide_path fmt name)} else {})" for name
      by (simp add: wide_file_def wide_map_after_empty)
    show ?thesis unfolding t w by (simp add: output_paths_def image_Un)
  qed
  show ?thesis
  proof (cases "f \<in> fst ` set ?M")
    case True
    then have "wide_buckets repr (ustr ''magic_formula'') recs \<noteq> []"
      and "f = locate fs (wide_path fmt (ustr ''magic_formula''))"
      by (auto simp: wide_file_def wide_map_after_empty split: if_splits)
    moreover from this have "map_of ?M f = Some (render fmt (wide_file_payload g (ustr ''magic_formula'')
                                 (wide_map_after repr (ustr ''magic_formula'') recs)))"
      by (simp add: wide_file_def wide_map_after_empty)
    then have "map_of dir f = Some (render fmt (wide_file_payload g (ustr ''magic_formula'')
                                 (wide_map_after repr (ustr ''magic_formula'') recs)))"
      unfolding eq by (simp add: map_add_def)
    ultimately show ?thesis by blast
  next
    case nm: False
    then have m0: "map_of ?M f = None" by (simp add: map_of_eq_None_iff)
    show ?thesis
    proof (cases "f \<in> fst ` set ?V")
      case True
      then have "wide_buckets repr (ustr ''volume'') recs \<noteq> []"
        and "f = locate fs (wide_path fmt (ustr ''volume''))"
        by (auto simp: wide_file_def wide_map_after_empty split: if_splits)
      moreover from this have "map_of ?V f = Some (render fmt (wide_file_payload g (ustr ''volume'')
                                 (wide_map_after repr (ustr ''volume'') recs)))"
        by (simp add: wide_file_def wide_map_after_empty)
      then have "map_of dir f = Some (render fmt (wide_file_payload g (ustr ''volume'')
                                 (wide_map_after repr (ustr ''volume'') recs)))"
        unfolding eq using m0 by (simp add: map_add_def)
      ultimately show ?thesis by blast
    next
      case nv: False
      then have v0: "map_of ?V f = None" by (simp add: map_of_eq_None_iff)
      show ?thesis
      proof (cases "f \<in> fst ` set ?T")
        case True
        from map_of_rev_mem [OF this] obtain y where
          y: "map_of (rev ?T) f = Some y" and mem: "(f, y) \<in> set ?T" by blast
        from mem obtain b where b: "b \<in> set (ticker_buckets repr recs)"
          and bf: "bucket_file fs fmt g b = (f, y)" by auto
        have "map_of dir f = Some y"
          unfolding eq using m0 v0 y by (simp add: map_add_def)
        with b bf show ?thesis by force
      next
        case nt: False
        then have "map_of (rev ?T) f = None" by (simp add: map_of_eq_None_iff)
        then have "map_of dir f = map_of dir0 f"
          unfolding eq using m0 v0 by (simp add: map_add_def)
        moreover have "f \<notin> locate fs ` set (output_paths fmt repr recs)"
          unfolding paths using nm nv nt by blast
        ultimately show ?thesis by blast
      qed
    qed
  qed
qed

lemma output_paths_distinct:
  assumes "distinct (map (locate fs) (output_paths fmt repr recs))"
  shows "distinct (map (\<lambda>b. fst (bucket_file fs fmt g b)) (ticker_buckets repr recs))"
    and "b \<in> set (ticker_buckets repr recs) \<Longrightarrow> wide_buckets repr (ustr ''volume'') recs \<noteq> [] \<Longrightarrow>
           fst (bucket_file fs fmt g b) \<noteq> locate fs (wide_path fmt (ustr ''volume''))"
    and "b \<in> set (ticker_buckets repr recs) \<Longrightarrow> wide_buckets repr (ustr ''magic_formula'') recs \<noteq> [] \<Longrightarrow>
           fst (bucket_file fs fmt g b) \<noteq> locate fs (wide_path fmt (ustr ''magic_formula''))"
    and "wide_buckets repr (ustr ''volume'') recs \<noteq> [] \<Longrightarrow>
         wide_buckets repr (ustr ''magic_formula'') recs \<noteq> [] \<Longrightarrow>
           locate fs (wide_path fmt (ustr ''volume'')) \<noteq> locate fs (wide_path fmt (ustr ''magic_formula''))"
  using assms
  by (auto simp: output_paths_def bucket_file_def comp_def image_iff split: if_splits)

lemma file_of_bucket:
  assumes ret: "grouper fs fmt repr g recs dir0 = Inr dir"
    and apart: "distinct (map (locate fs) (output_paths fmt repr recs))"
    and b: "((t, s), xs) \<in> set (by_key repr recs)" and s: "\<not> is_wide s"
  shows "map_of dir (locate fs (ticker_path fmt t s)) =
           Some (render fmt (ticker_payload g t s xs))"
proof -
  let ?b = "((t, s), xs)"
  let ?f = "locate fs (ticker_path fmt t s)"
  have mem: "?b \<in> set (ticker_buckets repr recs)" using b s by (simp add: ticker_bucket_mem)
  have f: "fst (bucket_file fs fmt g ?b) = ?f" by (simp add: bucket_file_def)
  note d = output_paths_distinct(1-3) [OF apart, where g = g]
  from file_cases [OF ret, of ?f] consider
    (m) "wide_buckets repr (ustr ''magic_formula'') recs \<noteq> []"
        "?f = locate fs (wide_path fmt (ustr ''magic_formula''))"
  | (v) "wide_buckets repr (ustr ''volume'') recs \<noteq> []"
        "?f = locate fs (wide_path fmt (ustr ''volume''))"
  | (t) b' where "b' \<in> set (ticker_buckets repr recs)"
        "map_of dir ?f = Some (snd (bucket_file fs fmt g b'))" "fst (bucket_file fs fmt g b') = ?f"
  | (n) "?f \<notin> locate fs ` set (output_paths fmt repr recs)"
    by blast
  then show ?thesis
  proof cases
    case m
    then show ?thesis using d(3) [OF mem] f by simp
  next
    case v
    then show ?thesis using d(2) [OF mem] f by simp
  next
    case t
    have "inj_on (\<lambda>b. fst (bucket_file fs fmt g b)) (set (ticker_buckets repr recs))"
      using d(1) by (simp add: distinct_map)
    moreover have "fst (bucket_file fs fmt g b') = fst (bucket_file fs fmt g ?b)"
      using t(3) f by simp
    ultimately have "b' = ?b" using t(1) mem by (rule inj_onD)
    then show ?thesis using t(2) by (simp add: bucket_file_def)
  next
    case n
    have "ticker_path fmt t s \<in> set (output_paths fmt repr recs)"
      using mem by (force simp: output_paths_def)
    with n show ?thesis by blast
  qed
qed

lemma file_of_wide_map:
  assumes ret: "grouper fs fmt repr g recs dir0 = Inr dir"
    and apart: "\<forall>p\<in>set (output_paths fmt repr recs).
                  p \<noteq> wide_path fmt name \<longrightarrow> locate fs p \<noteq> locate fs (wide_path fmt name)"
    and name: "is_wide name" and ne: "wide_buckets repr name recs \<noteq> []"
  shows "map_of dir (locate fs (wide_path fmt name)) =
           Some (render fmt (wide_file_payload g name (wide_map_after repr name recs)))"
proof -
  let ?f = "locate fs (wide_path fmt name)"
  have own: "wide_path fmt name \<in> set (output_paths fmt repr recs)"
    using name ne by (auto simp: output_paths_def is_wide_def)
  have other: "wide_path fmt (ustr ''volume'') \<noteq> wide_path fmt (ustr ''magic_formula'')"
    by (simp add: wide_path_def ustr_def)
  have tp: "ticker_path fmt t s \<noteq> wide_path fmt name" if "\<not> is_wide s" for t s
  proof
    assume "ticker_path fmt t s = wide_path fmt name"
    then have "py_lower t @ ustr ''.'' @ s = name"
      by (simp add: ticker_path_def wide_path_def)
    then have "46 \<in> set name" by (auto simp: ustr_def)
    then show False using name by (auto simp: is_wide_def ustr_def)
  qed
  from file_cases [OF ret, of ?f] consider
    (m) "wide_buckets repr (ustr ''magic_formula'') recs \<noteq> []"
        "?f = locate fs (wide_path fmt (ustr ''magic_formula''))"
        "map_of dir ?f = Some (render fmt (wide_file_payload g (ustr ''magic_formula'')
                                 (wide_map_after repr (ustr ''magic_formula'') recs)))"
  | (v) "wide_buckets repr (ustr ''volume'') recs \<noteq> []"
        "?f = locate fs (wide_path fmt (ustr ''volume''))"
        "map_of dir ?f = Some (render fmt (wide_file_payload g (ustr ''volume'')
                                 (wide_map_after repr (ustr ''volume'') recs)))"
  | (t) b' where "b' \<in> set (ticker_buckets repr recs)" "fst (bucket_file fs fmt g b') = ?f"
  | (n) "?f \<notin> locate fs ` set (output_paths fmt repr recs)"
    by blast
  then show ?thesis
  proof cases
    case m
    have "wide_path fmt (ustr ''magic_formula'') \<in> set (output_paths fmt repr recs)"
      using m(1) by (simp add: output_paths_def)
    then have "name = ustr ''magic_formula''"
      using apart m(2) name other by (auto simp: is_wide_def)
    then show ?thesis using m(3) by simp
  next
    case v
    have "wide_path fmt (ustr ''volume'') \<in> set (output_paths fmt repr recs)"
      using v(1) by (simp add: output_paths_def)
    then have "name = ustr ''volume''"
      using apart v(2) name other by (auto simp: is_wide_def)
    then show ?thesis using v(3) by simp
  next
    case t
    let ?p = "ticker_path fmt (fst (fst b')) (snd (fst b'))"
    have "?p \<in> set (output_paths fmt repr recs)" using t(1) by (force simp: output_paths_def)
    moreover have "?p \<noteq> wide_path fmt name" using tp t(1) by (simp add: ticker_bucket_mem)
    moreover have "locate fs ?p = ?f" using t(2) by (simp add: bucket_file_def)
    ultimately show ?thesis using apart by blast
  next
    case n
    with own show ?thesis by blast
  qed
qed

lemma dicts_map: "dicts (map JDict xs) = xs"
  by (induction xs) (simp_all add: dicts_def List.map_filter_simps)

lemma file_records_ticker: "file_records (render fmt (ticker_payload g t s xs)) = xs"
  by (cases fmt)
    (simp_all add: file_records_def render_def payload_of_def ticker_payload_def dict_get_def
      dicts_map ustr_def)

lemma entry_records_wide:
  assumes "\<forall>x\<in>set xs. map_of x (ustr ''source'') \<noteq> None"
  shows "entry_records (wide_payload xs) = xs"
proof (cases xs)
  case Nil
  then show ?thesis by (simp add: wide_payload_def entry_records_def dicts_def List.map_filter_simps)
next
  case (Cons x ys)
  show ?thesis
  proof (cases ys)
    case Nil
    have "map_of x (ustr ''source'') \<noteq> None" using assms Cons by simp
    then have "ustr ''source'' \<in> fst ` set x" by (simp add: map_of_eq_None_iff)
    then have "ustr ''source'' \<in> set (map fst x)" by simp
    moreover have "ustr ''source'' \<noteq> ustr ''items''" by (simp add: ustr_def)
    ultimately have "map fst x \<noteq> [ustr ''items'']" by auto
    then show ?thesis using Cons Nil by (simp add: wide_payload_def entry_records_def)
  next
    case (Cons y zs)
    then show ?thesis using \<open>xs = x # ys\<close>
      by (simp add: wide_payload_def entry_records_def dicts_map [of "x # y # zs", simplified])
  qed
qed

lemma wide_not_data: "is_wide name \<Longrightarrow> name \<noteq> ustr ''data''"
  by (auto simp: is_wide_def ustr_def)

lemma wide_bucket_records:
  assumes "b \<in> set (wide_buckets repr name recs)" and "is_wide name"
  shows "\<forall>x\<in>set (snd b). map_of x (ustr ''source'') \<noteq> None"
proof
  fix x assume x: "x \<in> set (snd b)"
  have mem: "(fst b, snd b) \<in> set (by_key repr recs)" and n: "snd (fst b) = name"
    using assms(1) by (simp_all add: wide_bucket_mem)
  from mem have "snd b = filter (\<lambda>r. record_key repr r = fst b) recs" by (rule bucket_contents(1))
  with x have "record_key repr x = fst b" by auto
  then have "snd (record_key repr x) \<noteq> ustr ''data''" using n wide_not_data [OF assms(2)] by simp
  then show "map_of x (ustr ''source'') \<noteq> None" using record_key_sentinels(2) by blast
qed

lemma file_records_wide:
  assumes "is_wide name"
  shows "file_records (render fmt (wide_file_payload g name (wide_map_after repr name recs))) =
           concat (map snd (wide_buckets repr name recs))"
proof -
  have "map (\<lambda>e. entry_records (snd e)) (wide_map_after repr name recs) =
          map snd (wide_buckets repr name recs)"
    unfolding wide_map_after_def
    using entry_records_wide [OF wide_bucket_records [OF _ assms]] by (simp add: comp_def)
  then show ?thesis
    by (cases fmt)
      (simp_all add: file_records_def render_def payload_of_def wide_file_payload_def dict_get_def
        ustr_def)
qed

lemma in_bucket_iff:
  assumes "r \<in> set recs" and "b \<in> set (by_key repr recs)"
  shows "r \<in> set (snd b) \<longleftrightarrow> fst b = record_key repr r"
proof -
  have "(fst b, snd b) \<in> set (by_key repr recs)" using assms(2) by simp
  then have "snd b = filter (\<lambda>x. record_key repr x = fst b) recs" by (rule bucket_contents(1))
  then show ?thesis using assms(1) by auto
qed

lemma wide_payload_explicit:
  "xs \<noteq> [] \<Longrightarrow> wide_payload xs =
     (if length xs = 1 then JDict (hd xs) else JDict [(ustr ''items'', JList (map JDict xs))])"
  by (cases xs; cases "tl xs") (auto simp: wide_payload_def)

lemma ticker_path_not_wide:
  assumes "is_wide name"
  shows "ticker_path fmt t s \<noteq> wide_path fmt name"
proof
  assume "ticker_path fmt t s = wide_path fmt name"
  then have "py_lower t @ ustr ''.'' @ s = name"
    by (simp add: ticker_path_def wide_path_def)
  then have "46 \<in> set name" by (auto simp: ustr_def)
  then show False using assms by (auto simp: is_wide_def ustr_def)
qed

lemma wide_path_inj: "wide_path fmt a = wide_path fmt b \<longleftrightarrow> a = b"
  by (simp add: wide_path_def)

lemma distinct_apart:
  assumes "distinct (map f xs)" and "x \<in> set xs"
  shows "\<forall>p\<in>set xs. p \<noteq> x \<longrightarrow> f p \<noteq> f x"
  using assms by (auto simp: distinct_map dest: inj_onD)

lemma wide_path_written:
  assumes "((t, name), xs) \<in> set (by_key repr recs)" and "is_wide name"
  shows "wide_buckets repr name recs \<noteq> []"
    and "wide_path fmt name \<in> set (output_paths fmt repr recs)"
proof -
  have "((t, name), xs) \<in> set (wide_buckets repr name recs)"
    using assms(1) by (simp add: wide_bucket_mem)
  then show ne: "wide_buckets repr name recs \<noteq> []" by auto
  then show "wide_path fmt name \<in> set (output_paths fmt repr recs)"
    using assms(2) by (auto simp: output_paths_def is_wide_def)
qed

text \<open>
  C3, amended. After a run in which no \<open>write_text\<close> raises and no two outputs are
  one file: a bucket of the source \<open>volume\<close> or \<open>magic_formula\<close> is in the wide file
  of its source, under \<open>items\<close> and there under its ticker, with the record itself as
  payload when it holds exactly one record and with the wrapper \<open>{"items": [...]}\<close>
  around the ordered records when it holds more. Every other bucket is in its own
  file, and its payload is always the envelope with the ordered records under
  \<open>items\<close>, also for one record. No bucket is empty.
\<close>

theorem bucket_payloads:
  assumes "grouper fs output_format repr generated_at recs dir0 = Inr dir"
    and "distinct (map (locate fs) (output_paths output_format repr recs))"
    and "((t, s), xs) \<in> set (by_key repr recs)"
  shows "xs \<noteq> [] \<and>
         (is_wide s \<longrightarrow>
            (\<exists>m. map_of dir (locate fs (wide_path output_format s)) =
                    Some (render output_format
                      (JDict [(ustr ''generated_at'', JStr generated_at),
                              (ustr ''source'', JStr s),
                              (ustr ''items'', JDict m)])) \<and>
                  map_of m t =
                    Some (if length xs = 1 then JDict (hd xs)
                          else JDict [(ustr ''items'', JList (map JDict xs))]))) \<and>
         (\<not> is_wide s \<longrightarrow>
            map_of dir (locate fs (ticker_path output_format t s)) =
              Some (render output_format
                (JDict [(ustr ''generated_at'', JStr generated_at),
                        (ustr ''ticker'', JStr t),
                        (ustr ''source'', JStr s),
                        (ustr ''items'', JList (map JDict xs))])))"
proof -
  have ne: "xs \<noteq> []" using assms(3) by (rule bucket_contents(2))
  have w: "\<exists>m. map_of dir (locate fs (wide_path output_format s)) =
                    Some (render output_format
                      (JDict [(ustr ''generated_at'', JStr generated_at),
                              (ustr ''source'', JStr s),
                              (ustr ''items'', JDict m)])) \<and>
                  map_of m t =
                    Some (if length xs = 1 then JDict (hd xs)
                          else JDict [(ustr ''items'', JList (map JDict xs))])"
    if s: "is_wide s"
  proof -
    note wp = wide_path_written [OF assms(3) s]
    have "map_of dir (locate fs (wide_path output_format s)) =
            Some (render output_format
              (wide_file_payload generated_at s (wide_map_after repr s recs)))"
      using assms(1) distinct_apart [OF assms(2) wp(2)] s wp(1) by (rule file_of_wide_map)
    moreover have "map_of (wide_map_after repr s recs) t =
        Some (if length xs = 1 then JDict (hd xs) else JDict [(ustr ''items'', JList (map JDict xs))])"
      using wide_lookup [OF assms(3)] wide_payload_explicit [OF ne] by simp
    ultimately show ?thesis unfolding wide_file_payload_def by blast
  qed
  have t: "map_of dir (locate fs (ticker_path output_format t s)) =
              Some (render output_format
                (JDict [(ustr ''generated_at'', JStr generated_at),
                        (ustr ''ticker'', JStr t),
                        (ustr ''source'', JStr s),
                        (ustr ''items'', JList (map JDict xs))]))"
    if s: "\<not> is_wide s"
    using file_of_bucket [OF assms(1) assms(2) assms(3) s] unfolding ticker_payload_def .
  from ne w t show ?thesis by blast
qed

lemma records_of_ticker_file:
  assumes "grouper fs fmt repr g recs dir0 = Inr dir"
    and "distinct (map (locate fs) (output_paths fmt repr recs))"
    and "b \<in> set (ticker_buckets repr recs)"
  shows "records_at dir (locate fs (ticker_path fmt (fst (fst b)) (snd (fst b)))) = snd b"
proof -
  have "((fst (fst b), snd (fst b)), snd b) \<in> set (by_key repr recs)" "\<not> is_wide (snd (fst b))"
    using assms(3) by (simp_all add: ticker_bucket_mem)
  from file_of_bucket [OF assms(1) assms(2) this] show ?thesis
    by (simp add: records_at_def file_records_ticker)
qed

lemma records_of_wide_file:
  assumes "grouper fs fmt repr g recs dir0 = Inr dir"
    and "\<forall>p\<in>set (output_paths fmt repr recs).
           p \<noteq> wide_path fmt name \<longrightarrow> locate fs p \<noteq> locate fs (wide_path fmt name)"
    and "is_wide name" and "wide_buckets repr name recs \<noteq> []"
  shows "records_at dir (locate fs (wide_path fmt name)) =
           concat (map snd (wide_buckets repr name recs))"
  using file_of_wide_map [OF assms] by (simp add: records_at_def file_records_wide [OF assms(3)])

lemma wide_path_in_outputs:
  "wide_buckets repr name recs \<noteq> [] \<Longrightarrow> is_wide name \<Longrightarrow>
     wide_path fmt name \<in> set (output_paths fmt repr recs)"
  by (auto simp: output_paths_def is_wide_def)

lemma buckets_split:
  "mset (concat (map snd (filter (\<lambda>b. \<not> is_wide (snd (fst b))) bs))) +
   mset (concat (map snd (filter (\<lambda>b. snd (fst b) = ustr ''volume'') bs))) +
   mset (concat (map snd (filter (\<lambda>b. snd (fst b) = ustr ''magic_formula'') bs))) =
   mset (concat (map snd bs))"
proof -
  have ne: "ustr ''magic_formula'' \<noteq> ustr ''volume''" by (simp add: ustr_def)
  show ?thesis by (induction bs) (auto simp: is_wide_def ne ac_simps)
qed

lemma sorted_buckets_mset:
  "mset (concat (map snd (sort_key fst bs))) = mset (concat (map snd bs))"
proof -
  have "mset (map (\<lambda>b. mset (snd b)) (sort_key fst bs)) = mset (map (\<lambda>b. mset (snd b)) bs)"
    by simp
  then have "sum_mset (mset (map (\<lambda>b. mset (snd b)) (sort_key fst bs))) =
             sum_mset (mset (map (\<lambda>b. mset (snd b)) bs))"
    by (rule arg_cong)
  then show ?thesis by (simp only: sum_mset_sum_list mset_concat map_map comp_def)
qed

lemma outputs_mset:
  assumes ret: "grouper fs fmt repr g recs dir0 = Inr dir"
    and apart: "distinct (map (locate fs) (output_paths fmt repr recs))"
  shows "mset (concat (map (\<lambda>p. records_at dir (locate fs p)) (output_paths fmt repr recs))) =
           mset recs"
proof -
  let ?R = "\<lambda>p. records_at dir (locate fs p)"
  have t: "map ?R (map (\<lambda>b. ticker_path fmt (fst (fst b)) (snd (fst b))) (ticker_buckets repr recs)) =
             map snd (ticker_buckets repr recs)"
    using records_of_ticker_file [OF ret apart] by simp
  have w: "concat (map ?R (if wide_buckets repr name recs \<noteq> [] then [wide_path fmt name] else [])) =
             concat (map snd (wide_buckets repr name recs))" if name: "is_wide name" for name
  proof (cases "wide_buckets repr name recs = []")
    case True
    then show ?thesis by simp
  next
    case False
    note own = wide_path_in_outputs [OF False name]
    show ?thesis
      using records_of_wide_file [OF ret distinct_apart [OF apart own] name False] False by simp
  qed
  have v: "is_wide (ustr ''volume'')" and m: "is_wide (ustr ''magic_formula'')"
    by (simp_all add: is_wide_def)
  have "concat (map ?R (output_paths fmt repr recs)) =
          concat (map snd (ticker_buckets repr recs)) @
          concat (map snd (wide_buckets repr (ustr ''volume'') recs)) @
          concat (map snd (wide_buckets repr (ustr ''magic_formula'') recs))"
    unfolding output_paths_def map_append concat_append t w [OF v] w [OF m] ..
  then have "mset (concat (map ?R (output_paths fmt repr recs))) =
               mset (concat (map snd (sort_key fst (by_key repr recs))))"
    using buckets_split [of "sort_key fst (by_key repr recs)"]
    by (simp add: ticker_buckets_def wide_buckets_def ac_simps)
  then show ?thesis by (simp only: sorted_buckets_mset by_key_mset)
qed

lemma output_path_written:
  assumes "r \<in> set recs"
  shows "output_path fmt (record_key repr r) \<in> set (output_paths fmt repr recs)"
proof -
  let ?k = "record_key repr r"
  note b = bucket_exists [OF assms, of repr]
  show ?thesis
  proof (cases "is_wide (snd ?k)")
    case True
    have "((fst ?k, snd ?k), filter (\<lambda>x. record_key repr x = ?k) recs) \<in> set (by_key repr recs)"
      using b by simp
    from wide_path_written(2) [OF this True] show ?thesis using True by (simp add: output_path_def)
  next
    case False
    have "(?k, filter (\<lambda>x. record_key repr x = ?k) recs) \<in> set (ticker_buckets repr recs)"
      using b False by (simp add: ticker_bucket_mem)
    then show ?thesis using False by (force simp: output_path_def output_paths_def)
  qed
qed

lemma output_holds_iff:
  assumes ret: "grouper fs fmt repr g recs dir0 = Inr dir"
    and apart: "distinct (map (locate fs) (output_paths fmt repr recs))"
    and r: "r \<in> set recs" and p: "p \<in> set (output_paths fmt repr recs)"
  shows "r \<in> set (records_at dir (locate fs p)) \<longleftrightarrow> p = output_path fmt (record_key repr r)"
proof -
  let ?k = "record_key repr r"
  have inj: "inj_on (locate fs) (set (output_paths fmt repr recs))"
    and dp: "distinct (output_paths fmt repr recs)"
    using apart by (simp_all add: distinct_map)
  have wide_case: ?thesis
    if name: "is_wide name" and ne: "wide_buckets repr name recs \<noteq> []" and pn: "p = wide_path fmt name"
    for name
  proof -
    note own = wide_path_in_outputs [OF ne name]
    have "r \<in> set (records_at dir (locate fs p)) \<longleftrightarrow>
            (\<exists>b\<in>set (wide_buckets repr name recs). r \<in> set (snd b))"
      unfolding pn records_of_wide_file [OF ret distinct_apart [OF apart own] name ne] by auto
    also have "\<dots> \<longleftrightarrow> snd ?k = name"
    proof
      assume "\<exists>b\<in>set (wide_buckets repr name recs). r \<in> set (snd b)"
      then obtain b where b: "b \<in> set (by_key repr recs)" "snd (fst b) = name" "r \<in> set (snd b)"
        by (auto simp: wide_bucket_mem)
      then show "snd ?k = name" using in_bucket_iff [OF r b(1)] by simp
    next
      assume "snd ?k = name"
      then have "(?k, filter (\<lambda>x. record_key repr x = ?k) recs) \<in> set (wide_buckets repr name recs)"
        using bucket_exists [OF r, of repr] by (simp add: wide_bucket_mem)
      moreover have "r \<in> set (filter (\<lambda>x. record_key repr x = ?k) recs)" using r by simp
      ultimately show "\<exists>b\<in>set (wide_buckets repr name recs). r \<in> set (snd b)" by force
    qed
    also have "\<dots> \<longleftrightarrow> p = output_path fmt ?k"
      unfolding pn output_path_def
      using name ticker_path_not_wide [OF name, of fmt "fst ?k" "snd ?k"]
      by (auto simp: wide_path_inj)
    finally show ?thesis .
  qed
  from p consider
    (t) b where "b \<in> set (ticker_buckets repr recs)" "p = ticker_path fmt (fst (fst b)) (snd (fst b))"
  | (v) "wide_buckets repr (ustr ''volume'') recs \<noteq> []" "p = wide_path fmt (ustr ''volume'')"
  | (m) "wide_buckets repr (ustr ''magic_formula'') recs \<noteq> []" "p = wide_path fmt (ustr ''magic_formula'')"
    by (auto simp: output_paths_def split: if_splits)
  then show ?thesis
  proof cases
    case t
    have bk: "b \<in> set (by_key repr recs)" and nw: "\<not> is_wide (snd (fst b))"
      using t(1) by (simp_all add: ticker_bucket_mem)
    have "r \<in> set (records_at dir (locate fs p)) \<longleftrightarrow> fst b = ?k"
      unfolding t(2) records_of_ticker_file [OF ret apart t(1)] using in_bucket_iff [OF r bk] .
    also have "\<dots> \<longleftrightarrow> p = output_path fmt ?k"
    proof
      assume "fst b = ?k"
      then show "p = output_path fmt ?k" using nw t(2) by (simp add: output_path_def)
    next
      assume eq: "p = output_path fmt ?k"
      have w: "\<not> is_wide (snd ?k)"
      proof
        assume "is_wide (snd ?k)"
        then show False using eq t(2) ticker_path_not_wide [of "snd ?k" fmt]
          by (auto simp: output_path_def)
      qed
      let ?b = "(?k, filter (\<lambda>x. record_key repr x = ?k) recs)"
      have mem: "?b \<in> set (ticker_buckets repr recs)"
        using bucket_exists [OF r, of repr] w by (simp add: ticker_bucket_mem)
      have "distinct (map (\<lambda>b. ticker_path fmt (fst (fst b)) (snd (fst b))) (ticker_buckets repr recs))"
        using dp by (simp add: output_paths_def)
      then have "inj_on (\<lambda>b. ticker_path fmt (fst (fst b)) (snd (fst b))) (set (ticker_buckets repr recs))"
        by (simp add: distinct_map)
      moreover have "ticker_path fmt (fst (fst b)) (snd (fst b)) =
                     ticker_path fmt (fst (fst ?b)) (snd (fst ?b))"
        using eq t(2) w by (simp add: output_path_def)
      ultimately have "b = ?b" using t(1) mem by (rule inj_onD)
      then show "fst b = ?k" by simp
    qed
    finally show ?thesis .
  next
    case v
    show ?thesis using wide_case [OF _ v] by (simp add: is_wide_def)
  next
    case m
    show ?thesis using wide_case [OF _ m] by (simp add: is_wide_def)
  qed
qed

lemma single_bucket:
  assumes "r \<in> set xs" and "length xs = 1"
  shows "hd xs = r"
  using assms by (cases xs) auto

lemma placed_in_file:
  assumes ret: "grouper fs fmt repr g recs dir0 = Inr dir"
    and apart: "distinct (map (locate fs) (output_paths fmt repr recs))"
    and r: "r \<in> set recs" and k: "record_key repr r = (t, s)" and s: "\<not> is_wide s"
  shows "map_of dir (locate fs (ticker_path fmt t s)) =
           Some (render fmt
             (JDict [(ustr ''generated_at'', JStr g),
                     (ustr ''ticker'', JStr t),
                     (ustr ''source'', JStr s),
                     (ustr ''items'', JList (map JDict (filter (\<lambda>x. record_key repr x = (t, s)) recs)))]))"
proof -
  have "((t, s), filter (\<lambda>x. record_key repr x = (t, s)) recs) \<in> set (by_key repr recs)"
    using bucket_exists [OF r, of repr] k by simp
  from file_of_bucket [OF ret apart this s] show ?thesis unfolding ticker_payload_def .
qed

lemma placed_in_wide_map:
  assumes ret: "grouper fs fmt repr g recs dir0 = Inr dir"
    and apart: "\<forall>p\<in>set (output_paths fmt repr recs).
                  p \<noteq> wide_path fmt s \<longrightarrow> locate fs p \<noteq> locate fs (wide_path fmt s)"
    and r: "r \<in> set recs" and k: "record_key repr r = (t, s)" and s: "is_wide s"
  shows "map_of dir (locate fs (wide_path fmt s)) =
           Some (render fmt
             (JDict [(ustr ''generated_at'', JStr g),
                     (ustr ''source'', JStr s),
                     (ustr ''items'', JDict (wide_map_after repr s recs))]))"
    and "map_of (wide_map_after repr s recs) t =
           Some (if length (filter (\<lambda>x. record_key repr x = (t, s)) recs) = 1 then JDict r
                 else JDict [(ustr ''items'',
                        JList (map JDict (filter (\<lambda>x. record_key repr x = (t, s)) recs)))])"
    and "\<forall>e\<in>set (wide_map_after repr s recs). fst e \<noteq> t \<longrightarrow> r \<notin> set (entry_records (snd e))"
    and "distinct (map fst (wide_map_after repr s recs))"
proof -
  let ?xs = "filter (\<lambda>x. record_key repr x = (t, s)) recs"
  have b: "((t, s), ?xs) \<in> set (by_key repr recs)"
    using bucket_exists [OF r, of repr] k by simp
  have rx: "r \<in> set ?xs" using r k by simp
  note wp = wide_path_written [OF b s]
  show "map_of dir (locate fs (wide_path fmt s)) =
           Some (render fmt
             (JDict [(ustr ''generated_at'', JStr g),
                     (ustr ''source'', JStr s),
                     (ustr ''items'', JDict (wide_map_after repr s recs))]))"
    using file_of_wide_map [OF ret apart s wp(1)] unfolding wide_file_payload_def .
  have ne: "?xs \<noteq> []" using rx by (metis empty_iff empty_set)
  show "map_of (wide_map_after repr s recs) t =
           Some (if length ?xs = 1 then JDict r else JDict [(ustr ''items'', JList (map JDict ?xs))])"
    using wide_lookup [OF b] wide_payload_explicit [OF ne] single_bucket [OF rx] by simp
  show "\<forall>e\<in>set (wide_map_after repr s recs). fst e \<noteq> t \<longrightarrow> r \<notin> set (entry_records (snd e))"
  proof (intro ballI impI)
    fix e assume e: "e \<in> set (wide_map_after repr s recs)" and ne: "fst e \<noteq> t"
    from wide_entry [OF e] obtain ys where ys: "((fst e, s), ys) \<in> set (by_key repr recs)"
      and p: "snd e = wide_payload ys" by blast
    have "((fst e, s), ys) \<in> set (wide_buckets repr s recs)" using ys by (simp add: wide_bucket_mem)
    from wide_bucket_records [OF this s] have "entry_records (wide_payload ys) = ys"
      by (simp add: entry_records_wide)
    moreover have "r \<notin> set ys" using in_bucket_iff [OF r ys] k ne by auto
    ultimately show "r \<notin> set (entry_records (snd e))" using p by simp
  qed
  show "distinct (map fst (wide_map_after repr s recs))"
    using wide_tickers_distinct [of repr s recs] by (simp add: wide_map_after_def comp_def)
qed


lemma record_output:
  assumes ret: "grouper fs output_format repr generated_at recs dir0 = Inr dir"
    and apart: "distinct (map (locate fs) (output_paths output_format repr recs))"
    and r: "r \<in> set recs"
  shows "(output_path output_format (record_key repr r) \<in> set (output_paths output_format repr recs) \<and>
         (\<forall>p\<in>set (output_paths output_format repr recs).
            r \<in> set (records_at dir (locate fs p)) \<longleftrightarrow>
              p = output_path output_format (record_key repr r)) \<and>
         (\<not> is_wide (snd (record_key repr r)) \<longrightarrow>
            map_of dir (locate fs (ticker_path output_format (fst (record_key repr r))
                                     (snd (record_key repr r)))) =
              Some (render output_format
                (JDict [(ustr ''generated_at'', JStr generated_at),
                        (ustr ''ticker'', JStr (fst (record_key repr r))),
                        (ustr ''source'', JStr (snd (record_key repr r))),
                        (ustr ''items'', JList (map JDict
                           (filter (\<lambda>x. record_key repr x = record_key repr r) recs)))]))) \<and>
         (is_wide (snd (record_key repr r)) \<longrightarrow>
            (\<exists>m. map_of dir (locate fs (wide_path output_format (snd (record_key repr r)))) =
                    Some (render output_format
                      (JDict [(ustr ''generated_at'', JStr generated_at),
                              (ustr ''source'', JStr (snd (record_key repr r))),
                              (ustr ''items'', JDict m)])) \<and>
                  map_of m (fst (record_key repr r)) =
                    Some (if length (filter (\<lambda>x. record_key repr x = record_key repr r) recs) = 1
                          then JDict r
                          else JDict [(ustr ''items'', JList (map JDict
                                 (filter (\<lambda>x. record_key repr x = record_key repr r) recs)))]))))"
proof (intro conjI)
  show "output_path output_format (record_key repr r) \<in> set (output_paths output_format repr recs)"
    using r by (rule output_path_written)
  show "\<forall>p\<in>set (output_paths output_format repr recs).
          r \<in> set (records_at dir (locate fs p)) \<longleftrightarrow>
            p = output_path output_format (record_key repr r)"
    using output_holds_iff [OF ret apart r] by blast
  have k: "record_key repr r = (fst (record_key repr r), snd (record_key repr r))" by simp
  show "\<not> is_wide (snd (record_key repr r)) \<longrightarrow>
          map_of dir (locate fs (ticker_path output_format (fst (record_key repr r))
                                   (snd (record_key repr r)))) =
            Some (render output_format
              (JDict [(ustr ''generated_at'', JStr generated_at),
                      (ustr ''ticker'', JStr (fst (record_key repr r))),
                      (ustr ''source'', JStr (snd (record_key repr r))),
                      (ustr ''items'', JList (map JDict
                         (filter (\<lambda>x. record_key repr x = record_key repr r) recs)))]))"
    using placed_in_file [OF ret apart r k] by simp
  show "is_wide (snd (record_key repr r)) \<longrightarrow>
          (\<exists>m. map_of dir (locate fs (wide_path output_format (snd (record_key repr r)))) =
                  Some (render output_format
                    (JDict [(ustr ''generated_at'', JStr generated_at),
                            (ustr ''source'', JStr (snd (record_key repr r))),
                            (ustr ''items'', JDict m)])) \<and>
                map_of m (fst (record_key repr r)) =
                  Some (if length (filter (\<lambda>x. record_key repr x = record_key repr r) recs) = 1
                        then JDict r
                        else JDict [(ustr ''items'', JList (map JDict
                               (filter (\<lambda>x. record_key repr x = record_key repr r) recs)))]))"
  proof
    assume w: "is_wide (snd (record_key repr r))"
    have own: "wide_path output_format (snd (record_key repr r)) \<in> set (output_paths output_format repr recs)"
      using output_path_written [OF r, of output_format repr] w by (simp add: output_path_def)
    note pl = placed_in_wide_map(1,2) [OF ret distinct_apart [OF apart own] r k w]
    show "\<exists>m. map_of dir (locate fs (wide_path output_format (snd (record_key repr r)))) =
                  Some (render output_format
                    (JDict [(ustr ''generated_at'', JStr generated_at),
                            (ustr ''source'', JStr (snd (record_key repr r))),
                            (ustr ''items'', JDict m)])) \<and>
                map_of m (fst (record_key repr r)) =
                  Some (if length (filter (\<lambda>x. record_key repr x = record_key repr r) recs) = 1
                        then JDict r
                        else JDict [(ustr ''items'', JList (map JDict
                               (filter (\<lambda>x. record_key repr x = record_key repr r) recs)))])"
      using pl by (intro exI [of _ "wide_map_after repr (snd (record_key repr r)) recs"]) simp
  qed
qed

text \<open>
  C6, amended. The buckets of the first loop are a partition of the input: together
  they hold the input records, each as often as the input does, so their sizes add up
  to the number of records; their keys are distinct and a record is in the bucket of
  its own key and in no other; a record without \<open>ticker\<close> or \<open>source\<close> is keyed under
  \<open>UNKNOWN\<close> or \<open>data\<close>. After a run in which no \<open>write_text\<close> raises and no two
  outputs are one file, the files written are a partition too: read back, they hold
  the input records, each as often as the input does; a record is in the file of its
  own key and in no other output; that file is the envelope of its bucket, with the
  bucket's records in input order under \<open>items\<close>, or the wide file of its source,
  where its ticker has the record itself, if it is the only one of its bucket, and
  otherwise the wrapper around the bucket's records.
\<close>

theorem grouping_partition:
  "mset (concat (map snd (by_key repr recs))) = mset recs \<and>
   sum_list (map (\<lambda>b. length (snd b)) (by_key repr recs)) = length recs \<and>
   distinct (map fst (by_key repr recs)) \<and>
   (\<forall>r\<in>set recs. \<forall>b\<in>set (by_key repr recs). r \<in> set (snd b) \<longleftrightarrow> fst b = record_key repr r) \<and>
   (\<forall>r\<in>set recs. \<exists>b\<in>set (by_key repr recs). r \<in> set (snd b)) \<and>
   (\<forall>r. map_of r (ustr ''ticker'') = None \<longrightarrow> fst (record_key repr r) = ustr ''UNKNOWN'') \<and>
   (\<forall>r. map_of r (ustr ''source'') = None \<longrightarrow> snd (record_key repr r) = ustr ''data'') \<and>
   (grouper fs output_format repr generated_at recs dir0 = Inr dir \<and>
    distinct (map (locate fs) (output_paths output_format repr recs)) \<longrightarrow>
      mset (concat (map (\<lambda>p. records_at dir (locate fs p)) (output_paths output_format repr recs))) =
        mset recs \<and>
      sum_list (map (\<lambda>p. length (records_at dir (locate fs p))) (output_paths output_format repr recs)) =
        length recs \<and>
      (\<forall>r\<in>set recs.
         output_path output_format (record_key repr r) \<in> set (output_paths output_format repr recs) \<and>
         (\<forall>p\<in>set (output_paths output_format repr recs).
            r \<in> set (records_at dir (locate fs p)) \<longleftrightarrow>
              p = output_path output_format (record_key repr r)) \<and>
         (\<not> is_wide (snd (record_key repr r)) \<longrightarrow>
            map_of dir (locate fs (ticker_path output_format (fst (record_key repr r))
                                     (snd (record_key repr r)))) =
              Some (render output_format
                (JDict [(ustr ''generated_at'', JStr generated_at),
                        (ustr ''ticker'', JStr (fst (record_key repr r))),
                        (ustr ''source'', JStr (snd (record_key repr r))),
                        (ustr ''items'', JList (map JDict
                           (filter (\<lambda>x. record_key repr x = record_key repr r) recs)))]))) \<and>
         (is_wide (snd (record_key repr r)) \<longrightarrow>
            (\<exists>m. map_of dir (locate fs (wide_path output_format (snd (record_key repr r)))) =
                    Some (render output_format
                      (JDict [(ustr ''generated_at'', JStr generated_at),
                              (ustr ''source'', JStr (snd (record_key repr r))),
                              (ustr ''items'', JDict m)])) \<and>
                  map_of m (fst (record_key repr r)) =
                    Some (if length (filter (\<lambda>x. record_key repr x = record_key repr r) recs) = 1
                          then JDict r
                          else JDict [(ustr ''items'', JList (map JDict
                                 (filter (\<lambda>x. record_key repr x = record_key repr r) recs)))])))))"
  (is "?A \<and> ?B \<and> ?C \<and> ?D \<and> ?E \<and> ?F \<and> ?G \<and>
       (?RET \<and> ?APART \<longrightarrow> ?MS \<and> ?SM \<and> (\<forall>r\<in>set recs. ?PER r))")
proof -
  have c: ?C
    using by_key_ok_fold [of repr recs] unfolding by_key_ok_def by blast
  have d: ?D
    using in_bucket_iff by blast
  have e: ?E
  proof
    fix r assume r: "r \<in> set recs"
    have "r \<in> set (filter (\<lambda>x. record_key repr x = record_key repr r) recs)" using r by simp
    then show "\<exists>b\<in>set (by_key repr recs). r \<in> set (snd b)"
      using bucket_exists [OF r, of repr] by force
  qed
  have f: ?F and g: ?G using record_key_sentinels [of _ repr] by blast+
  have out: "?MS \<and> ?SM \<and> (\<forall>r\<in>set recs. ?PER r)" if ret: ?RET and apart: ?APART
  proof -
    have ms: ?MS using ret apart by (rule outputs_mset)
    have "length (concat (map (\<lambda>p. records_at dir (locate fs p)) (output_paths output_format repr recs))) =
        length recs"
      using ms by (metis size_mset)
    then have sm: ?SM by (simp add: length_concat comp_def)
    have per: "?PER r" if "r \<in> set recs" for r using ret apart that by (rule record_output)
    from ms sm per show ?thesis by blast
  qed
  show ?thesis
    using by_key_mset [of repr recs] by_key_count [of repr recs] c d e f g out
    by blast
qed


text \<open>
  \<open>main\<close> of \<open>scrap.py\<close> returns only if the grouper has returned, and then differs
  from it at most in the file \<open>sharks.json\<close>.
\<close>

lemma scrap_main_Inr:
  assumes "scrap_main fs fmt repr g recs dir0 = Inr dir"
  shows "\<exists>dir'. grouper fs fmt repr g recs dir0 = Inr dir' \<and>
           (\<forall>f. f \<noteq> locate fs (ustr ''sharks.json'') \<longrightarrow> map_of dir f = map_of dir' f)"
  using assms
  by (auto simp: scrap_main_def write_text_def AList.update_conv' split: sum.splits if_splits)

lemmas grouper_eval =
  record_key_def dict_get_def py_or_def py_str_def py_upper_def py_upper_cp_def py_lower_def
  py_lower_cp_def py_strip_def py_isspace_def ustr_def Let_def source_rec_def volume_rec_def
  magic_rec_def insider_rec_def

lemma example_keys:
  "record_key repr (volume_rec ''VALE3'' n) = (ustr ''VALE3'', ustr ''volume'')"
  "record_key repr (volume_rec ''PETR4'' n) = (ustr ''PETR4'', ustr ''volume'')"
  "record_key repr (volume_rec ''C'' n) = (ustr ''C'', ustr ''volume'')"
  "record_key repr (magic_rec ''VALE3'' n) = (ustr ''VALE3'', ustr ''magic_formula'')"
  "record_key repr insider_rec = (ustr ''PETR4'', ustr ''insiders'')"
  "record_key repr [] = (ustr ''UNKNOWN'', ustr ''data'')"
  "record_key repr (source_rec ''c'' ''A.B'') = (ustr ''A.B'', ustr ''c'')"
  "record_key repr (source_rec ''b.c'' ''A'') = (ustr ''A'', ustr ''b.c'')"
  "record_key repr (source_rec ''insiders'' ''A/B'') = (ustr ''A/B'', ustr ''insiders'')"
  by (simp_all add: grouper_eval)

lemma example_paths:
  "ticker_path Json (ustr ''PETR4'') (ustr ''insiders'') = ustr ''petr4.insiders.json''"
  "ticker_path Json (ustr ''UNKNOWN'') (ustr ''data'') = ustr ''unknown.data.json''"
  "ticker_path Json (ustr ''A.B'') (ustr ''c'') = ustr ''a.b.c.json''"
  "ticker_path Json (ustr ''A'') (ustr ''b.c'') = ustr ''a.b.c.json''"
  "ticker_path Json (ustr ''A/B'') (ustr ''insiders'') = ustr ''a/b.insiders.json''"
  "wide_path Json (ustr ''volume'') = ustr ''volume.json''"
  "wide_path Json (ustr ''magic_formula'') = ustr ''magic_formula.json''"
  by (simp_all add: ticker_path_def wide_path_def py_lower_def py_lower_cp_def ustr_def)

lemma shapes_by_key:
  "by_key repr shapes_recs =
     [((ustr ''VALE3'', ustr ''volume''),
         [volume_rec ''VALE3'' 1, volume_rec ''VALE3'' 2, volume_rec ''VALE3'' 3]),
      ((ustr ''PETR4'', ustr ''insiders''), [insider_rec]),
      ((ustr ''PETR4'', ustr ''volume''), [volume_rec ''PETR4'' 7]),
      ((ustr ''UNKNOWN'', ustr ''data''), [[]]),
      ((ustr ''VALE3'', ustr ''magic_formula''), [magic_rec ''VALE3'' 4])]"
proof -
  have ne: "ustr ''VALE3'' \<noteq> ustr ''PETR4''" "ustr ''PETR4'' \<noteq> ustr ''VALE3''"
    "ustr ''insiders'' \<noteq> ustr ''volume''" "ustr ''volume'' \<noteq> ustr ''insiders''"
    "ustr ''UNKNOWN'' \<noteq> ustr ''PETR4''" "ustr ''UNKNOWN'' \<noteq> ustr ''VALE3''"
    "ustr ''data'' \<noteq> ustr ''volume''" "ustr ''data'' \<noteq> ustr ''insiders''"
    "ustr ''PETR4'' \<noteq> ustr ''UNKNOWN''" "ustr ''VALE3'' \<noteq> ustr ''UNKNOWN''"
    "ustr ''volume'' \<noteq> ustr ''data''" "ustr ''insiders'' \<noteq> ustr ''data''"
    "ustr ''magic_formula'' \<noteq> ustr ''volume''" "ustr ''volume'' \<noteq> ustr ''magic_formula''"
    "ustr ''magic_formula'' \<noteq> ustr ''insiders''" "ustr ''insiders'' \<noteq> ustr ''magic_formula''"
    "ustr ''magic_formula'' \<noteq> ustr ''data''" "ustr ''data'' \<noteq> ustr ''magic_formula''"
    by (simp_all add: ustr_def)
  show ?thesis
    by (simp add: by_key_def shapes_recs_def add_item_def example_keys ne)
qed

lemma shapes_sorted:
  "sort_key fst (by_key repr shapes_recs) =
     [((ustr ''PETR4'', ustr ''insiders''), [insider_rec]),
      ((ustr ''PETR4'', ustr ''volume''), [volume_rec ''PETR4'' 7]),
      ((ustr ''UNKNOWN'', ustr ''data''), [[]]),
      ((ustr ''VALE3'', ustr ''magic_formula''), [magic_rec ''VALE3'' 4]),
      ((ustr ''VALE3'', ustr ''volume''),
         [volume_rec ''VALE3'' 1, volume_rec ''VALE3'' 2, volume_rec ''VALE3'' 3])]"
  unfolding shapes_by_key by (simp add: ustr_def)

lemmas run_eval =
  group_step_def write_text_def write_wide_def plain_fs_def flat_fs_def render_def wide_payload_def
  ticker_path_def wide_path_def py_lower_def py_lower_cp_def ustr_def Let_def

lemma shapes_run:
  "grouper plain_fs Json repr g shapes_recs [] =
     Inr [(ustr ''petr4.insiders.json'',
           Json_text (ticker_payload g (ustr ''PETR4'') (ustr ''insiders'') [insider_rec])),
          (ustr ''unknown.data.json'',
           Json_text (ticker_payload g (ustr ''UNKNOWN'') (ustr ''data'') [[]])),
          (ustr ''volume.json'',
           Json_text (wide_file_payload g (ustr ''volume'')
             [(ustr ''PETR4'', JDict (volume_rec ''PETR4'' 7)),
              (ustr ''VALE3'', JDict [(ustr ''items'',
                 JList [JDict (volume_rec ''VALE3'' 1), JDict (volume_rec ''VALE3'' 2),
                        JDict (volume_rec ''VALE3'' 3)])])])),
          (ustr ''magic_formula.json'',
           Json_text (wide_file_payload g (ustr ''magic_formula'')
             [(ustr ''VALE3'', JDict (magic_rec ''VALE3'' 4))]))]"
  unfolding grouper_def shapes_sorted by (simp add: run_eval)

lemma shapes_paths:
  "output_paths Json repr shapes_recs =
     [ustr ''petr4.insiders.json'', ustr ''unknown.data.json'', ustr ''volume.json'',
      ustr ''magic_formula.json'']"
proof -
  have ne: "ustr ''insiders'' \<noteq> ustr ''volume''" "ustr ''insiders'' \<noteq> ustr ''magic_formula''"
    "ustr ''data'' \<noteq> ustr ''volume''" "ustr ''data'' \<noteq> ustr ''magic_formula''"
    "ustr ''magic_formula'' \<noteq> ustr ''volume''" "ustr ''volume'' \<noteq> ustr ''magic_formula''"
    by (simp_all add: ustr_def)
  show ?thesis
    unfolding output_paths_def ticker_buckets_def wide_buckets_def shapes_sorted
    by (simp add: is_wide_def example_paths ne)
qed

lemma shapes_apart: "distinct (map (locate plain_fs) (output_paths Json repr shapes_recs))"
  unfolding shapes_paths by (simp add: plain_fs_def ustr_def)

lemma shapes_run_T0: "grouper plain_fs Json repr (ustr ''T0'') shapes_recs [] = Inr shapes_dir"
  unfolding shapes_run shapes_dir_def ticker_payload_def wide_file_payload_def by simp

lemma shapes_buckets:
  "((ustr ''PETR4'', ustr ''volume''), [volume_rec ''PETR4'' 7]) \<in> set (by_key repr shapes_recs)"
  "((ustr ''VALE3'', ustr ''volume''),
      [volume_rec ''VALE3'' 1, volume_rec ''VALE3'' 2, volume_rec ''VALE3'' 3])
     \<in> set (by_key repr shapes_recs)"
  "((ustr ''VALE3'', ustr ''magic_formula''), [magic_rec ''VALE3'' 4]) \<in> set (by_key repr shapes_recs)"
  "((ustr ''PETR4'', ustr ''insiders''), [insider_rec]) \<in> set (by_key repr shapes_recs)"
  by (simp_all add: shapes_by_key)

lemma example_wide:
  "is_wide (ustr ''volume'')" "is_wide (ustr ''magic_formula'')" "\<not> is_wide (ustr ''insiders'')"
  "\<not> is_wide (ustr ''data'')" "\<not> is_wide (ustr ''c'')" "\<not> is_wide (ustr ''b.c'')"
  by (simp_all add: is_wide_def ustr_def)

lemma insider_by_key:
  "by_key repr [insider_rec] = [((ustr ''PETR4'', ustr ''insiders''), [insider_rec])]"
  by (simp add: by_key_def add_item_def example_keys)

text \<open>
  C3, as stated. One record of the source \<open>insiders\<close> makes a bucket of exactly one
  record, and the file written for it holds the envelope with the list under
  \<open>items\<close>, not the record.
\<close>

theorem single_record_bucket_wrapped:
  "by_key no_repr [insider_rec] = [((ustr ''PETR4'', ustr ''insiders''), [insider_rec])] \<and>
   grouper plain_fs Json no_repr (ustr ''T0'') [insider_rec] [] =
     Inr [(ustr ''petr4.insiders.json'',
           Json_text (JDict [(ustr ''generated_at'', JStr (ustr ''T0'')),
                             (ustr ''ticker'', JStr (ustr ''PETR4'')),
                             (ustr ''source'', JStr (ustr ''insiders'')),
                             (ustr ''items'', JList [JDict insider_rec])]))] \<and>
   JDict [(ustr ''generated_at'', JStr (ustr ''T0'')),
          (ustr ''ticker'', JStr (ustr ''PETR4'')),
          (ustr ''source'', JStr (ustr ''insiders'')),
          (ustr ''items'', JList [JDict insider_rec])] \<noteq> JDict insider_rec"
proof -
  have run: "grouper plain_fs Json no_repr (ustr ''T0'') [insider_rec] [] =
     Inr [(ustr ''petr4.insiders.json'',
           Json_text (JDict [(ustr ''generated_at'', JStr (ustr ''T0'')),
                             (ustr ''ticker'', JStr (ustr ''PETR4'')),
                             (ustr ''source'', JStr (ustr ''insiders'')),
                             (ustr ''items'', JList [JDict insider_rec])]))]"
    unfolding grouper_def insider_by_key by (simp add: run_eval ticker_payload_def)
  have c: "JDict [(ustr ''generated_at'', JStr (ustr ''T0'')),
          (ustr ''ticker'', JStr (ustr ''PETR4'')),
          (ustr ''source'', JStr (ustr ''insiders'')),
          (ustr ''items'', JList [JDict insider_rec])] \<noteq> JDict insider_rec"
    by (simp add: insider_rec_def source_rec_def)
  show ?thesis using insider_by_key [of no_repr] run c by blast
qed

theorem bucket_payloads_witness:
  "grouper plain_fs Json no_repr (ustr ''T0'') shapes_recs [] = Inr shapes_dir \<and>
   (\<exists>m. map_of shapes_dir (ustr ''volume.json'') =
           Some (Json_text (JDict [(ustr ''generated_at'', JStr (ustr ''T0'')),
                                   (ustr ''source'', JStr (ustr ''volume'')),
                                   (ustr ''items'', JDict m)])) \<and>
         map_of m (ustr ''PETR4'') = Some (JDict (volume_rec ''PETR4'' 7))) \<and>
   (\<exists>m. map_of shapes_dir (ustr ''volume.json'') =
           Some (Json_text (JDict [(ustr ''generated_at'', JStr (ustr ''T0'')),
                                   (ustr ''source'', JStr (ustr ''volume'')),
                                   (ustr ''items'', JDict m)])) \<and>
         map_of m (ustr ''VALE3'') =
           Some (JDict [(ustr ''items'',
             JList [JDict (volume_rec ''VALE3'' 1), JDict (volume_rec ''VALE3'' 2),
                    JDict (volume_rec ''VALE3'' 3)])])) \<and>
   (\<exists>m. map_of shapes_dir (ustr ''magic_formula.json'') =
           Some (Json_text (JDict [(ustr ''generated_at'', JStr (ustr ''T0'')),
                                   (ustr ''source'', JStr (ustr ''magic_formula'')),
                                   (ustr ''items'', JDict m)])) \<and>
         map_of m (ustr ''VALE3'') = Some (JDict (magic_rec ''VALE3'' 4))) \<and>
   map_of shapes_dir (ustr ''petr4.insiders.json'') =
     Some (Json_text (JDict [(ustr ''generated_at'', JStr (ustr ''T0'')),
                             (ustr ''ticker'', JStr (ustr ''PETR4'')),
                             (ustr ''source'', JStr (ustr ''insiders'')),
                             (ustr ''items'', JList [JDict insider_rec])]))"
proof -
  note run = shapes_run_T0 [of no_repr]
  note apart = shapes_apart [of no_repr]
  have loc: "locate plain_fs p = p" for p by (simp add: plain_fs_def)
  have js: "render Json p = Json_text p" for p by (simp add: render_def)
  note b = bucket_payloads [OF run apart]
  show ?thesis
    using run b [OF shapes_buckets(1)] b [OF shapes_buckets(2)] b [OF shapes_buckets(3)]
      b [OF shapes_buckets(4)]
    by (simp add: example_wide example_paths loc js)
qed

text \<open>
  C6, as stated. Two records with the keys \<open>(A.B, c)\<close> and \<open>(A, b.c)\<close> make two
  buckets with one file name; no call raises, the bucket written second replaces the
  first, and the only file of the run holds one of the two records. And where a call
  raises, as for a ticker with a slash in a directory without subdirectories, the run
  ends and its one record is written nowhere.
\<close>

theorem clashing_buckets_overwritten:
  "by_key no_repr clash_recs =
     [((ustr ''A.B'', ustr ''c''), [source_rec ''c'' ''A.B'']),
      ((ustr ''A'', ustr ''b.c''), [source_rec ''b.c'' ''A''])] \<and>
   grouper plain_fs Json no_repr (ustr ''T0'') clash_recs [] =
     Inr [(ustr ''a.b.c.json'',
           Json_text (JDict [(ustr ''generated_at'', JStr (ustr ''T0'')),
                             (ustr ''ticker'', JStr (ustr ''A.B'')),
                             (ustr ''source'', JStr (ustr ''c'')),
                             (ustr ''items'', JList [JDict (source_rec ''c'' ''A.B'')])]))] \<and>
   source_rec ''b.c'' ''A'' \<noteq> source_rec ''c'' ''A.B'' \<and>
   grouper flat_fs Json no_repr (ustr ''T0'') [source_rec ''insiders'' ''A/B''] [] = Inl WriteError"
proof -
  have ne: "ustr ''A'' \<noteq> ustr ''A.B''" "ustr ''A.B'' \<noteq> ustr ''A''"
    by (simp_all add: ustr_def)
  have bk: "by_key no_repr clash_recs =
     [((ustr ''A.B'', ustr ''c''), [source_rec ''c'' ''A.B'']),
      ((ustr ''A'', ustr ''b.c''), [source_rec ''b.c'' ''A''])]"
    by (simp add: by_key_def clash_recs_def add_item_def example_keys ne)
  have sorted: "sort_key fst (by_key no_repr clash_recs) =
     [((ustr ''A'', ustr ''b.c''), [source_rec ''b.c'' ''A'']),
      ((ustr ''A.B'', ustr ''c''), [source_rec ''c'' ''A.B''])]"
    unfolding bk by (simp add: ustr_def)
  have run: "grouper plain_fs Json no_repr (ustr ''T0'') clash_recs [] =
     Inr [(ustr ''a.b.c.json'',
           Json_text (JDict [(ustr ''generated_at'', JStr (ustr ''T0'')),
                             (ustr ''ticker'', JStr (ustr ''A.B'')),
                             (ustr ''source'', JStr (ustr ''c'')),
                             (ustr ''items'', JList [JDict (source_rec ''c'' ''A.B'')])]))]"
    unfolding grouper_def sorted by (simp add: run_eval ticker_payload_def)
  have d: "source_rec ''b.c'' ''A'' \<noteq> source_rec ''c'' ''A.B''"
    by (simp add: source_rec_def ustr_def)
  have bk1: "by_key no_repr [source_rec ''insiders'' ''A/B''] =
     [((ustr ''A/B'', ustr ''insiders''), [source_rec ''insiders'' ''A/B''])]"
    by (simp add: by_key_def add_item_def example_keys)
  have fail: "grouper flat_fs Json no_repr (ustr ''T0'') [source_rec ''insiders'' ''A/B''] [] =
     Inl WriteError"
    unfolding grouper_def bk1 by (simp add: run_eval)
  show ?thesis using bk run d fail by blast
qed

theorem grouping_partition_witness:
  "sum_list (map (\<lambda>b. length (snd b)) (by_key no_repr shapes_recs)) = 7 \<and>
   record_key no_repr [] = (ustr ''UNKNOWN'', ustr ''data'') \<and>
   grouper plain_fs Json no_repr (ustr ''T0'') shapes_recs [] = Inr shapes_dir \<and>
   mset (concat (map (records_at shapes_dir)
     [ustr ''petr4.insiders.json'', ustr ''unknown.data.json'', ustr ''volume.json'',
      ustr ''magic_formula.json''])) = mset shapes_recs \<and>
   sum_list (map (\<lambda>p. length (records_at shapes_dir p))
     [ustr ''petr4.insiders.json'', ustr ''unknown.data.json'', ustr ''volume.json'',
      ustr ''magic_formula.json'']) = 7 \<and>
   volume_rec ''VALE3'' 2 \<in> set (records_at shapes_dir (ustr ''volume.json'')) \<and>
   volume_rec ''VALE3'' 2 \<notin> set (records_at shapes_dir (ustr ''magic_formula.json'')) \<and>
   volume_rec ''VALE3'' 2 \<notin> set (records_at shapes_dir (ustr ''petr4.insiders.json'')) \<and>
   volume_rec ''VALE3'' 2 \<notin> set (records_at shapes_dir (ustr ''unknown.data.json'')) \<and>
   map_of shapes_dir (ustr ''unknown.data.json'') =
     Some (Json_text (JDict [(ustr ''generated_at'', JStr (ustr ''T0'')),
                             (ustr ''ticker'', JStr (ustr ''UNKNOWN'')),
                             (ustr ''source'', JStr (ustr ''data'')),
                             (ustr ''items'', JList [JDict []])]))"
proof -
  note run = shapes_run_T0 [of no_repr]
  note apart = shapes_apart [of no_repr]
  have loc: "locate plain_fs = (\<lambda>p. p)" by (simp add: plain_fs_def)
  have js: "render Json p = Json_text p" for p by (simp add: render_def)
  have len: "length shapes_recs = 7" by (simp add: shapes_recs_def)
  have v: "volume_rec ''VALE3'' 2 \<in> set shapes_recs" and e: "[] \<in> set shapes_recs"
    by (simp_all add: shapes_recs_def)
  have ne: "ustr ''volume.json'' \<noteq> ustr ''magic_formula.json''"
    "ustr ''volume.json'' \<noteq> ustr ''petr4.insiders.json''"
    "ustr ''volume.json'' \<noteq> ustr ''unknown.data.json''"
    "ustr ''magic_formula.json'' \<noteq> ustr ''volume.json''"
    "ustr ''petr4.insiders.json'' \<noteq> ustr ''volume.json''"
    "ustr ''unknown.data.json'' \<noteq> ustr ''volume.json''"
    by (simp_all add: ustr_def)
  have empty_bucket: "filter (\<lambda>x. record_key no_repr x = (ustr ''UNKNOWN'', ustr ''data'')) shapes_recs = [[]]"
    by (simp add: shapes_recs_def example_keys ustr_def)
  note gp = grouping_partition [of no_repr shapes_recs plain_fs Json "ustr ''T0''" "[]" shapes_dir]
  from gp have sizes: "sum_list (map (\<lambda>b. length (snd b)) (by_key no_repr shapes_recs)) = length shapes_recs"
    by blast
  from gp run apart have ms: "mset (concat (map (\<lambda>p. records_at shapes_dir (locate plain_fs p))
       (output_paths Json no_repr shapes_recs))) = mset shapes_recs"
    and sm: "sum_list (map (\<lambda>p. length (records_at shapes_dir (locate plain_fs p)))
       (output_paths Json no_repr shapes_recs)) = length shapes_recs"
    and per: "\<forall>r\<in>set shapes_recs.
       (\<forall>p\<in>set (output_paths Json no_repr shapes_recs).
            r \<in> set (records_at shapes_dir (locate plain_fs p)) \<longleftrightarrow>
              p = output_path Json (record_key no_repr r)) \<and>
       (\<not> is_wide (snd (record_key no_repr r)) \<longrightarrow>
            map_of shapes_dir (locate plain_fs (ticker_path Json (fst (record_key no_repr r))
                                     (snd (record_key no_repr r)))) =
              Some (render Json
                (JDict [(ustr ''generated_at'', JStr (ustr ''T0'')),
                        (ustr ''ticker'', JStr (fst (record_key no_repr r))),
                        (ustr ''source'', JStr (snd (record_key no_repr r))),
                        (ustr ''items'', JList (map JDict
                           (filter (\<lambda>x. record_key no_repr x = record_key no_repr r) shapes_recs)))])))"
    by blast+
  from per v have pv: "\<forall>p\<in>set (output_paths Json no_repr shapes_recs).
            volume_rec ''VALE3'' 2 \<in> set (records_at shapes_dir (locate plain_fs p)) \<longleftrightarrow>
              p = output_path Json (record_key no_repr (volume_rec ''VALE3'' 2))"
    by blast
  from per e have "\<not> is_wide (snd (record_key no_repr [])) \<longrightarrow>
            map_of shapes_dir (locate plain_fs (ticker_path Json (fst (record_key no_repr []))
                                     (snd (record_key no_repr [])))) =
              Some (render Json
                (JDict [(ustr ''generated_at'', JStr (ustr ''T0'')),
                        (ustr ''ticker'', JStr (fst (record_key no_repr []))),
                        (ustr ''source'', JStr (snd (record_key no_repr []))),
                        (ustr ''items'', JList (map JDict
                           (filter (\<lambda>x. record_key no_repr x = record_key no_repr []) shapes_recs)))]))"
    by blast
  then have pe: "map_of shapes_dir (locate plain_fs (ticker_path Json (ustr ''UNKNOWN'') (ustr ''data''))) =
              Some (render Json
                (JDict [(ustr ''generated_at'', JStr (ustr ''T0'')),
                        (ustr ''ticker'', JStr (ustr ''UNKNOWN'')),
                        (ustr ''source'', JStr (ustr ''data'')),
                        (ustr ''items'', JList (map JDict
                           (filter (\<lambda>x. record_key no_repr x = (ustr ''UNKNOWN'', ustr ''data''))
                              shapes_recs)))]))"
    by (simp add: example_keys example_wide)
  have c1: "mset (concat (map (records_at shapes_dir)
     [ustr ''petr4.insiders.json'', ustr ''unknown.data.json'', ustr ''volume.json'',
      ustr ''magic_formula.json''])) = mset shapes_recs"
    using ms unfolding shapes_paths loc .
  have c2: "sum_list (map (\<lambda>p. length (records_at shapes_dir p))
     [ustr ''petr4.insiders.json'', ustr ''unknown.data.json'', ustr ''volume.json'',
      ustr ''magic_formula.json'']) = 7"
    using sm unfolding shapes_paths loc len .
  have c3: "volume_rec ''VALE3'' 2 \<in> set (records_at shapes_dir (ustr ''volume.json'')) \<and>
   volume_rec ''VALE3'' 2 \<notin> set (records_at shapes_dir (ustr ''magic_formula.json'')) \<and>
   volume_rec ''VALE3'' 2 \<notin> set (records_at shapes_dir (ustr ''petr4.insiders.json'')) \<and>
   volume_rec ''VALE3'' 2 \<notin> set (records_at shapes_dir (ustr ''unknown.data.json''))"
    using pv unfolding shapes_paths loc
    by (simp add: example_keys output_path_def example_wide example_paths ne)
  have c4: "map_of shapes_dir (ustr ''unknown.data.json'') =
     Some (Json_text (JDict [(ustr ''generated_at'', JStr (ustr ''T0'')),
                             (ustr ''ticker'', JStr (ustr ''UNKNOWN'')),
                             (ustr ''source'', JStr (ustr ''data'')),
                             (ustr ''items'', JList [JDict []])]))"
    using pe unfolding loc empty_bucket by (simp add: example_paths js)
  show ?thesis using sizes len example_keys(6) [of no_repr] run c1 c2 c3 c4 by simp
qed



end
